theory Spec2Isabelle
  imports Complex_Main "HOL-Library.Word"
begin

unbundle bit_operations_syntax

section \<open>Scalars of the program\<close>

text \<open>
  The C++ type \<open>float\<close>. The special values of IEEE-754 are kept apart from the finite
  ones, because the program divides by a surface size that can be zero and HOL's own
  division would return 0 there. Finite results are kept exact: rounding to binary32 and
  the sign of a zero are not modelled; no definition below compares two floats.
\<close>

datatype cfloat = Finite rat | PInf | NInf | NaN

text \<open>\<open>a / b\<close> on \<open>float\<close>: a zero divisor gives an infinity, or NaN for \<open>0 / 0\<close>.\<close>

fun fdiv :: "cfloat \<Rightarrow> cfloat \<Rightarrow> cfloat" where
  "fdiv NaN b = NaN"
| "fdiv a NaN = NaN"
| "fdiv (Finite a) (Finite b) =
     (if b = 0 then (if a = 0 then NaN else if 0 < a then PInf else NInf)
      else Finite (a / b))"
| "fdiv (Finite a) PInf = Finite 0"
| "fdiv (Finite a) NInf = Finite 0"
| "fdiv PInf (Finite b) = (if 0 \<le> b then PInf else NInf)"
| "fdiv NInf (Finite b) = (if 0 \<le> b then NInf else PInf)"
| "fdiv PInf PInf = NaN"
| "fdiv PInf NInf = NaN"
| "fdiv NInf PInf = NaN"
| "fdiv NInf NInf = NaN"

text \<open>\<open>a - b\<close> on \<open>float\<close>.\<close>

fun fsub :: "cfloat \<Rightarrow> cfloat \<Rightarrow> cfloat" where
  "fsub NaN b = NaN"
| "fsub a NaN = NaN"
| "fsub (Finite a) (Finite b) = Finite (a - b)"
| "fsub (Finite a) PInf = NInf"
| "fsub (Finite a) NInf = PInf"
| "fsub PInf (Finite b) = PInf"
| "fsub NInf (Finite b) = NInf"
| "fsub PInf PInf = NaN"
| "fsub PInf NInf = PInf"
| "fsub NInf PInf = NInf"
| "fsub NInf NInf = NaN"

text \<open>\<open>a + b\<close> on \<open>float\<close> (the \<open>+=\<close> of the touch callback).\<close>

fun fadd :: "cfloat \<Rightarrow> cfloat \<Rightarrow> cfloat" where
  "fadd NaN b = NaN"
| "fadd a NaN = NaN"
| "fadd (Finite a) (Finite b) = Finite (a + b)"
| "fadd (Finite a) PInf = PInf"
| "fadd (Finite a) NInf = NInf"
| "fadd PInf (Finite b) = PInf"
| "fadd NInf (Finite b) = NInf"
| "fadd PInf PInf = PInf"
| "fadd PInf NInf = NaN"
| "fadd NInf PInf = NaN"
| "fadd NInf NInf = NInf"

text \<open>\<open>static_cast<float>(i)\<close> for an \<open>int\<close>.\<close>

definition float_of_int :: "int \<Rightarrow> cfloat" where
  "float_of_int i = Finite (of_int i)"

text \<open>A float that is a number of the interval [0,1], the range of a normalized position.\<close>

fun in_unit_interval :: "cfloat \<Rightarrow> bool" where
  "in_unit_interval (Finite q) = (0 \<le> q \<and> q \<le> 1)"
| "in_unit_interval PInf = False"
| "in_unit_interval NInf = False"
| "in_unit_interval NaN = False"

text \<open>
  EGL handles are pointers; \<open>EGL_NO_DISPLAY\<close>, \<open>EGL_NO_SURFACE\<close> and
  \<open>EGL_NO_CONTEXT\<close> are the null pointer.
\<close>

type_synonym handle = nat

abbreviation (input) EGL_NO_DISPLAY :: handle where "EGL_NO_DISPLAY \<equiv> 0"
abbreviation (input) EGL_NO_SURFACE :: handle where "EGL_NO_SURFACE \<equiv> 0"
abbreviation (input) EGL_NO_CONTEXT :: handle where "EGL_NO_CONTEXT \<equiv> 0"

text \<open>The EGL error codes of \<open>EGL/egl.h\<close> (\<open>EGLint\<close> is a 32-bit integer).\<close>

type_synonym EGLint = "32 word"

abbreviation (input) EGL_SUCCESS :: EGLint where "EGL_SUCCESS \<equiv> 0x3000"
abbreviation (input) EGL_BAD_CONTEXT :: EGLint where "EGL_BAD_CONTEXT \<equiv> 0x3006"
abbreviation (input) EGL_BAD_DISPLAY :: EGLint where "EGL_BAD_DISPLAY \<equiv> 0x3008"
abbreviation (input) EGL_BAD_SURFACE :: EGLint where "EGL_BAD_SURFACE \<equiv> 0x300D"
abbreviation (input) EGL_CONTEXT_LOST :: EGLint where "EGL_CONTEXT_LOST \<equiv> 0x300E"

text \<open>The motion-event constants of \<open>android/input.h\<close> and of the GameActivity header.\<close>

abbreviation (input) AMOTION_EVENT_ACTION_MASK :: "32 word" where
  "AMOTION_EVENT_ACTION_MASK \<equiv> 0xff"
abbreviation (input) AMOTION_EVENT_ACTION_POINTER_INDEX_MASK :: "32 word" where
  "AMOTION_EVENT_ACTION_POINTER_INDEX_MASK \<equiv> 0xff00"
abbreviation (input) AMOTION_EVENT_ACTION_POINTER_INDEX_SHIFT :: nat where
  "AMOTION_EVENT_ACTION_POINTER_INDEX_SHIFT \<equiv> 8"
abbreviation (input) AMOTION_EVENT_ACTION_DOWN :: "32 word" where "AMOTION_EVENT_ACTION_DOWN \<equiv> 0"
abbreviation (input) AMOTION_EVENT_ACTION_UP :: "32 word" where "AMOTION_EVENT_ACTION_UP \<equiv> 1"
abbreviation (input) AMOTION_EVENT_ACTION_MOVE :: "32 word" where "AMOTION_EVENT_ACTION_MOVE \<equiv> 2"
abbreviation (input) AMOTION_EVENT_ACTION_POINTER_DOWN :: "32 word" where
  "AMOTION_EVENT_ACTION_POINTER_DOWN \<equiv> 5"
abbreviation (input) AMOTION_EVENT_ACTION_POINTER_UP :: "32 word" where
  "AMOTION_EVENT_ACTION_POINTER_UP \<equiv> 6"
abbreviation (input) GAMEACTIVITY_MAX_NUM_POINTERS_IN_MOTION_EVENT :: nat where
  "GAMEACTIVITY_MAX_NUM_POINTERS_IN_MOTION_EVENT \<equiv> 8"

section \<open>Data model\<close>

record Position =
  pos_x :: cfloat
  pos_y :: cfloat

text \<open>
  One entry of \<open>GameActivityMotionEvent::pointers\<close>: the pointer id and the two axis
  values that \<open>GameActivityPointerAxes_getX\<close> and \<open>GameActivityPointerAxes_getY\<close> read.
\<close>

record GameActivityPointerAxes =
  pointer_id :: "32 word"
  axis_x :: cfloat
  axis_y :: cfloat

text \<open>
  \<open>pointers\<close> is a C array of \<open>GAMEACTIVITY_MAX_NUM_POINTERS_IN_MOTION_EVENT\<close> entries: a
  function of the index, which the model reads below that bound only.
\<close>

record GameActivityMotionEvent =
  action :: "32 word"
  pointerCount :: nat
  pointers :: "nat \<Rightarrow> GameActivityPointerAxes"

datatype TouchScreenEvent_Type = Up | Down | Move

text \<open>
  \<open>move_ndelta\<close> is \<open>None\<close> while the field has never been written: the event is declared
  without an initializer (\<open>TouchScreenEvent ev;\<close>). Every other field is assigned before
  the event reaches the callback.
\<close>

record TouchScreenEvent =
  ev_type :: TouchScreenEvent_Type
  ev_id :: "32 word"
  ev_min :: Position
  ev_max :: Position
  ev_pos :: Position
  norm_pos :: Position
  move_ndelta :: "Position option"
  motion_event :: GameActivityMotionEvent
  pointer_index :: nat

text \<open>
  What the engine does to the outside and to its tracker list, in program order: calls of
  the platform (EGL, OpenGL ES), of the touch callback, of the list operations on
  \<open>previous_positions\<close>, and the \<open>LOGE\<close> diagnostics (by format string). The debug and
  warning logs (\<open>LOGD\<close>, \<open>VLOGD\<close>, \<open>LOGW\<close>) are not recorded.
\<close>

datatype effect =
    Callback TouchScreenEvent
  | TrackerPushBack "32 word" Position
  | TrackerRemoveIf "32 word"
  | LogE string
  | EglGetDisplay
  | EglInitialize handle
  | EglChooseConfig handle
  | EglCreateWindowSurface handle handle
  | EglCreateContext handle handle
  | EglMakeCurrent handle handle handle handle
  | EglDestroySurface handle handle
  | EglDestroyContext handle handle
  | EglTerminate handle
  | EglQuerySurface handle handle
  | EglSwapBuffers handle handle
  | EglGetError
  | GlViewport int int int int
  | GlDrawArrays
  | GlCall string

text \<open>
  The fields of \<open>class NativeEngine\<close> that the lifecycle, the renderer set-up and the touch
  tracker read or write, and the trace of effects. The vertex data, the shader and buffer
  names, the rotation phase, the JNI environment and the saved state (an empty struct) are
  left out.
\<close>

record NativeEngine =
  vs_loaded :: bool
  fs_loaded :: bool
  mHasFocus :: bool
  mIsVisible :: bool
  mHasWindow :: bool
  mHasGLObjects :: bool
  nn :: "32 word"
  orig_x :: "cfloat list"
  orig_y :: "cfloat list"
  mEglDisplay :: handle
  mEglSurface :: handle
  mEglContext :: handle
  mEglConfig :: handle
  mSurfWidth :: int
  mSurfHeight :: int
  mIsFirstFrame :: bool
  previous_positions :: "(32 word \<times> Position) list"
  errorsPrinted :: int
  trace :: "effect list"

text \<open>
  The ways a run stops without a next state: a failed \<open>MY_ASSERT\<close>, a read outside the
  \<open>pointers\<close> array, a read of a variable that was never written.
\<close>

datatype error = AssertFailed | OutOfBoundsRead | IndeterminateRead

text \<open>The constructor \<open>NativeEngine::NativeEngine\<close>.\<close>

definition NativeEngine_ctor :: NativeEngine where
  "NativeEngine_ctor =
     \<lparr> vs_loaded = False, fs_loaded = False,
       mHasFocus = False, mIsVisible = False, mHasWindow = False,
       mHasGLObjects = False, nn = 0,
       orig_x = [Finite 0, Finite (- 1 / 2), Finite (1 / 2)],
       orig_y = [Finite (- 1 / 2), Finite (1 / 2), Finite (1 / 2)],
       mEglDisplay = EGL_NO_DISPLAY, mEglSurface = EGL_NO_SURFACE,
       mEglContext = EGL_NO_CONTEXT, mEglConfig = 0,
       mSurfWidth = 0, mSurfHeight = 0, mIsFirstFrame = True,
       previous_positions = [], errorsPrinted = 0, trace = [] \<rparr>"

definition emit :: "effect list \<Rightarrow> NativeEngine \<Rightarrow> NativeEngine" where
  "emit es s = s\<lparr>trace := trace s @ es\<rparr>"

section \<open>Touch tracking: \<open>process_input_events\<close>\<close>

text \<open>
  \<open>callback_touch_screen_event\<close>: a Move adds the event's delta to the three triangle
  offsets; reading a delta that was never written has no defined result.
\<close>

definition callback_touch_screen_event ::
  "NativeEngine \<Rightarrow> TouchScreenEvent \<Rightarrow> error + NativeEngine" where
  "callback_touch_screen_event s event =
     (case ev_type event of
        Up \<Rightarrow> Inr (emit [Callback event] s)
      | Down \<Rightarrow> Inr (emit [Callback event] s)
      | Move \<Rightarrow>
          (case move_ndelta event of
             None \<Rightarrow> Inl IndeterminateRead
           | Some d \<Rightarrow>
               Inr (emit [Callback event]
                     (s\<lparr>orig_x := map (\<lambda>v. fadd v (pos_x d)) (orig_x s),
                        orig_y := map (\<lambda>v. fadd v (pos_y d)) (orig_y s)\<rparr>))))"

text \<open>
  The write through \<open>Position& pp = it->second\<close>, where \<open>it\<close> is the first record that
  \<open>std::find_if\<close> finds for the id.
\<close>

fun update_first ::
  "32 word \<Rightarrow> Position \<Rightarrow> (32 word \<times> Position) list \<Rightarrow> (32 word \<times> Position) list" where
  "update_first i p [] = []"
| "update_first i p (el # t) =
     (if fst el = i then (fst el, p) # t else el # update_first i p t)"

text \<open>The fields of \<open>ev\<close> that every event of one motion event shares.\<close>

definition cooked ::
  "NativeEngine \<Rightarrow> GameActivityMotionEvent \<Rightarrow> TouchScreenEvent_Type \<Rightarrow> nat
     \<Rightarrow> Position option \<Rightarrow> TouchScreenEvent" where
  "cooked s me ty i nd =
     (let mx = \<lparr>pos_x = float_of_int (mSurfWidth s), pos_y = float_of_int (mSurfHeight s)\<rparr>;
          p = \<lparr>pos_x = axis_x (pointers me i), pos_y = axis_y (pointers me i)\<rparr>
      in \<lparr> ev_type = ty, ev_id = pointer_id (pointers me i),
           ev_min = \<lparr>pos_x = Finite 0, pos_y = Finite 0\<rparr>, ev_max = mx,
           ev_pos = p,
           norm_pos = \<lparr>pos_x = fdiv (pos_x p) (pos_x mx), pos_y = fdiv (pos_y p) (pos_y mx)\<rparr>,
           move_ndelta = nd, motion_event = me, pointer_index = i \<rparr>)"

text \<open>
  The body of the loop of the \<open>AMOTION_EVENT_ACTION_MOVE\<close> case for pointer \<open>i\<close>.
  \<open>nd\<close> is what \<open>ev.move_ndelta\<close> holds when the iteration starts; the new content is
  returned with the state.
\<close>

definition cook_move ::
  "NativeEngine \<Rightarrow> GameActivityMotionEvent \<Rightarrow> Position option \<Rightarrow> nat
     \<Rightarrow> error + (NativeEngine \<times> Position option)" where
  "cook_move s me nd i =
     (if i < GAMEACTIVITY_MAX_NUM_POINTERS_IN_MOTION_EVENT then
        (let ev = cooked s me Move i nd in
         case find (\<lambda>el. fst el = ev_id ev) (previous_positions s) of
           None \<Rightarrow>
             map_sum id (\<lambda>s'. (s', nd))
               (callback_touch_screen_event (emit [LogE ''baaaaaaaaaaaaaaaaad''] s) ev)
         | Some el \<Rightarrow>
             (let d = \<lparr>pos_x = fsub (pos_x (norm_pos ev)) (pos_x (snd el)),
                       pos_y = fsub (pos_y (norm_pos ev)) (pos_y (snd el))\<rparr>;
                  ev' = ev\<lparr>move_ndelta := Some d\<rparr>;
                  s1 = s\<lparr>previous_positions :=
                           update_first (ev_id ev) (norm_pos ev) (previous_positions s)\<rparr>
              in map_sum id (\<lambda>s'. (s', Some d)) (callback_touch_screen_event s1 ev')))
      else Inl OutOfBoundsRead)"

fun move_loop ::
  "NativeEngine \<Rightarrow> GameActivityMotionEvent \<Rightarrow> Position option \<Rightarrow> nat list
     \<Rightarrow> error + NativeEngine" where
  "move_loop s me nd [] = Inr s"
| "move_loop s me nd (i # is) =
     (case cook_move s me nd i of
        Inl e \<Rightarrow> Inl e
      | Inr (s', nd') \<Rightarrow> move_loop s' me nd' is)"

text \<open>
  The code after the first switch, for a Down or an Up: nothing when \<open>pointerIndex\<close> kept
  its initial value; otherwise the tracker is changed in the second switch and the
  callback is called after it.
\<close>

definition cook_event ::
  "NativeEngine \<Rightarrow> GameActivityMotionEvent \<Rightarrow> TouchScreenEvent_Type \<Rightarrow> nat
     \<Rightarrow> error + NativeEngine" where
  "cook_event s me ty pointerIndex =
     (if pointerIndex \<noteq> GAMEACTIVITY_MAX_NUM_POINTERS_IN_MOTION_EVENT then
        (if pointerIndex < GAMEACTIVITY_MAX_NUM_POINTERS_IN_MOTION_EVENT then
           (let ev = cooked s me ty pointerIndex None in
            case ty of
              Up \<Rightarrow>
                (let found = list_ex (\<lambda>el. fst el = ev_id ev) (previous_positions s);
                     s1 = emit (TrackerRemoveIf (ev_id ev) #
                                (if \<not> found then [LogE ''noooooooooooooo''] else []))
                            (s\<lparr>previous_positions :=
                                 filter (\<lambda>el. fst el \<noteq> ev_id ev) (previous_positions s)\<rparr>)
                 in callback_touch_screen_event s1 ev)
            | Down \<Rightarrow>
                callback_touch_screen_event
                  (emit [TrackerPushBack (ev_id ev) (norm_pos ev)]
                     (s\<lparr>previous_positions :=
                          previous_positions s @ [(ev_id ev, norm_pos ev)]\<rparr>)) ev
            | Move \<Rightarrow> callback_touch_screen_event s ev)
         else Inl OutOfBoundsRead)
      else Inr s)"

definition pointer_index_of :: "32 word \<Rightarrow> nat" where
  "pointer_index_of a =
     unat (drop_bit AMOTION_EVENT_ACTION_POINTER_INDEX_SHIFT
             (a AND AMOTION_EVENT_ACTION_POINTER_INDEX_MASK))"

text \<open>The body of the loop over the motion events of the input buffer.\<close>

definition process_motion_event ::
  "NativeEngine \<Rightarrow> GameActivityMotionEvent \<Rightarrow> error + NativeEngine" where
  "process_motion_event s me =
     (if 0 < pointerCount me then
        (let actionMasked = action me AND AMOTION_EVENT_ACTION_MASK in
         if actionMasked = AMOTION_EVENT_ACTION_DOWN then cook_event s me Down 0
         else if actionMasked = AMOTION_EVENT_ACTION_POINTER_DOWN then
           cook_event s me Down (pointer_index_of (action me))
         else if actionMasked = AMOTION_EVENT_ACTION_UP then cook_event s me Up 0
         else if actionMasked = AMOTION_EVENT_ACTION_POINTER_UP then
           cook_event s me Up (pointer_index_of (action me))
         else if actionMasked = AMOTION_EVENT_ACTION_MOVE then
           move_loop s me None [0..<pointerCount me]
         else Inr s)
      else Inr s)"

text \<open>
  \<open>process_input_events\<close> on the motion events of the swapped input buffer (the empty
  list when the buffer is null or holds none).
\<close>

fun process_input_events ::
  "NativeEngine \<Rightarrow> GameActivityMotionEvent list \<Rightarrow> error + NativeEngine" where
  "process_input_events s [] = Inr s"
| "process_input_events s (me # mes) =
     (case process_motion_event s me of
        Inl e \<Rightarrow> Inl e
      | Inr s' \<Rightarrow> process_input_events s' mes)"

section \<open>Lifecycle and render context\<close>

text \<open>
  The commands that the switch of \<open>HandleCommand\<close> names; their numbers are in a header
  of the platform. Any other number is \<open>APP_CMD_OTHER\<close>, the \<open>default\<close> case.
\<close>

datatype app_cmd =
    APP_CMD_SAVE_STATE
  | APP_CMD_INIT_WINDOW
  | APP_CMD_TERM_WINDOW
  | APP_CMD_GAINED_FOCUS
  | APP_CMD_LOST_FOCUS
  | APP_CMD_PAUSE
  | APP_CMD_RESUME
  | APP_CMD_STOP
  | APP_CMD_START
  | APP_CMD_WINDOW_RESIZED
  | APP_CMD_CONFIG_CHANGED
  | APP_CMD_LOW_MEMORY
  | APP_CMD_OTHER "32 word"

text \<open>
  What the platform answers during one call of \<open>DoFrame\<close>. An output parameter that
  the platform may leave unwritten is an option. \<open>eglGetError_ret\<close> and
  \<open>swap_eglGetError_ret\<close> are the results of the calls of \<open>eglGetError\<close> whose value is
  passed to \<open>HandleEglError\<close>. \<open>glGetError_rets\<close> are the results of the calls of
  \<open>glGetError\<close> at the end of the frame, before the platform runs out of errors.
\<close>

record platform =
  eglGetDisplay_ret :: handle
  eglInitialize_ret :: bool
  eglChooseConfig_out :: "handle option"
  eglCreateWindowSurface_ret :: handle
  eglCreateContext_ret :: handle
  eglMakeCurrent_ret :: bool
  eglGetError_ret :: EGLint
  vs_compile_status :: bool
  vs_malloc_ok :: bool
  fs_compile_status :: bool
  fs_malloc_ok :: bool
  eglQuerySurface_width :: "int option"
  eglQuerySurface_height :: "int option"
  eglSwapBuffers_ret :: bool
  swap_eglGetError_ret :: EGLint
  glGetError_rets :: "32 word list"

definition IsAnimating :: "NativeEngine \<Rightarrow> bool" where
  "IsAnimating s = (mHasFocus s \<and> mIsVisible s \<and> mHasWindow s)"

definition KillGLObjects :: "NativeEngine \<Rightarrow> NativeEngine" where
  "KillGLObjects s = (if mHasGLObjects s then s\<lparr>mHasGLObjects := False\<rparr> else s)"

definition KillSurface :: "NativeEngine \<Rightarrow> NativeEngine" where
  "KillSurface s =
     (let s1 = emit [EglMakeCurrent (mEglDisplay s) EGL_NO_SURFACE EGL_NO_SURFACE
                       EGL_NO_CONTEXT] s
      in if mEglSurface s1 \<noteq> EGL_NO_SURFACE then
           (emit [EglDestroySurface (mEglDisplay s1) (mEglSurface s1)] s1)
             \<lparr>mEglSurface := EGL_NO_SURFACE\<rparr>
         else s1)"

definition KillContext :: "NativeEngine \<Rightarrow> NativeEngine" where
  "KillContext s =
     (let s0 = KillGLObjects s;
          s1 = emit [EglMakeCurrent (mEglDisplay s0) EGL_NO_SURFACE EGL_NO_SURFACE
                       EGL_NO_CONTEXT] s0
      in if mEglContext s1 \<noteq> EGL_NO_CONTEXT then
           (emit [EglDestroyContext (mEglDisplay s1) (mEglContext s1)] s1)
             \<lparr>mEglContext := EGL_NO_CONTEXT\<rparr>
         else s1)"

definition KillDisplay :: "NativeEngine \<Rightarrow> NativeEngine" where
  "KillDisplay s =
     (let s1 = KillSurface (KillContext s)
      in if mEglDisplay s1 \<noteq> EGL_NO_DISPLAY then
           (emit [EglTerminate (mEglDisplay s1)] s1)\<lparr>mEglDisplay := EGL_NO_DISPLAY\<rparr>
         else s1)"

definition HandleEglError :: "NativeEngine \<Rightarrow> EGLint \<Rightarrow> bool \<times> NativeEngine" where
  "HandleEglError s err =
     (if err = EGL_SUCCESS then (True, s)
      else if err = EGL_CONTEXT_LOST then (True, KillContext s)
      else if err = EGL_BAD_CONTEXT then (True, KillContext s)
      else if err = EGL_BAD_DISPLAY then (True, KillDisplay s)
      else if err = EGL_BAD_SURFACE then (True, KillSurface s)
      else (False, s))"

text \<open>\<open>HandleCommand\<close>; \<open>window\<close> tells whether \<open>mApp->window\<close> is not null.\<close>

fun HandleCommand :: "NativeEngine \<Rightarrow> bool \<Rightarrow> app_cmd \<Rightarrow> NativeEngine" where
  "HandleCommand s window APP_CMD_SAVE_STATE = s"
| "HandleCommand s window APP_CMD_INIT_WINDOW =
     (if window then s\<lparr>mHasWindow := True\<rparr> else s)"
| "HandleCommand s window APP_CMD_TERM_WINDOW = (KillSurface s)\<lparr>mHasWindow := False\<rparr>"
| "HandleCommand s window APP_CMD_GAINED_FOCUS = s\<lparr>mHasFocus := True\<rparr>"
| "HandleCommand s window APP_CMD_LOST_FOCUS = s\<lparr>mHasFocus := False\<rparr>"
| "HandleCommand s window APP_CMD_PAUSE = s"
| "HandleCommand s window APP_CMD_RESUME = s"
| "HandleCommand s window APP_CMD_STOP = s\<lparr>mIsVisible := False\<rparr>"
| "HandleCommand s window APP_CMD_START = s\<lparr>mIsVisible := True\<rparr>"
| "HandleCommand s window APP_CMD_WINDOW_RESIZED = s"
| "HandleCommand s window APP_CMD_CONFIG_CHANGED = s"
| "HandleCommand s window APP_CMD_LOW_MEMORY =
     (if \<not> mHasWindow s then KillGLObjects s else s)"
| "HandleCommand s window (APP_CMD_OTHER c) = s"

definition InitDisplay :: "NativeEngine \<Rightarrow> platform \<Rightarrow> bool \<times> NativeEngine" where
  "InitDisplay s pf =
     (if mEglDisplay s \<noteq> EGL_NO_DISPLAY then (True, s)
      else
        (let s1 = (emit [EglGetDisplay, EglInitialize (eglGetDisplay_ret pf)] s)
                    \<lparr>mEglDisplay := eglGetDisplay_ret pf\<rparr>
         in if \<not> eglInitialize_ret pf then
              (False, emit [EglGetError,
                            LogE ''NativeEngine: failed to init display, error %d''] s1)
            else (True, s1)))"

text \<open>
  Modelled from the spec: \<open>MY_ASSERT\<close>, a macro of \<open>common.hpp\<close>, which is not part of
  the sources. The spec calls a surface or context initialisation without a valid display
  an unrecoverable precondition failure that aborts; the run ends with \<open>AssertFailed\<close>.
\<close>

definition MY_ASSERT :: "bool \<Rightarrow> error + unit" where
  "MY_ASSERT c = (if c then Inr () else Inl AssertFailed)"

definition InitSurface :: "NativeEngine \<Rightarrow> platform \<Rightarrow> error + (bool \<times> NativeEngine)" where
  "InitSurface s pf =
     (case MY_ASSERT (mEglDisplay s \<noteq> EGL_NO_DISPLAY) of
        Inl e \<Rightarrow> Inl e
      | Inr u \<Rightarrow>
          if mEglSurface s \<noteq> EGL_NO_SURFACE then Inr (True, s)
          else
            (let cfg = (case eglChooseConfig_out pf of None \<Rightarrow> mEglConfig s | Some c \<Rightarrow> c);
                 s1 = (emit [EglChooseConfig (mEglDisplay s),
                             EglCreateWindowSurface (mEglDisplay s) cfg] s)
                        \<lparr>mEglConfig := cfg, mEglSurface := eglCreateWindowSurface_ret pf\<rparr>
             in if mEglSurface s1 = EGL_NO_SURFACE then
                  Inr (False, emit [EglGetError,
                                    LogE ''Failed to create EGL surface, EGL error %d''] s1)
                else Inr (True, s1)))"

definition InitContext :: "NativeEngine \<Rightarrow> platform \<Rightarrow> error + (bool \<times> NativeEngine)" where
  "InitContext s pf =
     (case MY_ASSERT (mEglDisplay s \<noteq> EGL_NO_DISPLAY) of
        Inl e \<Rightarrow> Inl e
      | Inr u \<Rightarrow>
          if mEglContext s \<noteq> EGL_NO_CONTEXT then Inr (True, s)
          else
            (let s1 = (emit [EglCreateContext (mEglDisplay s) (mEglConfig s)] s)
                        \<lparr>mEglContext := eglCreateContext_ret pf\<rparr>
             in if mEglContext s1 = EGL_NO_CONTEXT then
                  Inr (False, emit [EglGetError,
                                    LogE ''Failed to create EGL context, EGL error %d''] s1)
                else Inr (True, s1)))"

definition ConfigureOpenGL :: "NativeEngine \<Rightarrow> NativeEngine" where
  "ConfigureOpenGL s = emit [GlCall ''glClearColor'', GlCall ''glDisable'', GlCall ''glClear''] s"

text \<open>
  \<open>load_vertex_shader\<close> and \<open>load_frag_shader\<close>: \<open>status\<close> is the compile status that
  \<open>glGetShaderiv\<close> reports, \<open>malloc_ok\<close> whether the buffer for the info log was
  allocated.
\<close>

definition load_shader_common ::
  "string \<Rightarrow> bool \<Rightarrow> bool \<Rightarrow> NativeEngine \<Rightarrow> error + (bool \<times> NativeEngine)" where
  "load_shader_common msg status malloc_ok s =
     (let s1 = emit [GlCall ''glCreateShader'', GlCall ''glShaderSource'',
                     GlCall ''glCompileShader'', GlCall ''glGetShaderiv''] s
      in if \<not> status then
           (case MY_ASSERT malloc_ok of
              Inl e \<Rightarrow> Inl e
            | Inr u \<Rightarrow>
                Inr (False, emit [GlCall ''glGetShaderiv'', GlCall ''glGetShaderInfoLog'',
                                  LogE msg, LogE ''%s''] s1))
         else Inr (True, s1))"

definition load_vertex_shader :: "NativeEngine \<Rightarrow> platform \<Rightarrow> error + NativeEngine" where
  "load_vertex_shader s pf =
     (case load_shader_common ''vertex shader compilation failed''
             (vs_compile_status pf) (vs_malloc_ok pf) s of
        Inl e \<Rightarrow> Inl e
      | Inr (ok, s1) \<Rightarrow> Inr (if ok then s1\<lparr>vs_loaded := True\<rparr> else s1))"

definition load_frag_shader :: "NativeEngine \<Rightarrow> platform \<Rightarrow> error + NativeEngine" where
  "load_frag_shader s pf =
     (case load_shader_common ''fragment shader compilation failed''
             (fs_compile_status pf) (fs_malloc_ok pf) s of
        Inl e \<Rightarrow> Inl e
      | Inr (ok, s1) \<Rightarrow> Inr (if ok then s1\<lparr>fs_loaded := True\<rparr> else s1))"

definition load_program :: "NativeEngine \<Rightarrow> NativeEngine" where
  "load_program s =
     emit [GlCall ''glCreateProgram'', GlCall ''glAttachShader'', GlCall ''glAttachShader'',
           GlCall ''glBindAttribLocation'', GlCall ''glBindAttribLocation'',
           GlCall ''glBindAttribLocation'', GlCall ''glLinkProgram'',
           GlCall ''glUseProgram''] s"

definition setup_vertex_buffer :: "NativeEngine \<Rightarrow> NativeEngine" where
  "setup_vertex_buffer s =
     emit [GlCall ''glGenVertexArrays'', GlCall ''glGenBuffers'', GlCall ''glBindVertexArray'',
           GlCall ''glBindBuffer'', GlCall ''glEnableVertexAttribArray'',
           GlCall ''glEnableVertexAttribArray'', GlCall ''glEnableVertexAttribArray'',
           GlCall ''glVertexAttribPointer'', GlCall ''glVertexAttribPointer'',
           GlCall ''glVertexAttribPointer'', GlCall ''glBufferData''] s"

text \<open>The part of \<open>PrepareToRender\<close> after the three handles exist.\<close>

definition bind_and_load :: "NativeEngine \<Rightarrow> platform \<Rightarrow> error + NativeEngine" where
  "bind_and_load s pf =
     (let s1 = emit [EglMakeCurrent (mEglDisplay s) (mEglSurface s) (mEglSurface s)
                       (mEglContext s)] s;
          s2 = (if \<not> eglMakeCurrent_ret pf then
                  snd (HandleEglError
                         (emit [EglGetError,
                                LogE ''NativeEngine: eglMakeCurrent failed, EGL error %d'',
                                EglGetError] s1)
                         (eglGetError_ret pf))
                else s1)
      in case load_vertex_shader (ConfigureOpenGL s2) pf of
           Inl e \<Rightarrow> Inl e
         | Inr s3 \<Rightarrow>
             (case load_frag_shader s3 pf of
                Inl e \<Rightarrow> Inl e
              | Inr s4 \<Rightarrow> Inr (setup_vertex_buffer (load_program s4))))"

definition PrepareToRender ::
  "NativeEngine \<Rightarrow> platform \<Rightarrow> error + (bool \<times> NativeEngine)" where
  "PrepareToRender s pf =
     (if mEglDisplay s = EGL_NO_DISPLAY \<or> mEglSurface s = EGL_NO_SURFACE \<or>
         mEglContext s = EGL_NO_CONTEXT then
        (case InitDisplay s pf of
           (False, s1) \<Rightarrow>
             Inr (False, emit [LogE ''NativeEngine: failed to create display.''] s1)
         | (True, s1) \<Rightarrow>
             (case InitSurface s1 pf of
                Inl e \<Rightarrow> Inl e
              | Inr (False, s2) \<Rightarrow>
                  Inr (False, emit [LogE ''NativeEngine: failed to create surface.''] s2)
              | Inr (True, s2) \<Rightarrow>
                  (case InitContext s2 pf of
                     Inl e \<Rightarrow> Inl e
                   | Inr (False, s3) \<Rightarrow>
                       Inr (False,
                            emit [LogE ''NativeEngine: failed to create context.''] s3)
                   | Inr (True, s3) \<Rightarrow>
                       (case bind_and_load s3 pf of
                          Inl e \<Rightarrow> Inl e
                        | Inr s4 \<Rightarrow> Inr (True, s4)))))
      else Inr (True, s))"

text \<open>The OpenGL error codes of \<open>GLES3/gl3.h\<close> and \<open>_log_opengl_error\<close>.\<close>

abbreviation (input) GL_NO_ERROR :: "32 word" where "GL_NO_ERROR \<equiv> 0"
abbreviation (input) MAX_GL_ERRORS :: int where "MAX_GL_ERRORS \<equiv> 200"

definition log_opengl_error :: "32 word \<Rightarrow> effect" where
  "log_opengl_error err =
     (if err = GL_NO_ERROR then LogE ''*** OpenGL error: GL_NO_ERROR''
      else if err = 0x0500 then LogE ''*** OpenGL error: GL_INVALID_ENUM''
      else if err = 0x0501 then LogE ''*** OpenGL error: GL_INVALID_VALUE''
      else if err = 0x0502 then LogE ''*** OpenGL error: GL_INVALID_OPERATION''
      else if err = 0x0506 then LogE ''*** OpenGL error: GL_INVALID_FRAMEBUFFER_OPERATION''
      else if err = 0x0505 then LogE ''*** OpenGL error: GL_OUT_OF_MEMORY''
      else LogE ''*** OpenGL error: error %d'')"

text \<open>
  The loop \<open>while ((e = glGetError()) != GL_NO_ERROR)\<close> that ends \<open>DoFrame\<close>, over the
  answers of the platform; the platform answers \<open>GL_NO_ERROR\<close> once they are used up.
\<close>

fun print_gl_errors :: "NativeEngine \<Rightarrow> 32 word list \<Rightarrow> NativeEngine" where
  "print_gl_errors s [] = emit [GlCall ''glGetError''] s"
| "print_gl_errors s (e # es) =
     (let s1 = emit [GlCall ''glGetError''] s
      in if e = GL_NO_ERROR then s1
         else if errorsPrinted s1 < MAX_GL_ERRORS then
           (let s2 = (emit [log_opengl_error e] s1)\<lparr>errorsPrinted := errorsPrinted s1 + 1\<rparr>;
                s3 = (if errorsPrinted s2 \<ge> MAX_GL_ERRORS then
                        emit [LogE ''*** NativeEngine: TOO MANY OPENGL ERRORS. NO LONGER PRINTING.''] s2
                      else s2)
            in print_gl_errors s3 es)
         else print_gl_errors s1 es)"

text \<open>The part of \<open>DoFrame\<close> after the resize check: draw, present, report GL errors.\<close>

definition render :: "NativeEngine \<Rightarrow> platform \<Rightarrow> NativeEngine" where
  "render s pf =
     (let s1 = (if mIsFirstFrame s then s\<lparr>mIsFirstFrame := False\<rparr> else s);
          s2 = (emit [GlCall ''glClear'', GlCall ''glBufferData'', GlDrawArrays] s1)
                 \<lparr>nn := nn s1 + 1\<rparr>;
          s3 = emit [EglSwapBuffers (mEglDisplay s2) (mEglSurface s2)] s2;
          s4 = (if \<not> eglSwapBuffers_ret pf then
                  snd (HandleEglError (emit [EglGetError, EglGetError] s3)
                         (swap_eglGetError_ret pf))
                else s3)
      in print_gl_errors s4 (glGetError_rets pf))"

text \<open>
  \<open>DoFrame\<close>. \<open>width\<close> and \<open>height\<close> are declared without an initializer and written by
  \<open>eglQuerySurface\<close> only; the comparison reads them.
\<close>

definition DoFrame :: "NativeEngine \<Rightarrow> platform \<Rightarrow> error + NativeEngine" where
  "DoFrame s pf =
     (case PrepareToRender s pf of
        Inl e \<Rightarrow> Inl e
      | Inr (False, s1) \<Rightarrow> Inr s1
      | Inr (True, s1) \<Rightarrow>
          (let s2 = emit [EglQuerySurface (mEglDisplay s1) (mEglSurface s1),
                          EglQuerySurface (mEglDisplay s1) (mEglSurface s1)] s1
           in case eglQuerySurface_width pf of
                None \<Rightarrow> Inl IndeterminateRead
              | Some width \<Rightarrow>
                  (case eglQuerySurface_height pf of
                     None \<Rightarrow> Inl IndeterminateRead
                   | Some height \<Rightarrow>
                       if width \<noteq> mSurfWidth s2 \<or> height \<noteq> mSurfHeight s2 then
                         Inr ((emit [GlViewport 0 0 width height] s2)
                                \<lparr>mSurfWidth := width, mSurfHeight := height\<rparr>)
                       else Inr (render s2 pf))))"

section \<open>Notions used to state the properties\<close>

definition tracked_ids :: "NativeEngine \<Rightarrow> 32 word list" where
  "tracked_ids s = map fst (previous_positions s)"

text \<open>
  What the first switch of \<open>process_input_events\<close> selects for a Down or an Up: the event
  type and \<open>pointerIndex\<close>.
\<close>

definition select_event ::
  "GameActivityMotionEvent \<Rightarrow> (TouchScreenEvent_Type \<times> nat) option" where
  "select_event me =
     (let actionMasked = action me AND AMOTION_EVENT_ACTION_MASK in
      if pointerCount me = 0 then None
      else if actionMasked = AMOTION_EVENT_ACTION_DOWN then Some (Down, 0)
      else if actionMasked = AMOTION_EVENT_ACTION_POINTER_DOWN then
        Some (Down, pointer_index_of (action me))
      else if actionMasked = AMOTION_EVENT_ACTION_UP then Some (Up, 0)
      else if actionMasked = AMOTION_EVENT_ACTION_POINTER_UP then
        Some (Up, pointer_index_of (action me))
      else None)"

definition is_move :: "GameActivityMotionEvent \<Rightarrow> bool" where
  "is_move me =
     (0 < pointerCount me \<and>
      action me AND AMOTION_EVENT_ACTION_MASK = AMOTION_EVENT_ACTION_MOVE)"

text \<open>The normalized position of a pointer: its raw axes divided by the cached surface size.\<close>

definition normalized :: "NativeEngine \<Rightarrow> GameActivityPointerAxes \<Rightarrow> Position" where
  "normalized s p =
     \<lparr>pos_x = fdiv (axis_x p) (float_of_int (mSurfWidth s)),
      pos_y = fdiv (axis_y p) (float_of_int (mSurfHeight s))\<rparr>"

text \<open>The difference of a normalized position and a stored one.\<close>

definition ndelta :: "Position \<Rightarrow> Position \<Rightarrow> Position" where
  "ndelta n pp = \<lparr>pos_x = fsub (pos_x n) (pos_x pp), pos_y = fsub (pos_y n) (pos_y pp)\<rparr>"

text \<open>Type, id and delta of the events that reached the callback, in order.\<close>

fun emitted :: "effect list \<Rightarrow> (TouchScreenEvent_Type \<times> 32 word \<times> Position option) list" where
  "emitted [] = []"
| "emitted (Callback ev # es) = (ev_type ev, ev_id ev, move_ndelta ev) # emitted es"
| "emitted (e # es) = emitted es"

definition emitted_of ::
  "NativeEngine \<Rightarrow> (TouchScreenEvent_Type \<times> 32 word \<times> Position option) list" where
  "emitted_of s = emitted (trace s)"

text \<open>The state after a run of motion events that ends without error.\<close>

definition state_after :: "NativeEngine \<Rightarrow> GameActivityMotionEvent list \<Rightarrow> NativeEngine" where
  "state_after s mes = (case process_input_events s mes of Inr s' \<Rightarrow> s' | Inl e \<Rightarrow> s)"

text \<open>A Down for a pointer whose id has a record already.\<close>

definition redundant_down :: "NativeEngine \<Rightarrow> GameActivityMotionEvent \<Rightarrow> bool" where
  "redundant_down s me =
     (case select_event me of
        Some (Down, k) \<Rightarrow>
          k < GAMEACTIVITY_MAX_NUM_POINTERS_IN_MOTION_EVENT \<and>
          pointer_id (pointers me k) \<in> set (tracked_ids s)
      | _ \<Rightarrow> False)"

text \<open>No event of the run is a Down for an id that is tracked when the event is processed.\<close>

fun no_redundant_down :: "NativeEngine \<Rightarrow> GameActivityMotionEvent list \<Rightarrow> bool" where
  "no_redundant_down s [] = True"
| "no_redundant_down s (me # mes) =
     (\<not> redundant_down s me \<and>
      (case process_motion_event s me of
         Inl e \<Rightarrow> True
       | Inr s' \<Rightarrow> no_redundant_down s' mes))"

text \<open>Some effect with \<open>P\<close> comes earlier in the trace than some effect with \<open>Q\<close>.\<close>

fun occurs_before :: "(effect \<Rightarrow> bool) \<Rightarrow> (effect \<Rightarrow> bool) \<Rightarrow> effect list \<Rightarrow> bool" where
  "occurs_before P Q [] = False"
| "occurs_before P Q (e # es) = ((P e \<and> list_ex Q es) \<or> occurs_before P Q es)"

fun is_up_callback :: "effect \<Rightarrow> bool" where
  "is_up_callback (Callback ev) = (ev_type ev = Up)"
| "is_up_callback e = False"

fun is_remove_if :: "effect \<Rightarrow> bool" where
  "is_remove_if (TrackerRemoveIf i) = True"
| "is_remove_if e = False"

definition emit_then_remove :: "NativeEngine \<Rightarrow> bool" where
  "emit_then_remove s = occurs_before is_up_callback is_remove_if (trace s)"

definition remove_then_emit :: "NativeEngine \<Rightarrow> bool" where
  "remove_then_emit s = occurs_before is_remove_if is_up_callback (trace s)"

text \<open>The effects that a transition from \<open>s\<close> to \<open>s'\<close> added to the trace.\<close>

definition new_effects :: "NativeEngine \<Rightarrow> NativeEngine \<Rightarrow> effect list" where
  "new_effects s s' = drop (length (trace s)) (trace s')"

text \<open>
  The effects of setting up and tearing down the render context: everything but a callback,
  a draw call, a buffer swap and a viewport change.
\<close>

fun quiet :: "effect \<Rightarrow> bool" where
  "quiet (Callback ev) = False"
| "quiet GlDrawArrays = False"
| "quiet (EglSwapBuffers d sf) = False"
| "quiet (GlViewport a b c d) = False"
| "quiet e = True"

text \<open>
  From \<open>s\<close> to \<open>s'\<close> the cached surface size is kept and the trace grows by effects
  that satisfy \<open>Q\<close>.
\<close>

definition grows :: "(effect \<Rightarrow> bool) \<Rightarrow> NativeEngine \<Rightarrow> NativeEngine \<Rightarrow> bool" where
  "grows Q s s' =
     (mSurfWidth s' = mSurfWidth s \<and> mSurfHeight s' = mSurfHeight s \<and>
      (\<exists>new. trace s' = trace s @ new \<and> list_all Q new))"

text \<open>The same, and the tracker is kept too.\<close>

definition extends :: "(effect \<Rightarrow> bool) \<Rightarrow> NativeEngine \<Rightarrow> NativeEngine \<Rightarrow> bool" where
  "extends Q s s' =
     (mSurfWidth s' = mSurfWidth s \<and> mSurfHeight s' = mSurfHeight s \<and>
      previous_positions s' = previous_positions s \<and>
      (\<exists>new. trace s' = trace s @ new \<and> list_all Q new))"

text \<open>The surface and the context are null whenever the display is.\<close>

definition egl_invariant :: "NativeEngine \<Rightarrow> bool" where
  "egl_invariant s =
     (mEglDisplay s = EGL_NO_DISPLAY \<longrightarrow>
        mEglSurface s = EGL_NO_SURFACE \<and> mEglContext s = EGL_NO_CONTEXT)"

definition handles :: "NativeEngine \<Rightarrow> handle \<times> handle \<times> handle" where
  "handles s = (mEglDisplay s, mEglSurface s, mEglContext s)"

text \<open>
  The states that the operations of the engine reach from the state the constructor
  builds, whatever the host and the platform answer. A run that stops with an error
  reaches no state.
\<close>

inductive reachable :: "NativeEngine \<Rightarrow> bool" where
  constructed: "reachable NativeEngine_ctor"
| command: "reachable s \<Longrightarrow> reachable (HandleCommand s window c)"
| input: "reachable s \<Longrightarrow> process_input_events s mes = Inr s' \<Longrightarrow> reachable s'"
| frame: "reachable s \<Longrightarrow> DoFrame s pf = Inr s' \<Longrightarrow> reachable s'"
| prepare: "reachable s \<Longrightarrow> PrepareToRender s pf = Inr (ok, s') \<Longrightarrow> reachable s'"
| init_display: "reachable s \<Longrightarrow> InitDisplay s pf = (ok, s') \<Longrightarrow> reachable s'"
| init_surface: "reachable s \<Longrightarrow> InitSurface s pf = Inr (ok, s') \<Longrightarrow> reachable s'"
| init_context: "reachable s \<Longrightarrow> InitContext s pf = Inr (ok, s') \<Longrightarrow> reachable s'"
| kill_surface: "reachable s \<Longrightarrow> reachable (KillSurface s)"
| kill_context: "reachable s \<Longrightarrow> reachable (KillContext s)"
| kill_display: "reachable s \<Longrightarrow> reachable (KillDisplay s)"
| egl_error: "reachable s \<Longrightarrow> HandleEglError s err = (ok, s') \<Longrightarrow> reachable s'"

text \<open>
  An event of the callback carries the cached surface size \<open>w\<close>, \<open>h\<close> as its range and
  its raw position divided by that size as its normalized position.
\<close>

fun callback_normalized_by :: "int \<Rightarrow> int \<Rightarrow> effect \<Rightarrow> bool" where
  "callback_normalized_by w h (Callback ev) =
     (ev_max ev = \<lparr>pos_x = float_of_int w, pos_y = float_of_int h\<rparr> \<and>
      norm_pos ev = \<lparr>pos_x = fdiv (pos_x (ev_pos ev)) (float_of_int w),
                      pos_y = fdiv (pos_y (ev_pos ev)) (float_of_int h)\<rparr>)"
| "callback_normalized_by w h e = True"

text \<open>
  The commands that the inner loop of \<open>GameLoop\<close> passes to \<open>HandleCommand\<close> before
  \<open>process_input_events\<close> runs, each with the state of \<open>mApp->window\<close>.
\<close>

fun handle_commands :: "NativeEngine \<Rightarrow> (bool \<times> app_cmd) list \<Rightarrow> NativeEngine" where
  "handle_commands s [] = s"
| "handle_commands s ((window, c) # cs) = handle_commands (HandleCommand s window c) cs"

text \<open>The position in the record that \<open>find_if\<close> finds for id \<open>i\<close>.\<close>

definition stored :: "32 word \<Rightarrow> NativeEngine \<Rightarrow> Position option" where
  "stored i s = map_option snd (find (\<lambda>el. fst el = i) (previous_positions s))"

text \<open>The ids of the pointers \<open>k\<close> to \<open>n - 1\<close> of a motion event.\<close>

definition pointer_ids :: "GameActivityMotionEvent \<Rightarrow> nat \<Rightarrow> nat \<Rightarrow> 32 word list" where
  "pointer_ids me k n = map (\<lambda>j. pointer_id (pointers me j)) [k..<n]"

text \<open>
  A motion event that is an Up of the id, and one that removes or rewrites the record of the
  id: an Up of the id, or a Move with a pointer of the id.
\<close>

definition is_up_of :: "32 word \<Rightarrow> GameActivityMotionEvent \<Rightarrow> bool" where
  "is_up_of i me =
     (case select_event me of
        Some (Up, k) \<Rightarrow>
          k < GAMEACTIVITY_MAX_NUM_POINTERS_IN_MOTION_EVENT \<and> pointer_id (pointers me k) = i
      | _ \<Rightarrow> False)"

definition touches :: "32 word \<Rightarrow> GameActivityMotionEvent \<Rightarrow> bool" where
  "touches i me =
     (is_up_of i me \<or> (is_move me \<and> i \<in> set (pointer_ids me 0 (pointerCount me))))"

text \<open>
  What \<open>GameLoop\<close> does, one step at a time: it hands a command to \<open>HandleCommand\<close>,
  \<open>process_input_events\<close> takes the next motion event of the buffer, or \<open>DoFrame\<close> runs.
  A list of steps is any interleaving of them.
\<close>

datatype engine_step = Motion GameActivityMotionEvent | Frame platform | Command bool app_cmd

fun do_step :: "NativeEngine \<Rightarrow> engine_step \<Rightarrow> error + NativeEngine" where
  "do_step s (Motion me) = process_motion_event s me"
| "do_step s (Frame pf) = DoFrame s pf"
| "do_step s (Command window c) = Inr (HandleCommand s window c)"

fun run_steps :: "NativeEngine \<Rightarrow> engine_step list \<Rightarrow> error + NativeEngine" where
  "run_steps s [] = Inr s"
| "run_steps s (a # as) =
     (case do_step s a of Inl e \<Rightarrow> Inl e | Inr s' \<Rightarrow> run_steps s' as)"

text \<open>The state after a run of steps that ends without error.\<close>

definition steps_after :: "NativeEngine \<Rightarrow> engine_step list \<Rightarrow> NativeEngine" where
  "steps_after s as = (case run_steps s as of Inr s' \<Rightarrow> s' | Inl e \<Rightarrow> s)"

fun step_is_up_of :: "32 word \<Rightarrow> engine_step \<Rightarrow> bool" where
  "step_is_up_of i (Motion me) = is_up_of i me"
| "step_is_up_of i a = False"

fun step_touches :: "32 word \<Rightarrow> engine_step \<Rightarrow> bool" where
  "step_touches i (Motion me) = touches i me"
| "step_touches i a = False"

definition no_up :: "32 word \<Rightarrow> engine_step list \<Rightarrow> bool" where
  "no_up i as = list_all (\<lambda>a. \<not> step_is_up_of i a) as"

definition untouched :: "32 word \<Rightarrow> engine_step list \<Rightarrow> bool" where
  "untouched i as = list_all (\<lambda>a. \<not> step_touches i a) as"

text \<open>
  The Move loop as \<open>move_loop\<close>, returning the content of \<open>ev.move_ndelta\<close> too; and the
  state of the engine when the loop over the pointers of \<open>mv\<close>, started in \<open>t\<close>, reaches
  pointer \<open>k\<close>.
\<close>

fun move_steps ::
  "NativeEngine \<Rightarrow> GameActivityMotionEvent \<Rightarrow> Position option \<Rightarrow> nat list
     \<Rightarrow> error + (NativeEngine \<times> Position option)" where
  "move_steps s me nd [] = Inr (s, nd)"
| "move_steps s me nd (i # is) =
     (case cook_move s me nd i of
        Inl e \<Rightarrow> Inl e
      | Inr (s', nd') \<Rightarrow> move_steps s' me nd' is)"

definition loop_state :: "NativeEngine \<Rightarrow> GameActivityMotionEvent \<Rightarrow> nat \<Rightarrow> NativeEngine" where
  "loop_state t mv k =
     (case move_steps t mv None [0..<k] of Inr (u, nd) \<Rightarrow> u | Inl e \<Rightarrow> t)"

text \<open>
  Going from \<open>t\<close> to \<open>t'\<close>, the callback received the Move event of pointer \<open>k\<close> of
  \<open>mv\<close> with the delta of its normalized position against \<open>pp\<close>.
\<close>

definition reported_against ::
  "NativeEngine \<Rightarrow> NativeEngine \<Rightarrow> GameActivityMotionEvent \<Rightarrow> nat \<Rightarrow> Position \<Rightarrow> bool" where
  "reported_against t t' mv k pp =
     (Callback (cooked t mv Move k (Some (ndelta (normalized t (pointers mv k)) pp)))
        \<in> set (new_effects t t'))"


section \<open>Example inputs\<close>

text \<open>An engine whose cached surface size is 100 by 200, with an empty tracker.\<close>

definition surface_100x200 :: NativeEngine where
  "surface_100x200 = NativeEngine_ctor\<lparr>mSurfWidth := 100, mSurfHeight := 200\<rparr>"

definition pointer :: "32 word \<Rightarrow> rat \<Rightarrow> rat \<Rightarrow> GameActivityPointerAxes" where
  "pointer i a b = \<lparr>pointer_id = i, axis_x = Finite a, axis_y = Finite b\<rparr>"

text \<open>A motion event with the given action and pointers; the rest of the array is zero.\<close>

definition motion :: "32 word \<Rightarrow> GameActivityPointerAxes list \<Rightarrow> GameActivityMotionEvent" where
  "motion a ps =
     \<lparr>action = a, pointerCount = length ps,
      pointers = (\<lambda>i. if i < length ps then ps ! i else pointer 0 0 0)\<rparr>"

text \<open>
  A finger goes down at (10,20); the gesture is cancelled (action 3,
  \<open>AMOTION_EVENT_ACTION_CANCEL\<close>, which the switch does not name); a finger goes down
  again at (50,60), moves to (70,80) and goes up. The platform numbers the first finger
  of a gesture 0.
\<close>

definition touch_down_a :: GameActivityMotionEvent where
  "touch_down_a = motion AMOTION_EVENT_ACTION_DOWN [pointer 0 10 20]"

definition touch_cancel :: GameActivityMotionEvent where
  "touch_cancel = motion 3 [pointer 0 10 20]"

definition touch_down_b :: GameActivityMotionEvent where
  "touch_down_b = motion AMOTION_EVENT_ACTION_DOWN [pointer 0 50 60]"

definition touch_move_c :: GameActivityMotionEvent where
  "touch_move_c = motion AMOTION_EVENT_ACTION_MOVE [pointer 0 70 80]"

definition touch_up :: GameActivityMotionEvent where
  "touch_up = motion AMOTION_EVENT_ACTION_UP [pointer 0 70 80]"

text \<open>A Move of two fingers, with ids 0 and 1.\<close>

definition touch_move_two :: GameActivityMotionEvent where
  "touch_move_two = motion AMOTION_EVENT_ACTION_MOVE [pointer 0 30 40, pointer 1 50 60]"

text \<open>A second finger, with id 1, goes down at (50,50) while finger 0 rests at (10,20).\<close>

definition touch_pointer_down_1 :: GameActivityMotionEvent where
  "touch_pointer_down_1 = motion 0x0105 [pointer 0 10 20, pointer 1 50 50]"


text \<open>
  A platform on which every call succeeds: display 1, surface 2, context 3, a surface of
  100 by 200, no GL error.
\<close>

definition platform_ok :: platform where
  "platform_ok =
     \<lparr> eglGetDisplay_ret = 1, eglInitialize_ret = True, eglChooseConfig_out = Some 4,
       eglCreateWindowSurface_ret = 2, eglCreateContext_ret = 3, eglMakeCurrent_ret = True,
       eglGetError_ret = EGL_SUCCESS, vs_compile_status = True, vs_malloc_ok = True,
       fs_compile_status = True, fs_malloc_ok = True,
       eglQuerySurface_width = Some 100, eglQuerySurface_height = Some 200,
       eglSwapBuffers_ret = True, swap_eglGetError_ret = EGL_SUCCESS,
       glGetError_rets = [] \<rparr>"

text \<open>The state after a \<open>DoFrame\<close> that ends without error.\<close>

definition frame_after :: "NativeEngine \<Rightarrow> platform \<Rightarrow> NativeEngine" where
  "frame_after s pf = (case DoFrame s pf of Inr s' \<Rightarrow> s' | Inl e \<Rightarrow> s)"


section \<open>Touch tracker: lemmas\<close>

lemmas run_defs = process_motion_event_def cook_event_def cooked_def cook_move_def
  callback_touch_screen_event_def emit_def pointer_index_of_def float_of_int_def
  motion_def pointer_def surface_100x200_def NativeEngine_ctor_def Let_def

lemmas touch_defs = touch_down_a_def touch_cancel_def touch_down_b_def touch_move_c_def
  touch_up_def touch_move_two_def

lemmas eval_defs = run_defs touch_defs state_after_def tracked_ids_def emitted_of_def
  select_event_def is_move_def normalized_def ndelta_def
  redundant_down_def emit_then_remove_def remove_then_emit_def upt_rec

lemma trace_emit [simp]: "trace (emit es s) = trace s @ es"
  by (simp add: emit_def)

lemma emit_fields [simp]:
  "previous_positions (emit es s) = previous_positions s"
  "mSurfWidth (emit es s) = mSurfWidth s"
  "mSurfHeight (emit es s) = mSurfHeight s"
  "mEglDisplay (emit es s) = mEglDisplay s"
  "mEglSurface (emit es s) = mEglSurface s"
  "mEglContext (emit es s) = mEglContext s"
  by (simp_all add: emit_def)

lemma callback_Inr:
  assumes "callback_touch_screen_event s ev = Inr s'"
  shows "trace s' = trace s @ [Callback ev]"
    and "previous_positions s' = previous_positions s"
    and "mSurfWidth s' = mSurfWidth s" and "mSurfHeight s' = mSurfHeight s"
    and "mEglDisplay s' = mEglDisplay s" and "mEglSurface s' = mEglSurface s"
    and "mEglContext s' = mEglContext s"
  using assms
  by (auto simp: callback_touch_screen_event_def split: TouchScreenEvent_Type.splits option.splits)

lemma select_event_process:
  "select_event me = Some (ty, k) \<Longrightarrow> process_motion_event s me = cook_event s me ty k"
  by (auto simp: select_event_def process_motion_event_def Let_def split: if_splits)

lemma is_move_process:
  "is_move me \<Longrightarrow> process_motion_event s me = move_loop s me None [0..<pointerCount me]"
  by (auto simp: is_move_def process_motion_event_def Let_def)

lemma find_update_first_same:
  "find (\<lambda>el. fst el = i) t = Some el \<Longrightarrow>
   find (\<lambda>el. fst el = i) (update_first i p t) = Some (i, p)"
  by (induction t) (auto split: if_splits)

lemma find_update_first_other:
  "j \<noteq> i \<Longrightarrow> find (\<lambda>el. fst el = j) (update_first i p t) = find (\<lambda>el. fst el = j) t"
  by (induction t) auto

lemma map_fst_update_first [simp]: "map fst (update_first i p t) = map fst t"
  by (induction t) auto

lemma cooked_simps [simp]:
  "ev_id (cooked s me ty i nd) = pointer_id (pointers me i)"
  "ev_type (cooked s me ty i nd) = ty"
  "move_ndelta (cooked s me ty i nd) = nd"
  by (simp_all add: cooked_def Let_def)

lemma cooked_dims:
  "mSurfWidth s' = mSurfWidth s \<Longrightarrow> mSurfHeight s' = mSurfHeight s \<Longrightarrow>
   cooked s' me ty i nd = cooked s me ty i nd"
  by (simp add: cooked_def)

lemma cook_move_tracked:
  assumes "cook_move s me nd i = Inr (s', nd')"
    and "find (\<lambda>el. fst el = pointer_id (pointers me i)) (previous_positions s) = Some el"
  shows "trace s' = trace s @
           [Callback ((cooked s me Move i nd)
              \<lparr>move_ndelta := Some (ndelta (norm_pos (cooked s me Move i nd)) (snd el))\<rparr>)]"
    and "previous_positions s' =
           update_first (pointer_id (pointers me i)) (norm_pos (cooked s me Move i nd))
             (previous_positions s)"
    and "nd' = Some (ndelta (norm_pos (cooked s me Move i nd)) (snd el))"
  using assms
  by (auto simp: cook_move_def Let_def ndelta_def map_sum_def
           split: if_splits sum.splits dest: callback_Inr)

lemma cook_move_untracked:
  assumes "cook_move s me nd i = Inr (s', nd')"
    and "find (\<lambda>el. fst el = pointer_id (pointers me i)) (previous_positions s) = None"
  shows "trace s' = trace s @ [LogE ''baaaaaaaaaaaaaaaaad'', Callback (cooked s me Move i nd)]"
    and "previous_positions s' = previous_positions s"
    and "nd' = nd"
  using assms
  by (auto simp: cook_move_def Let_def map_sum_def
           split: if_splits sum.splits dest: callback_Inr)

lemma cook_move_frame:
  assumes "cook_move s me nd i = Inr (s', nd')"
  shows "mSurfWidth s' = mSurfWidth s" and "mSurfHeight s' = mSurfHeight s"
    and "tracked_ids s' = tracked_ids s"
    and "\<exists>new. trace s' = trace s @ new"
    and "j \<noteq> pointer_id (pointers me i) \<Longrightarrow>
         find (\<lambda>el. fst el = j) (previous_positions s') =
         find (\<lambda>el. fst el = j) (previous_positions s)"
  using assms
  by (auto simp: cook_move_def Let_def map_sum_def tracked_ids_def find_update_first_other
           split: if_splits sum.splits option.splits dest: callback_Inr)

lemma move_loop_frame:
  assumes "move_loop s me nd is = Inr s'"
  shows "mSurfWidth s' = mSurfWidth s \<and> mSurfHeight s' = mSurfHeight s \<and>
         tracked_ids s' = tracked_ids s \<and> (\<exists>new. trace s' = trace s @ new)"
  using assms
proof (induction "is" arbitrary: s nd)
  case Nil
  then show ?case by simp
next
  case (Cons i "is")
  from Cons.prems obtain s1 nd1 where
    step: "cook_move s me nd i = Inr (s1, nd1)" and rest: "move_loop s1 me nd1 is = Inr s'"
    by (auto split: sum.splits)
  from Cons.IH [OF rest] cook_move_frame(1-4) [OF step]
  show ?case by auto
qed

lemma move_loop_find_other:
  assumes "move_loop s me nd is = Inr s'"
    and "j \<notin> (\<lambda>i. pointer_id (pointers me i)) ` set is"
  shows "find (\<lambda>el. fst el = j) (previous_positions s') =
         find (\<lambda>el. fst el = j) (previous_positions s)"
  using assms
proof (induction "is" arbitrary: s nd)
  case Nil
  then show ?case by simp
next
  case (Cons i "is")
  from Cons.prems obtain s1 nd1 where
    step: "cook_move s me nd i = Inr (s1, nd1)" and rest: "move_loop s1 me nd1 is = Inr s'"
    by (auto split: sum.splits)
  from Cons.prems(2) have ne: "j \<noteq> pointer_id (pointers me i)"
    and notin: "j \<notin> (\<lambda>i. pointer_id (pointers me i)) ` set is" by auto
  from Cons.IH [OF rest notin] cook_move_frame(5) [OF step ne]
  show ?case by simp
qed


lemma norm_pos_cooked [simp]:
  "norm_pos (cooked s me ty i nd) = normalized s (pointers me i)"
  by (simp add: cooked_def normalized_def Let_def)

lemma cooked_update_ndelta [simp]:
  "(cooked s me ty i nd)\<lparr>move_ndelta := x\<rparr> = cooked s me ty i x"
  by (simp add: cooked_def Let_def)

lemma normalized_dims:
  "mSurfWidth s' = mSurfWidth s \<Longrightarrow> mSurfHeight s' = mSurfHeight s \<Longrightarrow>
   normalized s' p = normalized s p"
  by (simp add: normalized_def)

lemma cook_event_Down:
  assumes "cook_event s me Down k = Inr s'" and "k \<noteq> GAMEACTIVITY_MAX_NUM_POINTERS_IN_MOTION_EVENT"
  shows "previous_positions s' =
           previous_positions s @ [(pointer_id (pointers me k), normalized s (pointers me k))]"
    and "trace s' = trace s @
           [TrackerPushBack (pointer_id (pointers me k)) (normalized s (pointers me k)),
            Callback (cooked s me Down k None)]"
    and "mSurfWidth s' = mSurfWidth s" and "mSurfHeight s' = mSurfHeight s"
  using assms
  by (auto simp: cook_event_def Let_def split: if_splits dest: callback_Inr)

lemma list_ex_fst: "list_ex (\<lambda>el. fst el = i) t = (i \<in> set (map fst t))"
  by (induction t) auto

lemma cook_event_Up:
  assumes "cook_event s me Up k = Inr s'" and "k \<noteq> GAMEACTIVITY_MAX_NUM_POINTERS_IN_MOTION_EVENT"
  shows "previous_positions s' =
           filter (\<lambda>el. fst el \<noteq> pointer_id (pointers me k)) (previous_positions s)"
    and "trace s' = trace s @
           TrackerRemoveIf (pointer_id (pointers me k)) #
           (if pointer_id (pointers me k) \<in> set (tracked_ids s) then []
            else [LogE ''noooooooooooooo'']) @
           [Callback (cooked s me Up k None)]"
    and "mSurfWidth s' = mSurfWidth s" and "mSurfHeight s' = mSurfHeight s"
  using assms
  by (auto simp: cook_event_def Let_def tracked_ids_def list_ex_fst
           split: if_splits dest: callback_Inr)

lemma cook_event_skip:
  "cook_event s me ty GAMEACTIVITY_MAX_NUM_POINTERS_IN_MOTION_EVENT = Inr s"
  by (simp add: cook_event_def)

lemma find_append_fresh:
  "i \<notin> fst ` set t \<Longrightarrow> find (\<lambda>el. fst el = i) (t @ [(i, p)]) = Some (i, p)"
  by (induction t) auto


lemma process_motion_event_cases:
  "process_motion_event s me =
     (case select_event me of
        Some (ty, k) \<Rightarrow> cook_event s me ty k
      | None \<Rightarrow> if is_move me then move_loop s me None [0..<pointerCount me] else Inr s)"
  by (auto simp: select_event_def is_move_def process_motion_event_def Let_def)

lemma cook_event_lt:
  "cook_event s me ty k = Inr s' \<Longrightarrow> k \<le> GAMEACTIVITY_MAX_NUM_POINTERS_IN_MOTION_EVENT"
  by (auto simp: cook_event_def split: if_splits)

lemma cook_event_Move:
  "cook_event s me Move k = Inr s' \<Longrightarrow> previous_positions s' = previous_positions s"
  by (auto simp: cook_event_def Let_def split: if_splits dest: callback_Inr)

lemma process_motion_event_distinct:
  assumes "process_motion_event s me = Inr s'" and "distinct (tracked_ids s)"
    and "\<not> redundant_down s me"
  shows "distinct (tracked_ids s')"
proof (cases "select_event me")
  case None
  with assms(1) have "is_move me \<Longrightarrow> move_loop s me None [0..<pointerCount me] = Inr s'"
    and "\<not> is_move me \<Longrightarrow> s' = s"
    by (simp_all add: process_motion_event_cases)
  with assms(2) show ?thesis
    by (cases "is_move me") (auto dest: move_loop_frame)
next
  case (Some a)
  obtain ty k where a: "a = (ty, k)" by (cases a)
  with Some assms(1) have run: "cook_event s me ty k = Inr s'"
    by (simp add: process_motion_event_cases)
  show ?thesis
  proof (cases "k = GAMEACTIVITY_MAX_NUM_POINTERS_IN_MOTION_EVENT")
    case True
    with run assms(2) show ?thesis by (simp add: cook_event_skip)
  next
    case False
    with cook_event_lt [OF run] have lt: "k < GAMEACTIVITY_MAX_NUM_POINTERS_IN_MOTION_EVENT"
      by simp
    show ?thesis
    proof (cases ty)
      case Up
      with run False assms(2) show ?thesis
        by (simp add: tracked_ids_def cook_event_Up(1) distinct_map_filter)
    next
      case Down
      with Some a lt assms(3) have "pointer_id (pointers me k) \<notin> set (tracked_ids s)"
        by (simp add: redundant_down_def)
      with Down run False assms(2) show ?thesis
        by (simp add: tracked_ids_def cook_event_Down(1))
    next
      case Move
      with run assms(2) show ?thesis
        by (simp add: tracked_ids_def cook_event_Move)
    qed
  qed
qed

lemma process_input_events_distinct:
  assumes "distinct (tracked_ids s)" and "no_redundant_down s mes"
    and "process_input_events s (take n mes) = Inr s'"
  shows "distinct (tracked_ids s')"
  using assms
proof (induction mes arbitrary: s n)
  case Nil
  then show ?case by simp
next
  case (Cons me mes)
  show ?case
  proof (cases n)
    case 0
    with Cons.prems show ?thesis by simp
  next
    case (Suc m)
    with Cons.prems(3) obtain s1 where
      step: "process_motion_event s me = Inr s1"
      and rest: "process_input_events s1 (take m mes) = Inr s'"
      by (auto split: sum.splits)
    from Cons.prems(2) step have nr: "\<not> redundant_down s me" and nrs: "no_redundant_down s1 mes"
      by simp_all
    from process_motion_event_distinct [OF step Cons.prems(1) nr]
    have "distinct (tracked_ids s1)" .
    from Cons.IH [OF this nrs rest] show ?thesis .
  qed
qed

lemma length_filter_distinct:
  "distinct (map fst t) \<Longrightarrow> length t \<le> Suc (length (filter (\<lambda>el. fst el \<noteq> i) t))"
proof (induction t)
  case Nil
  then show ?case by simp
next
  case (Cons el t)
  show ?case
  proof (cases "fst el = i")
    case True
    with Cons.prems have "i \<notin> fst ` set t" by auto
    then have "filter (\<lambda>el. fst el \<noteq> i) t = t" by (auto simp: filter_id_conv)
    with True show ?thesis by simp
  next
    case False
    with Cons show ?thesis by simp
  qed
qed

lemma filter_untracked:
  "i \<notin> set (map fst t) \<Longrightarrow> filter (\<lambda>el. fst el \<noteq> i) t = t"
  by (auto simp: filter_id_conv)


lemma down_stores:
  assumes "select_event dn = Some (Down, kd)"
    and "kd \<noteq> GAMEACTIVITY_MAX_NUM_POINTERS_IN_MOTION_EVENT"
    and "pointer_id (pointers dn kd) \<notin> set (tracked_ids s)"
    and "process_motion_event s dn = Inr t"
  shows "find (\<lambda>el. fst el = pointer_id (pointers dn kd)) (previous_positions t) =
           Some (pointer_id (pointers dn kd), normalized s (pointers dn kd))"
proof -
  from assms(1,4) have "cook_event s dn Down kd = Inr t"
    by (simp add: select_event_process)
  from cook_event_Down(1) [OF this assms(2)] assms(3)
  show ?thesis by (simp add: tracked_ids_def find_append_fresh)
qed

section \<open>Render context and frame: lemmas\<close>

lemmas frame_only_defs = DoFrame_def PrepareToRender_def InitDisplay_def InitSurface_def
  InitContext_def MY_ASSERT_def bind_and_load_def ConfigureOpenGL_def load_vertex_shader_def
  load_frag_shader_def load_shader_common_def load_program_def setup_vertex_buffer_def
  render_def HandleEglError_def KillSurface_def KillContext_def KillDisplay_def
  KillGLObjects_def platform_ok_def frame_after_def new_effects_def

lemmas frame_defs = frame_only_defs emit_def NativeEngine_ctor_def Let_def

lemma extends_refl [simp]: "extends Q s s"
  by (simp add: extends_def)

lemma extends_trans: "extends Q s s1 \<Longrightarrow> extends Q s1 s2 \<Longrightarrow> extends Q s s2"
  by (auto simp: extends_def)

lemma extends_new_effects:
  "extends Q s s' \<Longrightarrow> list_all Q (new_effects s s')"
  by (auto simp: extends_def new_effects_def)

lemma new_effects_trans:
  "extends Q s s1 \<Longrightarrow> extends R s1 s2 \<Longrightarrow> new_effects s s2 = new_effects s s1 @ new_effects s1 s2"
  by (auto simp: extends_def new_effects_def)

lemma KillSurface_extends: "extends quiet s (KillSurface s)"
  by (simp add: extends_def KillSurface_def emit_def Let_def)

lemma KillGLObjects_extends: "extends quiet s (KillGLObjects s)"
  by (simp add: extends_def KillGLObjects_def)

lemma KillContext_extends: "extends quiet s (KillContext s)"
  by (simp add: extends_def KillContext_def KillGLObjects_def emit_def Let_def)

lemma KillDisplay_extends: "extends quiet s (KillDisplay s)"
  by (simp add: extends_def KillDisplay_def KillSurface_def KillContext_def KillGLObjects_def
        emit_def Let_def)

lemma HandleEglError_extends: "extends quiet s (snd (HandleEglError s err))"
  by (simp add: HandleEglError_def KillSurface_extends KillContext_extends KillDisplay_extends)

lemma HandleCommand_extends: "extends quiet s (HandleCommand s w c)"
  by (cases c) (simp_all add: extends_def KillSurface_def KillGLObjects_def emit_def Let_def)

lemma InitDisplay_extends: "extends quiet s (snd (InitDisplay s pf))"
  by (simp add: extends_def InitDisplay_def emit_def Let_def)

lemma InitSurface_extends: "InitSurface s pf = Inr (ok, s') \<Longrightarrow> extends quiet s s'"
  by (auto simp: extends_def InitSurface_def MY_ASSERT_def emit_def Let_def
           split: if_splits option.splits)

lemma InitContext_extends: "InitContext s pf = Inr (ok, s') \<Longrightarrow> extends quiet s s'"
  by (auto simp: extends_def InitContext_def MY_ASSERT_def emit_def Let_def
           split: if_splits)

lemma emit_extends: "list_all Q es \<Longrightarrow> extends Q s (emit es s)"
  by (simp add: extends_def emit_def)

lemma extends_emit_after:
  "extends Q s s1 \<Longrightarrow> list_all Q es \<Longrightarrow> extends Q s (emit es s1)"
  by (auto simp: extends_def emit_def)

lemma load_vertex_shader_extends: "load_vertex_shader s pf = Inr s' \<Longrightarrow> extends quiet s s'"
  by (auto simp: extends_def load_vertex_shader_def load_shader_common_def MY_ASSERT_def
           emit_def Let_def split: if_splits)

lemma load_frag_shader_extends: "load_frag_shader s pf = Inr s' \<Longrightarrow> extends quiet s s'"
  by (auto simp: extends_def load_frag_shader_def load_shader_common_def MY_ASSERT_def
           emit_def Let_def split: if_splits)

lemma bind_and_load_extends:
  assumes "bind_and_load s pf = Inr s'"
  shows "extends quiet s s'"
proof -
  let ?s1 = "emit [EglMakeCurrent (mEglDisplay s) (mEglSurface s) (mEglSurface s)
                       (mEglContext s)] s"
  let ?s2 = "if \<not> eglMakeCurrent_ret pf then
                  snd (HandleEglError
                         (emit [EglGetError,
                                LogE ''NativeEngine: eglMakeCurrent failed, EGL error %d'',
                                EglGetError] ?s1)
                         (eglGetError_ret pf))
                else ?s1"
  from assms obtain s3 s4 where
    v: "load_vertex_shader (ConfigureOpenGL ?s2) pf = Inr s3"
    and f: "load_frag_shader s3 pf = Inr s4"
    and r: "s' = setup_vertex_buffer (load_program s4)"
    unfolding bind_and_load_def Let_def by (auto split: sum.splits)
  have e1: "extends quiet s ?s1" by (simp add: emit_extends)
  have e2: "extends quiet ?s1 ?s2"
    by (auto intro!: extends_trans [OF emit_extends HandleEglError_extends])
  have e3: "extends quiet ?s2 (ConfigureOpenGL ?s2)"
    unfolding ConfigureOpenGL_def by (rule emit_extends) simp
  have e4: "extends quiet s4 s'"
    by (simp add: r setup_vertex_buffer_def load_program_def extends_def emit_def)
  from e1 e2 e3 load_vertex_shader_extends [OF v] load_frag_shader_extends [OF f] e4
  show ?thesis by (blast intro: extends_trans)
qed

lemma PrepareToRender_extends:
  assumes "PrepareToRender s pf = Inr (ok, s')"
  shows "extends quiet s s'"
proof (cases "mEglDisplay s = EGL_NO_DISPLAY \<or> mEglSurface s = EGL_NO_SURFACE \<or>
         mEglContext s = EGL_NO_CONTEXT")
  case False
  with assms show ?thesis by (auto simp: PrepareToRender_def)
next
  case True
  obtain ok1 s1 where d: "InitDisplay s pf = (ok1, s1)" by (cases "InitDisplay s pf")
  from InitDisplay_extends [of s pf] d have e1: "extends quiet s s1" by simp
  show ?thesis
  proof (cases ok1)
    case False
    with assms True d have "s' = emit [LogE ''NativeEngine: failed to create display.''] s1"
      by (auto simp: PrepareToRender_def)
    with e1 show ?thesis by (simp add: extends_emit_after)
  next
    case ok1: True
    from assms True d ok1 obtain ok2 s2 where sf: "InitSurface s1 pf = Inr (ok2, s2)"
      by (auto simp: PrepareToRender_def split: sum.splits)
    note e2 = InitSurface_extends [OF sf]
    show ?thesis
    proof (cases ok2)
      case False
      with assms True d ok1 sf
      have "s' = emit [LogE ''NativeEngine: failed to create surface.''] s2"
        by (auto simp: PrepareToRender_def)
      with extends_trans [OF e1 e2] show ?thesis by (simp add: extends_emit_after)
    next
      case ok2: True
      from assms True d ok1 sf ok2 obtain ok3 s3 where c: "InitContext s2 pf = Inr (ok3, s3)"
        by (auto simp: PrepareToRender_def split: sum.splits)
      note e3 = InitContext_extends [OF c]
      show ?thesis
      proof (cases ok3)
        case False
        with assms True d ok1 sf ok2 c
        have "s' = emit [LogE ''NativeEngine: failed to create context.''] s3"
          by (auto simp: PrepareToRender_def)
        with extends_trans [OF extends_trans [OF e1 e2] e3] show ?thesis
          by (simp add: extends_emit_after)
      next
        case ok3: True
        with assms True d ok1 sf ok2 c have "bind_and_load s3 pf = Inr s'"
          by (auto simp: PrepareToRender_def split: sum.splits)
        from bind_and_load_extends [OF this] e1 e2 e3 show ?thesis
          by (blast intro: extends_trans)
      qed
    qed
  qed
qed

lemma egl_invariant_handles:
  "handles s' = handles s \<Longrightarrow> egl_invariant s' = egl_invariant s"
  by (simp add: handles_def egl_invariant_def)

lemma handles_emit [simp]: "handles (emit es s) = handles s"
  by (simp add: handles_def emit_def)

lemma egl_invariant_emit [simp]: "egl_invariant (emit es s) = egl_invariant s"
  by (simp add: egl_invariant_def emit_def)

lemma KillSurface_inv: "egl_invariant s \<Longrightarrow> egl_invariant (KillSurface s)"
  by (simp add: egl_invariant_def KillSurface_def emit_def Let_def)

lemma KillContext_inv: "egl_invariant s \<Longrightarrow> egl_invariant (KillContext s)"
  by (simp add: egl_invariant_def KillContext_def KillGLObjects_def emit_def Let_def)

lemma KillDisplay_inv: "egl_invariant (KillDisplay s)"
  by (simp add: egl_invariant_def KillDisplay_def KillSurface_def KillContext_def
        KillGLObjects_def emit_def Let_def)

lemma HandleEglError_inv: "egl_invariant s \<Longrightarrow> egl_invariant (snd (HandleEglError s err))"
  by (simp add: HandleEglError_def KillSurface_inv KillContext_inv KillDisplay_inv)

lemma HandleCommand_inv: "egl_invariant s \<Longrightarrow> egl_invariant (HandleCommand s w c)"
  by (cases c)
     (simp_all add: egl_invariant_def KillSurface_def KillGLObjects_def emit_def Let_def)

lemma InitDisplay_inv: "egl_invariant s \<Longrightarrow> egl_invariant (snd (InitDisplay s pf))"
  by (simp add: egl_invariant_def InitDisplay_def emit_def Let_def)

lemma InitSurface_inv: "InitSurface s pf = Inr (ok, s') \<Longrightarrow> egl_invariant s'"
  by (auto simp: egl_invariant_def InitSurface_def MY_ASSERT_def emit_def Let_def
           split: if_splits)

lemma InitContext_inv: "InitContext s pf = Inr (ok, s') \<Longrightarrow> egl_invariant s'"
  by (auto simp: egl_invariant_def InitContext_def MY_ASSERT_def emit_def Let_def
           split: if_splits)

lemma load_vertex_shader_handles: "load_vertex_shader s pf = Inr s' \<Longrightarrow> handles s' = handles s"
  by (auto simp: handles_def load_vertex_shader_def load_shader_common_def MY_ASSERT_def
           emit_def Let_def split: if_splits)

lemma load_frag_shader_handles: "load_frag_shader s pf = Inr s' \<Longrightarrow> handles s' = handles s"
  by (auto simp: handles_def load_frag_shader_def load_shader_common_def MY_ASSERT_def
           emit_def Let_def split: if_splits)

lemma bind_and_load_inv:
  assumes "bind_and_load s pf = Inr s'" and "egl_invariant s"
  shows "egl_invariant s'"
proof -
  let ?s1 = "emit [EglMakeCurrent (mEglDisplay s) (mEglSurface s) (mEglSurface s)
                       (mEglContext s)] s"
  let ?s2 = "if \<not> eglMakeCurrent_ret pf then
                  snd (HandleEglError
                         (emit [EglGetError,
                                LogE ''NativeEngine: eglMakeCurrent failed, EGL error %d'',
                                EglGetError] ?s1)
                         (eglGetError_ret pf))
                else ?s1"
  from assms(1) obtain s3 s4 where
    v: "load_vertex_shader (ConfigureOpenGL ?s2) pf = Inr s3"
    and f: "load_frag_shader s3 pf = Inr s4"
    and r: "s' = setup_vertex_buffer (load_program s4)"
    unfolding bind_and_load_def Let_def by (auto split: sum.splits)
  from assms(2) have i1: "egl_invariant ?s1" by simp
  then have "egl_invariant (emit [EglGetError,
       LogE ''NativeEngine: eglMakeCurrent failed, EGL error %d'', EglGetError] ?s1)"
    by (simp only: egl_invariant_emit)
  from HandleEglError_inv [OF this, of "eglGetError_ret pf"] i1
  have i2: "egl_invariant ?s2" by (simp only: if_split) blast
  have "handles s3 = handles ?s2"
    using load_vertex_shader_handles [OF v] by (simp add: ConfigureOpenGL_def)
  moreover have "handles s' = handles s3"
    using load_frag_shader_handles [OF f]
    by (simp add: r setup_vertex_buffer_def load_program_def)
  ultimately have "handles s' = handles ?s2" by simp
  from egl_invariant_handles [OF this] i2 show ?thesis by (simp only:)
qed

lemma PrepareToRender_inv:
  assumes "PrepareToRender s pf = Inr (ok, s')" and "egl_invariant s"
  shows "egl_invariant s'"
proof (cases "mEglDisplay s = EGL_NO_DISPLAY \<or> mEglSurface s = EGL_NO_SURFACE \<or>
         mEglContext s = EGL_NO_CONTEXT")
  case False
  with assms show ?thesis by (auto simp: PrepareToRender_def)
next
  case True
  obtain ok1 s1 where d: "InitDisplay s pf = (ok1, s1)" by (cases "InitDisplay s pf")
  from InitDisplay_inv [OF assms(2), of pf] d have i1: "egl_invariant s1" by simp
  show ?thesis
  proof (cases ok1)
    case False
    with assms True d have "s' = emit [LogE ''NativeEngine: failed to create display.''] s1"
      by (auto simp: PrepareToRender_def)
    with i1 show ?thesis by simp
  next
    case ok1: True
    from assms True d ok1 obtain ok2 s2 where sf: "InitSurface s1 pf = Inr (ok2, s2)"
      by (auto simp: PrepareToRender_def split: sum.splits)
    note i2 = InitSurface_inv [OF sf]
    show ?thesis
    proof (cases ok2)
      case False
      with assms True d ok1 sf
      have "s' = emit [LogE ''NativeEngine: failed to create surface.''] s2"
        by (auto simp: PrepareToRender_def)
      with i2 show ?thesis by simp
    next
      case ok2: True
      from assms True d ok1 sf ok2 obtain ok3 s3 where c: "InitContext s2 pf = Inr (ok3, s3)"
        by (auto simp: PrepareToRender_def split: sum.splits)
      note i3 = InitContext_inv [OF c]
      show ?thesis
      proof (cases ok3)
        case False
        with assms True d ok1 sf ok2 c
        have "s' = emit [LogE ''NativeEngine: failed to create context.''] s3"
          by (auto simp: PrepareToRender_def)
        with i3 show ?thesis by simp
      next
        case ok3: True
        with assms True d ok1 sf ok2 c have "bind_and_load s3 pf = Inr s'"
          by (auto simp: PrepareToRender_def split: sum.splits)
        from bind_and_load_inv [OF this i3] show ?thesis .
      qed
    qed
  qed
qed

lemma print_gl_errors_frame:
  "handles (print_gl_errors s es) = handles s \<and>
   mSurfWidth (print_gl_errors s es) = mSurfWidth s \<and>
   mSurfHeight (print_gl_errors s es) = mSurfHeight s"
  by (induction s es rule: print_gl_errors.induct)
     (simp_all add: Let_def handles_def emit_def)

lemma render_inv: "egl_invariant s \<Longrightarrow> egl_invariant (render s pf)"
proof -
  assume inv: "egl_invariant s"
  let ?s1 = "if mIsFirstFrame s then s\<lparr>mIsFirstFrame := False\<rparr> else s"
  let ?s2 = "(emit [GlCall ''glClear'', GlCall ''glBufferData'', GlDrawArrays] ?s1)
                 \<lparr>nn := nn ?s1 + 1\<rparr>"
  let ?s3 = "emit [EglSwapBuffers (mEglDisplay ?s2) (mEglSurface ?s2)] ?s2"
  let ?s4 = "if \<not> eglSwapBuffers_ret pf then
                  snd (HandleEglError (emit [EglGetError, EglGetError] ?s3)
                         (swap_eglGetError_ret pf))
                else ?s3"
  have "handles ?s3 = handles s" by (simp add: handles_def emit_def)
  from egl_invariant_handles [OF this] inv have i3: "egl_invariant ?s3" by (simp only:)
  then have "egl_invariant (emit [EglGetError, EglGetError] ?s3)"
    by (simp only: egl_invariant_emit)
  from HandleEglError_inv [OF this, of "swap_eglGetError_ret pf"] i3
  have i4: "egl_invariant ?s4" by (simp only: if_split) blast
  have r: "render s pf = print_gl_errors ?s4 (glGetError_rets pf)"
    unfolding render_def Let_def by (rule refl)
  have "handles (print_gl_errors ?s4 (glGetError_rets pf)) = handles ?s4"
    using print_gl_errors_frame by blast
  from egl_invariant_handles [OF this] i4 r show ?thesis by (simp only:)
qed

lemma DoFrame_inv:
  assumes "DoFrame s pf = Inr s'" and "egl_invariant s"
  shows "egl_invariant s'"
proof -
  from assms(1) obtain ok s1 where p: "PrepareToRender s pf = Inr (ok, s1)"
    by (auto simp: DoFrame_def split: sum.splits)
  note i1 = PrepareToRender_inv [OF p assms(2)]
  show ?thesis
  proof (cases ok)
    case False
    with assms(1) p i1 show ?thesis by (simp add: DoFrame_def)
  next
    case True
    let ?s2 = "emit [EglQuerySurface (mEglDisplay s1) (mEglSurface s1),
                          EglQuerySurface (mEglDisplay s1) (mEglSurface s1)] s1"
    from i1 have i2: "egl_invariant ?s2" by simp
    from assms(1) p True obtain w h where
      "s' = (emit [GlViewport 0 0 w h] ?s2)\<lparr>mSurfWidth := w, mSurfHeight := h\<rparr> \<or>
       s' = render ?s2 pf"
      by (auto simp: DoFrame_def Let_def split: option.splits if_splits)
    then show ?thesis
    proof
      assume "s' = (emit [GlViewport 0 0 w h] ?s2)\<lparr>mSurfWidth := w, mSurfHeight := h\<rparr>"
      then have "handles s' = handles ?s2" by (simp add: handles_def emit_def)
      from egl_invariant_handles [OF this] i2 show ?thesis by (simp only:)
    next
      assume "s' = render ?s2 pf"
      with render_inv [OF i2] show ?thesis by simp
    qed
  qed
qed

lemma callback_handles:
  "callback_touch_screen_event s ev = Inr s' \<Longrightarrow> handles s' = handles s"
  by (auto simp: handles_def dest: callback_Inr)

lemma cook_move_handles: "cook_move s me nd i = Inr (s', nd') \<Longrightarrow> handles s' = handles s"
  by (auto simp: cook_move_def Let_def map_sum_def handles_def
           split: if_splits sum.splits option.splits dest!: callback_handles)

lemma move_loop_handles: "move_loop s me nd is = Inr s' \<Longrightarrow> handles s' = handles s"
proof (induction "is" arbitrary: s nd)
  case Nil
  then show ?case by simp
next
  case (Cons i "is")
  from Cons.prems obtain s1 nd1 where
    step: "cook_move s me nd i = Inr (s1, nd1)" and rest: "move_loop s1 me nd1 is = Inr s'"
    by (auto split: sum.splits)
  from Cons.IH [OF rest] cook_move_handles [OF step] show ?case by simp
qed

lemma cook_event_handles: "cook_event s me ty k = Inr s' \<Longrightarrow> handles s' = handles s"
  by (cases ty)
     (auto simp: cook_event_def Let_def handles_def split: if_splits dest!: callback_handles)

lemma process_motion_event_handles:
  "process_motion_event s me = Inr s' \<Longrightarrow> handles s' = handles s"
  by (auto simp: process_motion_event_cases split: option.splits if_splits
           dest: cook_event_handles move_loop_handles)

lemma process_input_events_handles:
  "process_input_events s mes = Inr s' \<Longrightarrow> handles s' = handles s"
proof (induction mes arbitrary: s)
  case Nil
  then show ?case by simp
next
  case (Cons me mes)
  from Cons.prems obtain s1 where
    step: "process_motion_event s me = Inr s1" and rest: "process_input_events s1 mes = Inr s'"
    by (auto split: sum.splits)
  from Cons.IH [OF rest] process_motion_event_handles [OF step] show ?case by simp
qed

lemma reachable_inv: "reachable s \<Longrightarrow> egl_invariant s"
proof (induction rule: reachable.induct)
  case constructed
  show ?case by (simp add: egl_invariant_def NativeEngine_ctor_def)
next
  case (command s window c)
  then show ?case by (simp add: HandleCommand_inv)
next
  case (input s mes s')
  from egl_invariant_handles [OF process_input_events_handles [OF input.hyps(2)]] input.IH
  show ?case by (simp only:)
next
  case (frame s pf s')
  then show ?case by (auto intro: DoFrame_inv)
next
  case (prepare s pf ok s')
  then show ?case by (auto intro: PrepareToRender_inv)
next
  case (init_display s pf ok s')
  with InitDisplay_inv [of s pf] show ?case by simp
next
  case (init_surface s pf ok s')
  then show ?case by (auto intro: InitSurface_inv)
next
  case (init_context s pf ok s')
  then show ?case by (auto intro: InitContext_inv)
next
  case (kill_surface s)
  then show ?case by (simp add: KillSurface_inv)
next
  case (kill_context s)
  then show ?case by (simp add: KillContext_inv)
next
  case (kill_display s)
  show ?case by (rule KillDisplay_inv)
next
  case (egl_error s err ok s')
  with HandleEglError_inv [of s err] show ?case by simp
qed

lemma KillSurface_eq:
  "KillSurface s =
     s\<lparr>mEglSurface := EGL_NO_SURFACE,
       trace := trace s @
         EglMakeCurrent (mEglDisplay s) EGL_NO_SURFACE EGL_NO_SURFACE EGL_NO_CONTEXT #
         (if mEglSurface s \<noteq> EGL_NO_SURFACE
          then [EglDestroySurface (mEglDisplay s) (mEglSurface s)] else [])\<rparr>"
  by (simp add: KillSurface_def emit_def Let_def)

lemma KillContext_eq:
  "KillContext s =
     s\<lparr>mHasGLObjects := False, mEglContext := EGL_NO_CONTEXT,
       trace := trace s @
         EglMakeCurrent (mEglDisplay s) EGL_NO_SURFACE EGL_NO_SURFACE EGL_NO_CONTEXT #
         (if mEglContext s \<noteq> EGL_NO_CONTEXT
          then [EglDestroyContext (mEglDisplay s) (mEglContext s)] else [])\<rparr>"
  by (simp add: KillContext_def KillGLObjects_def emit_def Let_def)

lemma KillDisplay_eq:
  "KillDisplay s =
     s\<lparr>mHasGLObjects := False, mEglDisplay := EGL_NO_DISPLAY,
       mEglSurface := EGL_NO_SURFACE, mEglContext := EGL_NO_CONTEXT,
       trace := trace s @
         EglMakeCurrent (mEglDisplay s) EGL_NO_SURFACE EGL_NO_SURFACE EGL_NO_CONTEXT #
         (if mEglContext s \<noteq> EGL_NO_CONTEXT
          then [EglDestroyContext (mEglDisplay s) (mEglContext s)] else []) @
         EglMakeCurrent (mEglDisplay s) EGL_NO_SURFACE EGL_NO_SURFACE EGL_NO_CONTEXT #
         (if mEglSurface s \<noteq> EGL_NO_SURFACE
          then [EglDestroySurface (mEglDisplay s) (mEglSurface s)] else []) @
         (if mEglDisplay s \<noteq> EGL_NO_DISPLAY
          then [EglTerminate (mEglDisplay s)] else [])\<rparr>"
  by (simp add: KillDisplay_def KillContext_eq KillSurface_eq emit_def Let_def)

lemma quiet_excludes:
  assumes "list_all quiet es"
  shows "GlDrawArrays \<notin> set es" and "EglSwapBuffers d sf \<notin> set es"
    and "GlViewport a b c e \<notin> set es" and "Callback ev \<notin> set es"
  using assms by (auto simp: list_all_iff)

lemma extends_dims:
  "extends Q s s' \<Longrightarrow> mSurfWidth s' = mSurfWidth s \<and> mSurfHeight s' = mSurfHeight s"
  by (simp add: extends_def)

lemma extends_trace: "extends Q s s' \<Longrightarrow> trace s' = trace s @ new_effects s s'"
  by (auto simp: extends_def new_effects_def)

lemma render_dims:
  "mSurfWidth (render s pf) = mSurfWidth s \<and> mSurfHeight (render s pf) = mSurfHeight s"
proof -
  let ?s1 = "if mIsFirstFrame s then s\<lparr>mIsFirstFrame := False\<rparr> else s"
  let ?s2 = "(emit [GlCall ''glClear'', GlCall ''glBufferData'', GlDrawArrays] ?s1)
                 \<lparr>nn := nn ?s1 + 1\<rparr>"
  let ?s3 = "emit [EglSwapBuffers (mEglDisplay ?s2) (mEglSurface ?s2)] ?s2"
  let ?s4 = "if \<not> eglSwapBuffers_ret pf then
                  snd (HandleEglError (emit [EglGetError, EglGetError] ?s3)
                         (swap_eglGetError_ret pf))
                else ?s3"
  have r: "render s pf = print_gl_errors ?s4 (glGetError_rets pf)"
    unfolding render_def Let_def by (rule refl)
  have d3: "mSurfWidth ?s3 = mSurfWidth s \<and> mSurfHeight ?s3 = mSurfHeight s"
    by (simp add: emit_def)
  have "extends quiet ?s3 ?s4"
    by (auto intro!: extends_trans [OF emit_extends HandleEglError_extends])
  from extends_dims [OF this] d3
  have "mSurfWidth ?s4 = mSurfWidth s \<and> mSurfHeight ?s4 = mSurfHeight s" by (simp only:)
  with print_gl_errors_frame [of ?s4 "glGetError_rets pf"] r show ?thesis by (simp only:)
qed

lemma DoFrame_cases:
  assumes "DoFrame s pf = Inr s'"
  obtains (not_ready) s1 where "PrepareToRender s pf = Inr (False, s1)" and "s' = s1"
  | (resized) s1 w h where "PrepareToRender s pf = Inr (True, s1)"
      and "eglQuerySurface_width pf = Some w" and "eglQuerySurface_height pf = Some h"
      and "w \<noteq> mSurfWidth s \<or> h \<noteq> mSurfHeight s"
      and "s' = (emit [GlViewport 0 0 w h]
                   (emit [EglQuerySurface (mEglDisplay s1) (mEglSurface s1),
                          EglQuerySurface (mEglDisplay s1) (mEglSurface s1)] s1))
                \<lparr>mSurfWidth := w, mSurfHeight := h\<rparr>"
  | (rendered) s1 where "PrepareToRender s pf = Inr (True, s1)"
      and "eglQuerySurface_width pf = Some (mSurfWidth s)"
      and "eglQuerySurface_height pf = Some (mSurfHeight s)"
      and "s' = render (emit [EglQuerySurface (mEglDisplay s1) (mEglSurface s1),
                              EglQuerySurface (mEglDisplay s1) (mEglSurface s1)] s1) pf"
proof -
  from assms obtain ok s1 where p: "PrepareToRender s pf = Inr (ok, s1)"
    by (auto simp: DoFrame_def split: sum.splits)
  from extends_dims [OF PrepareToRender_extends [OF p]]
  have d: "mSurfWidth s1 = mSurfWidth s" "mSurfHeight s1 = mSurfHeight s" by simp_all
  show thesis
  proof (cases ok)
    case False
    with assms p not_ready show ?thesis by (simp add: DoFrame_def)
  next
    case True
    from assms p True obtain w h where
      w: "eglQuerySurface_width pf = Some w" and h: "eglQuerySurface_height pf = Some h"
      by (auto simp: DoFrame_def Let_def split: option.splits)
    show ?thesis
    proof (cases "w \<noteq> mSurfWidth s \<or> h \<noteq> mSurfHeight s")
      case neq: True
      with assms p True w h d resized [OF _ w h neq, of s1] show ?thesis
        by (auto simp: DoFrame_def Let_def)
    next
      case False
      with assms p True w h d rendered [of s1] show ?thesis
        by (auto simp: DoFrame_def Let_def)
    qed
  qed
qed

lemma print_gl_errors_extends: "extends (\<lambda>e. True) s (print_gl_errors s es)"
proof (induction s es rule: print_gl_errors.induct)
  case (1 s)
  show ?case by (simp add: emit_extends)
next
  case (2 s e es)
  let ?s1 = "emit [GlCall ''glGetError''] s"
  let ?s2 = "(emit [log_opengl_error e] ?s1)\<lparr>errorsPrinted := errorsPrinted ?s1 + 1\<rparr>"
  let ?s3 = "if errorsPrinted ?s2 \<ge> MAX_GL_ERRORS then
               emit [LogE ''*** NativeEngine: TOO MANY OPENGL ERRORS. NO LONGER PRINTING.''] ?s2
             else ?s2"
  have e1: "extends (\<lambda>e. True) s ?s1" by (simp add: emit_extends)
  have e2: "extends (\<lambda>e. True) ?s1 ?s2" by (simp add: extends_def emit_def)
  have e3: "extends (\<lambda>e. True) ?s2 ?s3" by (simp add: extends_def emit_def)
  show ?case
  proof (cases "e = GL_NO_ERROR")
    case True
    with e1 show ?thesis by simp
  next
    case ne: False
    show ?thesis
    proof (cases "errorsPrinted ?s1 < MAX_GL_ERRORS")
      case True
      from "2.IH"(1) [OF refl ne True refl refl]
      have "extends (\<lambda>e. True) ?s3 (print_gl_errors ?s3 es)" .
      with e1 e2 e3 have "extends (\<lambda>e. True) s (print_gl_errors ?s3 es)"
        by (blast intro: extends_trans)
      moreover from ne True have "print_gl_errors s (e # es) = print_gl_errors ?s3 es"
        by (simp add: Let_def)
      ultimately show ?thesis by (simp only:)
    next
      case False
      from "2.IH"(2) [OF refl ne False]
      have "extends (\<lambda>e. True) ?s1 (print_gl_errors ?s1 es)" .
      with e1 have "extends (\<lambda>e. True) s (print_gl_errors ?s1 es)"
        by (blast intro: extends_trans)
      moreover from ne False have "print_gl_errors s (e # es) = print_gl_errors ?s1 es"
        by (simp add: Let_def)
      ultimately show ?thesis by (simp only:)
    qed
  qed
qed

lemma extends_weaken: "extends Q s s' \<Longrightarrow> extends (\<lambda>e. True) s s'"
  by (auto simp: extends_def list_all_iff)

lemma extends_mem:
  "extends Q s s1 \<Longrightarrow> extends R s1 s2 \<Longrightarrow> e \<in> set (new_effects s s1) \<Longrightarrow>
   e \<in> set (new_effects s s2)"
  by (auto simp: extends_def new_effects_def)

lemma render_draws:
  "\<exists>s2. extends (\<lambda>e. True) s s2 \<and> GlDrawArrays \<in> set (new_effects s s2) \<and>
         extends (\<lambda>e. True) s2 (render s pf)"
proof -
  let ?s1 = "if mIsFirstFrame s then s\<lparr>mIsFirstFrame := False\<rparr> else s"
  let ?s2 = "(emit [GlCall ''glClear'', GlCall ''glBufferData'', GlDrawArrays] ?s1)
                 \<lparr>nn := nn ?s1 + 1\<rparr>"
  let ?s3 = "emit [EglSwapBuffers (mEglDisplay ?s2) (mEglSurface ?s2)] ?s2"
  let ?s4 = "if \<not> eglSwapBuffers_ret pf then
                  snd (HandleEglError (emit [EglGetError, EglGetError] ?s3)
                         (swap_eglGetError_ret pf))
                else ?s3"
  have r: "render s pf = print_gl_errors ?s4 (glGetError_rets pf)"
    unfolding render_def Let_def by (rule refl)
  have a: "extends (\<lambda>e. True) s ?s2" by (simp add: extends_def emit_def)
  have b: "GlDrawArrays \<in> set (new_effects s ?s2)" by (simp add: new_effects_def emit_def)
  have "extends (\<lambda>e. True) ?s2 ?s3" by (simp add: emit_extends)
  moreover have "extends quiet ?s3 ?s4"
    by (auto intro!: extends_trans [OF emit_extends HandleEglError_extends])
  then have "extends (\<lambda>e. True) ?s3 ?s4" by (rule extends_weaken)
  moreover note print_gl_errors_extends [of ?s4 "glGetError_rets pf"]
  ultimately have "extends (\<lambda>e. True) ?s2 (print_gl_errors ?s4 (glGetError_rets pf))"
    by (blast intro: extends_trans)
  with a b r show ?thesis by (auto simp only:)
qed

lemma new_effects_emit_update:
  "extends Q s s1 \<Longrightarrow>
   new_effects s ((emit es2 (emit es1 s1))\<lparr>mSurfWidth := w, mSurfHeight := h\<rparr>) =
     new_effects s s1 @ es1 @ es2"
  by (auto simp: extends_def new_effects_def emit_def)

lemma fdiv_zero_outside: "\<not> in_unit_interval (fdiv a (Finite 0))"
  by (cases a) simp_all

lemma grows_refl [simp]: "grows Q s s"
  by (simp add: grows_def)

lemma grows_trans: "grows Q s s1 \<Longrightarrow> grows Q s1 s2 \<Longrightarrow> grows Q s s2"
  by (auto simp: grows_def)

lemma grows_new_effects: "grows Q s s' \<Longrightarrow> list_all Q (new_effects s s')"
  by (auto simp: grows_def new_effects_def)

lemma grows_dims:
  "grows Q s s' \<Longrightarrow> mSurfWidth s' = mSurfWidth s \<and> mSurfHeight s' = mSurfHeight s"
  by (simp add: grows_def)

lemma grows_trace: "grows Q s s' \<Longrightarrow> trace s' = trace s @ new_effects s s'"
  by (auto simp: grows_def new_effects_def)

lemma extends_tracker: "extends Q s s' \<Longrightarrow> previous_positions s' = previous_positions s"
  by (simp add: extends_def)

lemma callback_grows:
  "callback_touch_screen_event s ev = Inr s' \<Longrightarrow> Q (Callback ev) \<Longrightarrow> grows Q s s'"
  by (auto simp: grows_def dest: callback_Inr)

lemma cooked_normalized:
  "callback_normalized_by (mSurfWidth s) (mSurfHeight s) (Callback (cooked s me ty i nd))"
  by (simp add: cooked_def Let_def)

lemma cooked_dims_update:
  "cooked (s\<lparr>previous_positions := t\<rparr>) me ty i nd = cooked s me ty i nd"
  "cooked (emit es s) me ty i nd = cooked s me ty i nd"
  by (simp_all add: cooked_def emit_def)

lemma cook_move_grows:
  assumes "cook_move s me nd i = Inr (s', nd')"
  shows "grows (callback_normalized_by (mSurfWidth s) (mSurfHeight s)) s s'"
proof -
  let ?Q = "callback_normalized_by (mSurfWidth s) (mSurfHeight s)"
  from cook_move_frame(1,2) [OF assms]
  have dims: "mSurfWidth s' = mSurfWidth s" "mSurfHeight s' = mSurfHeight s" .
  have "\<exists>new. trace s' = trace s @ new \<and> list_all ?Q new"
  proof (cases "find (\<lambda>el. fst el = pointer_id (pointers me i)) (previous_positions s)")
    case None
    from cook_move_untracked(1) [OF assms None] cooked_normalized [of s me Move i nd]
    show ?thesis by simp
  next
    case (Some el)
    from cook_move_tracked(1) [OF assms Some]
      cooked_normalized [of s me Move i "Some (ndelta (normalized s (pointers me i)) (snd el))"]
    show ?thesis by simp
  qed
  with dims show ?thesis by (simp add: grows_def)
qed

lemma grows_same_dims:
  "mSurfWidth s1 = mSurfWidth s \<Longrightarrow> mSurfHeight s1 = mSurfHeight s \<Longrightarrow>
   grows (callback_normalized_by (mSurfWidth s1) (mSurfHeight s1)) s1 s2 \<Longrightarrow>
   grows (callback_normalized_by (mSurfWidth s) (mSurfHeight s)) s1 s2"
  by simp

lemma move_loop_grows:
  "move_loop s me nd is = Inr s' \<Longrightarrow>
   grows (callback_normalized_by (mSurfWidth s) (mSurfHeight s)) s s'"
proof (induction "is" arbitrary: s nd)
  case Nil
  then show ?case by simp
next
  case (Cons i "is")
  from Cons.prems obtain s1 nd1 where
    step: "cook_move s me nd i = Inr (s1, nd1)" and rest: "move_loop s1 me nd1 is = Inr s'"
    by (auto split: sum.splits)
  note e1 = cook_move_grows [OF step]
  from grows_dims [OF e1] Cons.IH [OF rest]
  have "grows (callback_normalized_by (mSurfWidth s) (mSurfHeight s)) s1 s'" by simp
  with e1 show ?case by (rule grows_trans)
qed

lemma cook_event_grows:
  assumes "cook_event s me ty k = Inr s'"
  shows "grows (callback_normalized_by (mSurfWidth s) (mSurfHeight s)) s s'"
proof (cases "k = GAMEACTIVITY_MAX_NUM_POINTERS_IN_MOTION_EVENT")
  case True
  with assms show ?thesis by (simp add: cook_event_skip)
next
  case False
  let ?Q = "callback_normalized_by (mSurfWidth s) (mSurfHeight s)"
  have c: "?Q (Callback (cooked s me ty k None))" by (rule cooked_normalized)
  show ?thesis
  proof (cases ty)
    case Up
    with assms False cook_event_Up [of s me k s'] c show ?thesis
      by (simp add: grows_def)
  next
    case Down
    with assms False cook_event_Down [of s me k s'] c show ?thesis
      by (simp add: grows_def)
  next
    case Move
    with assms False have "callback_touch_screen_event s (cooked s me Move k None) = Inr s'"
      by (simp add: cook_event_def Let_def split: if_splits)
    from callback_grows [OF this] c Move show ?thesis by simp
  qed
qed

lemma process_motion_event_grows:
  "process_motion_event s me = Inr s' \<Longrightarrow>
   grows (callback_normalized_by (mSurfWidth s) (mSurfHeight s)) s s'"
  by (auto simp: process_motion_event_cases split: option.splits if_splits
           dest: cook_event_grows move_loop_grows)

lemma process_input_events_grows:
  "process_input_events s mes = Inr s' \<Longrightarrow>
   grows (callback_normalized_by (mSurfWidth s) (mSurfHeight s)) s s'"
proof (induction mes arbitrary: s)
  case Nil
  then show ?case by simp
next
  case (Cons me mes)
  from Cons.prems obtain s1 where
    step: "process_motion_event s me = Inr s1" and rest: "process_input_events s1 mes = Inr s'"
    by (auto split: sum.splits)
  note e1 = process_motion_event_grows [OF step]
  from grows_dims [OF e1] Cons.IH [OF rest]
  have "grows (callback_normalized_by (mSurfWidth s) (mSurfHeight s)) s1 s'" by simp
  with e1 show ?case by (rule grows_trans)
qed

lemma handle_commands_extends: "extends quiet s (handle_commands s cs)"
proof (induction cs arbitrary: s)
  case Nil
  show ?case by simp
next
  case (Cons a cs)
  obtain w c where a: "a = (w, c)" by (cases a)
  from extends_trans [OF HandleCommand_extends Cons.IH] a show ?case by simp
qed

lemma unsized_callbacks:
  assumes "grows (callback_normalized_by (mSurfWidth s) (mSurfHeight s)) s s'"
    and "Callback ev \<in> set (new_effects s s')"
  shows "ev_max ev = \<lparr>pos_x = float_of_int (mSurfWidth s), pos_y = float_of_int (mSurfHeight s)\<rparr>"
    and "norm_pos ev =
           \<lparr>pos_x = fdiv (pos_x (ev_pos ev)) (float_of_int (mSurfWidth s)),
            pos_y = fdiv (pos_y (ev_pos ev)) (float_of_int (mSurfHeight s))\<rparr>"
    and "mSurfWidth s = 0 \<Longrightarrow> mSurfHeight s = 0 \<Longrightarrow>
         \<not> in_unit_interval (pos_x (norm_pos ev)) \<and> \<not> in_unit_interval (pos_y (norm_pos ev))"
proof -
  from grows_new_effects [OF assms(1)] assms(2)
  have q: "callback_normalized_by (mSurfWidth s) (mSurfHeight s) (Callback ev)"
    by (auto simp: list_all_iff)
  then show "ev_max ev = \<lparr>pos_x = float_of_int (mSurfWidth s), pos_y = float_of_int (mSurfHeight s)\<rparr>"
    and n: "norm_pos ev =
           \<lparr>pos_x = fdiv (pos_x (ev_pos ev)) (float_of_int (mSurfWidth s)),
            pos_y = fdiv (pos_y (ev_pos ev)) (float_of_int (mSurfHeight s))\<rparr>"
    by simp_all
  assume "mSurfWidth s = 0" and "mSurfHeight s = 0"
  with n show "\<not> in_unit_interval (pos_x (norm_pos ev)) \<and>
               \<not> in_unit_interval (pos_y (norm_pos ev))"
    by (simp add: float_of_int_def fdiv_zero_outside)
qed

lemma DoFrame_dims:
  assumes "DoFrame s pf = Inr s'"
    and "mSurfWidth s' \<noteq> mSurfWidth s \<or> mSurfHeight s' \<noteq> mSurfHeight s"
  shows "eglQuerySurface_width pf = Some (mSurfWidth s') \<and>
         eglQuerySurface_height pf = Some (mSurfHeight s') \<and>
         GlViewport 0 0 (mSurfWidth s') (mSurfHeight s') \<in> set (new_effects s s')"
  using assms(1)
proof (cases rule: DoFrame_cases)
  case (not_ready s1)
  from extends_dims [OF PrepareToRender_extends [OF not_ready(1)]] not_ready(2) assms(2)
  show ?thesis by simp
next
  case (resized s1 w h)
  note ext = PrepareToRender_extends [OF resized(1)]
  from new_effects_emit_update [OF ext] resized(5)
  have "new_effects s s' = new_effects s s1 @
             [EglQuerySurface (mEglDisplay s1) (mEglSurface s1),
              EglQuerySurface (mEglDisplay s1) (mEglSurface s1)] @ [GlViewport 0 0 w h]"
    by (simp only:)
  moreover from resized(5) have "mSurfWidth s' = w" "mSurfHeight s' = h" by simp_all
  ultimately show ?thesis using resized(2,3) by simp
next
  case (rendered s1)
  from extends_dims [OF PrepareToRender_extends [OF rendered(1)]] rendered(4) assms(2)
  show ?thesis by (simp add: render_dims emit_def)
qed

section \<open>Runs of steps and the Move loop pointer by pointer: lemmas\<close>

lemmas step_defs = stored_def pointer_ids_def is_up_of_def touches_def steps_after_def
  no_up_def untouched_def loop_state_def reported_against_def touch_pointer_down_1_def

lemma stored_tracked: "(stored i s \<noteq> None) = (i \<in> set (tracked_ids s))"
  by (force simp: stored_def tracked_ids_def find_None_iff)

lemma move_steps_loop: "move_loop s me nd is = map_sum id fst (move_steps s me nd is)"
  by (induction "is" arbitrary: s nd) (auto split: sum.splits)

lemma move_steps_Inr_loop:
  "move_steps s me nd is = Inr (s', nd') \<Longrightarrow> move_loop s me nd is = Inr s'"
  by (simp add: move_steps_loop)

lemma move_loop_Inr_steps:
  "move_loop s me nd is = Inr s' \<Longrightarrow> \<exists>nd'. move_steps s me nd is = Inr (s', nd')"
  by (cases "move_steps s me nd is") (auto simp: move_steps_loop)

lemma move_steps_append:
  "move_steps s me nd (xs @ ys) =
     (case move_steps s me nd xs of
        Inl e \<Rightarrow> Inl e
      | Inr (u, nd') \<Rightarrow> move_steps u me nd' ys)"
  by (induction xs arbitrary: s nd) (auto split: sum.splits)

lemma move_steps_split:
  assumes "move_steps t mv nd0 [k..<n] = Inr (t', ndf)" and "k \<le> m" and "m \<le> n"
  shows "\<exists>u nd. move_steps t mv nd0 [k..<m] = Inr (u, nd) \<and>
                 move_steps u mv nd [m..<n] = Inr (t', ndf)"
proof -
  from assms(2,3) have "[k..<n] = [k..<m] @ [m..<n]"
    by (metis le_Suc_ex upt_add_eq_append)
  with assms(1) show ?thesis
    by (auto simp: move_steps_append split: sum.splits)
qed

lemma loop_states:
  assumes "move_steps t mv None [0..<n] = Inr (t', ndf)" and "k \<le> m" and "m \<le> n"
  shows "\<exists>ndk ndm. move_steps t mv None [0..<k] = Inr (loop_state t mv k, ndk) \<and>
           move_steps (loop_state t mv k) mv ndk [k..<m] = Inr (loop_state t mv m, ndm) \<and>
           move_steps (loop_state t mv m) mv ndm [m..<n] = Inr (t', ndf)"
proof -
  from move_steps_split [OF assms(1) _ assms(3)] obtain um ndm where
    m1: "move_steps t mv None [0..<m] = Inr (um, ndm)"
    and m2: "move_steps um mv ndm [m..<n] = Inr (t', ndf)" by auto
  from move_steps_split [OF m1 _ assms(2)] obtain uk ndk where
    k1: "move_steps t mv None [0..<k] = Inr (uk, ndk)"
    and k2: "move_steps uk mv ndk [k..<m] = Inr (um, ndm)" by auto
  from m1 have "loop_state t mv m = um" by (simp add: loop_state_def)
  moreover from k1 have "loop_state t mv k = uk" by (simp add: loop_state_def)
  ultimately show ?thesis using m2 k1 k2 by auto
qed

lemma move_steps_frame:
  assumes "move_steps s me nd is = Inr (s', nd')"
  shows "mSurfWidth s' = mSurfWidth s" and "mSurfHeight s' = mSurfHeight s"
    and "tracked_ids s' = tracked_ids s"
    and "\<exists>new. trace s' = trace s @ new"
    and "j \<notin> (\<lambda>i. pointer_id (pointers me i)) ` set is \<Longrightarrow> stored j s' = stored j s"
  using move_loop_frame [OF move_steps_Inr_loop [OF assms]]
    move_loop_find_other [OF move_steps_Inr_loop [OF assms], of j]
  by (auto simp: stored_def)

lemma move_steps_single:
  "move_steps s me nd [k..<Suc k] = Inr (s', nd') \<Longrightarrow> cook_move s me nd k = Inr (s', nd')"
  by (auto simp: upt_rec split: sum.splits)

lemma process_move_steps:
  assumes "is_move mv" and "process_motion_event t mv = Inr t'"
  shows "\<exists>ndf. move_steps t mv None [0..<pointerCount mv] = Inr (t', ndf)"
  using assms by (simp add: is_move_process move_loop_Inr_steps)

lemma loop_state_0 [simp]: "loop_state t mv 0 = t"
  by (simp add: loop_state_def)

lemma batch_law:
  assumes "is_move mv" and "process_motion_event t mv = Inr t'"
  shows "loop_state t mv (pointerCount mv) = t'"
    and "k \<le> n \<Longrightarrow> n \<le> pointerCount mv \<Longrightarrow> j \<notin> set (pointer_ids mv k n) \<Longrightarrow>
         stored j (loop_state t mv n) = stored j (loop_state t mv k)"
    and "n \<le> pointerCount mv \<Longrightarrow> tracked_ids (loop_state t mv n) = tracked_ids t"
proof -
  from process_move_steps [OF assms] obtain ndf where
    run: "move_steps t mv None [0..<pointerCount mv] = Inr (t', ndf)" by blast
  from loop_states [OF run le_refl le_refl]
  show "loop_state t mv (pointerCount mv) = t'" by auto
  {
    assume kn: "k \<le> n" and n: "n \<le> pointerCount mv"
      and j: "j \<notin> set (pointer_ids mv k n)"
    from loop_states [OF run kn n] obtain ndk ndm where
      "move_steps (loop_state t mv k) mv ndk [k..<n] = Inr (loop_state t mv n, ndm)" by blast
    from move_steps_frame(5) [OF this, of j] j
    show "stored j (loop_state t mv n) = stored j (loop_state t mv k)"
      by (simp add: pointer_ids_def)
  }
  {
    assume n: "n \<le> pointerCount mv"
    from loop_states [OF run le_refl n] obtain ndk where
      "move_steps t mv None [0..<n] = Inr (loop_state t mv n, ndk)" by blast
    from move_steps_frame(3) [OF this]
    show "tracked_ids (loop_state t mv n) = tracked_ids t" .
  }
qed

lemma move_pointer_law:
  assumes "is_move mv" and "k < pointerCount mv"
    and "pointer_id (pointers mv k) \<in> set (tracked_ids t)"
    and "process_motion_event t mv = Inr t'"
  shows "\<exists>pp. stored (pointer_id (pointers mv k)) (loop_state t mv k) = Some pp \<and>
           new_effects (loop_state t mv k) (loop_state t mv (Suc k)) =
             [Callback (cooked t mv Move k
                (Some (ndelta (normalized t (pointers mv k)) pp)))] \<and>
           reported_against t t' mv k pp"
    and "stored (pointer_id (pointers mv k)) (loop_state t mv (Suc k)) =
           Some (normalized t (pointers mv k))"
proof -
  let ?u = "loop_state t mv k" and ?u' = "loop_state t mv (Suc k)"
  let ?i = "pointer_id (pointers mv k)"
  from process_move_steps [OF assms(1,4)] obtain ndf where
    run: "move_steps t mv None [0..<pointerCount mv] = Inr (t', ndf)" by blast
  from assms(2) have k1: "Suc k \<le> pointerCount mv" by simp
  from loop_states [OF run _ k1, of k] obtain ndk ndm where
    pre: "move_steps t mv None [0..<k] = Inr (?u, ndk)"
    and one: "move_steps ?u mv ndk [k..<Suc k] = Inr (?u', ndm)"
    and post: "move_steps ?u' mv ndm [Suc k..<pointerCount mv] = Inr (t', ndf)" by auto
  note step = move_steps_single [OF one]
  from move_steps_frame(1,2) [OF pre]
  have dims: "mSurfWidth ?u = mSurfWidth t" "mSurfHeight ?u = mSurfHeight t" .
  from move_steps_frame(3) [OF pre] assms(3) have "?i \<in> set (tracked_ids ?u)" by simp
  then have "stored ?i ?u \<noteq> None" by (simp only: stored_tracked)
  then obtain el where f: "find (\<lambda>el. fst el = ?i) (previous_positions ?u) = Some el"
    by (auto simp: stored_def)
  then have st: "stored ?i ?u = Some (snd el)" by (simp add: stored_def)
  let ?cb = "Callback (cooked t mv Move k
                (Some (ndelta (normalized t (pointers mv k)) (snd el))))"
  from cook_move_tracked(1) [OF step f]
  have tr: "trace ?u' = trace ?u @ [?cb]"
    by (simp add: cooked_dims [OF dims] normalized_dims [OF dims])
  then have ne: "new_effects ?u ?u' = [?cb]" by (simp add: new_effects_def)
  from move_steps_frame(4) [OF pre] obtain a where a: "trace ?u = trace t @ a" by blast
  from move_steps_frame(4) [OF post] obtain b where b: "trace t' = trace ?u' @ b" by blast
  from a b tr have "?cb \<in> set (new_effects t t')" by (simp add: new_effects_def)
  then have "reported_against t t' mv k (snd el)" by (simp add: reported_against_def)
  with st ne
  show "\<exists>pp. stored ?i ?u = Some pp \<and>
           new_effects ?u ?u' =
             [Callback (cooked t mv Move k
                (Some (ndelta (normalized t (pointers mv k)) pp)))] \<and>
           reported_against t t' mv k pp" by blast
  from cook_move_tracked(2) [OF step f] f
  show "stored ?i ?u' = Some (normalized t (pointers mv k))"
    by (simp add: stored_def find_update_first_same normalized_dims [OF dims])
qed

lemma DoFrame_tracker:
  assumes "DoFrame s pf = Inr s'"
  shows "previous_positions s' = previous_positions s"
  using assms
proof (cases rule: DoFrame_cases)
  case (not_ready s1)
  from extends_tracker [OF PrepareToRender_extends [OF not_ready(1)]] not_ready(2)
  show ?thesis by simp
next
  case (resized s1 w h)
  from extends_tracker [OF PrepareToRender_extends [OF resized(1)]] resized(5)
  show ?thesis by (simp add: emit_def)
next
  case (rendered s1)
  let ?s2 = "emit [EglQuerySurface (mEglDisplay s1) (mEglSurface s1),
                   EglQuerySurface (mEglDisplay s1) (mEglSurface s1)] s1"
  from render_draws [of ?s2 pf] obtain s3 where
    "extends (\<lambda>e. True) ?s2 s3" and "extends (\<lambda>e. True) s3 (render ?s2 pf)" by blast
  then have "previous_positions (render ?s2 pf) = previous_positions ?s2"
    by (simp add: extends_tracker)
  with extends_tracker [OF PrepareToRender_extends [OF rendered(1)]] rendered(4)
  show ?thesis by simp
qed

lemma select_event_not_Move: "select_event me = Some (ty, k) \<Longrightarrow> ty \<noteq> Move"
  by (auto simp: select_event_def Let_def split: if_splits)

lemma find_filter_other:
  "j \<noteq> i \<Longrightarrow> find (\<lambda>el. fst el = i) (filter (\<lambda>el. fst el \<noteq> j) t) =
               find (\<lambda>el. fst el = i) t"
  by (induction t) auto

lemma find_append_kept:
  "find P t = Some x \<Longrightarrow> find P (t @ ys) = Some x"
  by (induction t) (auto split: if_splits)

lemma motion_keeps_stored:
  assumes "process_motion_event u me = Inr u'" and "\<not> touches i me"
    and "stored i u = Some pp"
  shows "stored i u' = Some pp"
proof (cases "select_event me")
  case None
  show ?thesis
  proof (cases "is_move me")
    case True
    with assms(2) have "i \<notin> (\<lambda>j. pointer_id (pointers me j)) ` set [0..<pointerCount me]"
      by (simp add: touches_def pointer_ids_def)
    moreover from True assms(1) have "move_loop u me None [0..<pointerCount me] = Inr u'"
      by (simp add: is_move_process)
    ultimately show ?thesis using assms(3) move_loop_find_other [of u me None _ u' i]
      by (simp add: stored_def)
  next
    case False
    with None assms(1,3) show ?thesis by (simp add: process_motion_event_cases)
  qed
next
  case (Some a)
  obtain ty k where a: "a = (ty, k)" by (cases a)
  with Some assms(1) have run: "cook_event u me ty k = Inr u'"
    by (simp add: process_motion_event_cases)
  show ?thesis
  proof (cases "k = GAMEACTIVITY_MAX_NUM_POINTERS_IN_MOTION_EVENT")
    case True
    with run assms(3) show ?thesis by (simp add: cook_event_skip)
  next
    case False
    with cook_event_lt [OF run] have lt: "k < GAMEACTIVITY_MAX_NUM_POINTERS_IN_MOTION_EVENT"
      by simp
    show ?thesis
    proof (cases ty)
      case Up
      with Some a lt assms(2) have "pointer_id (pointers me k) \<noteq> i"
        by (simp add: touches_def is_up_of_def)
      with Up run False assms(3) show ?thesis
        by (simp add: stored_def cook_event_Up(1) find_filter_other)
    next
      case Down
      from assms(3) obtain el where
        "find (\<lambda>el. fst el = i) (previous_positions u) = Some el" and "snd el = pp"
        by (auto simp: stored_def)
      with Down run False show ?thesis
        by (simp add: stored_def cook_event_Down(1) find_append_kept)
    next
      case Move
      with Some a select_event_not_Move show ?thesis by blast
    qed
  qed
qed

lemma motion_keeps_tracked:
  assumes "process_motion_event u me = Inr u'" and "\<not> is_up_of i me"
    and "i \<in> set (tracked_ids u)"
  shows "i \<in> set (tracked_ids u')"
proof (cases "select_event me")
  case None
  with assms(1) have "is_move me \<Longrightarrow> move_loop u me None [0..<pointerCount me] = Inr u'"
    and "\<not> is_move me \<Longrightarrow> u' = u"
    by (simp_all add: process_motion_event_cases)
  with assms(3) show ?thesis
    by (cases "is_move me") (auto dest: move_loop_frame)
next
  case (Some a)
  obtain ty k where a: "a = (ty, k)" by (cases a)
  with Some assms(1) have run: "cook_event u me ty k = Inr u'"
    by (simp add: process_motion_event_cases)
  show ?thesis
  proof (cases "k = GAMEACTIVITY_MAX_NUM_POINTERS_IN_MOTION_EVENT")
    case True
    with run assms(3) show ?thesis by (simp add: cook_event_skip)
  next
    case False
    with cook_event_lt [OF run] have lt: "k < GAMEACTIVITY_MAX_NUM_POINTERS_IN_MOTION_EVENT"
      by simp
    show ?thesis
    proof (cases ty)
      case Up
      with Some a lt assms(2) have "pointer_id (pointers me k) \<noteq> i"
        by (simp add: is_up_of_def)
      with Up run False assms(3) show ?thesis
        by (auto simp: tracked_ids_def cook_event_Up(1))
    next
      case Down
      with run False assms(3) show ?thesis
        by (simp add: tracked_ids_def cook_event_Down(1))
    next
      case Move
      with Some a select_event_not_Move show ?thesis by blast
    qed
  qed
qed

lemma step_keeps_stored:
  assumes "do_step u a = Inr u'" and "\<not> step_touches i a" and "stored i u = Some pp"
  shows "stored i u' = Some pp"
proof (cases a)
  case (Motion me)
  with assms show ?thesis by (auto intro: motion_keeps_stored)
next
  case (Frame pf)
  with assms(1) have "DoFrame u pf = Inr u'" by simp
  from DoFrame_tracker [OF this] assms(3) show ?thesis by (simp add: stored_def)
next
  case (Command window c)
  with assms(1) extends_tracker [OF HandleCommand_extends [of u window c]] assms(3)
  show ?thesis by (auto simp: stored_def)
qed

lemma step_keeps_tracked:
  assumes "do_step u a = Inr u'" and "\<not> step_is_up_of i a" and "i \<in> set (tracked_ids u)"
  shows "i \<in> set (tracked_ids u')"
proof (cases a)
  case (Motion me)
  with assms show ?thesis by (auto intro: motion_keeps_tracked)
next
  case (Frame pf)
  with assms(1) have "DoFrame u pf = Inr u'" by simp
  from DoFrame_tracker [OF this] assms(3) show ?thesis by (simp add: tracked_ids_def)
next
  case (Command window c)
  with assms(1) extends_tracker [OF HandleCommand_extends [of u window c]] assms(3)
  show ?thesis by (auto simp: tracked_ids_def)
qed

lemma run_keeps_stored:
  "run_steps u mid = Inr t \<Longrightarrow> untouched i mid \<Longrightarrow> stored i u = Some pp \<Longrightarrow>
   stored i t = Some pp"
proof (induction mid arbitrary: u)
  case Nil
  then show ?case by simp
next
  case (Cons a mid)
  from Cons.prems(1) obtain u1 where
    step: "do_step u a = Inr u1" and rest: "run_steps u1 mid = Inr t"
    by (auto split: sum.splits)
  from Cons.prems(2) have na: "\<not> step_touches i a" and un: "untouched i mid"
    by (simp_all add: untouched_def)
  from Cons.IH [OF rest un step_keeps_stored [OF step na Cons.prems(3)]] show ?case .
qed

lemma run_keeps_tracked:
  "run_steps u mid = Inr t \<Longrightarrow> no_up i mid \<Longrightarrow> i \<in> set (tracked_ids u) \<Longrightarrow>
   i \<in> set (tracked_ids t)"
proof (induction mid arbitrary: u)
  case Nil
  then show ?case by simp
next
  case (Cons a mid)
  from Cons.prems(1) obtain u1 where
    step: "do_step u a = Inr u1" and rest: "run_steps u1 mid = Inr t"
    by (auto split: sum.splits)
  from Cons.prems(2) have na: "\<not> step_is_up_of i a" and un: "no_up i mid"
    by (simp_all add: no_up_def)
  from Cons.IH [OF rest un step_keeps_tracked [OF step na Cons.prems(3)]] show ?case .
qed

lemma down_law:
  assumes "select_event dn = Some (Down, kd)"
    and "kd \<noteq> GAMEACTIVITY_MAX_NUM_POINTERS_IN_MOTION_EVENT"
    and "pointer_id (pointers dn kd) \<notin> set (tracked_ids s)"
    and "process_motion_event s dn = Inr s1"
  shows "stored (pointer_id (pointers dn kd)) s1 = Some (normalized s (pointers dn kd))"
  using down_stores [OF assms] by (simp add: stored_def)

lemma new_effects_within:
  assumes "trace u = trace s @ a" and "trace u' = trace u @ n" and "trace s' = trace u' @ b"
  shows "set (new_effects u u') \<subseteq> set (new_effects s s')"
  using assms by (auto simp: new_effects_def)

lemma cook_event_emits:
  assumes "select_event me = Some (ty, k)"
    and "k \<noteq> GAMEACTIVITY_MAX_NUM_POINTERS_IN_MOTION_EVENT"
    and "process_motion_event u me = Inr u'"
  shows "Callback (cooked u me ty k None) \<in> set (new_effects u u')"
proof -
  from assms(1,3) have run: "cook_event u me ty k = Inr u'"
    by (simp add: select_event_process)
  show ?thesis
  proof (cases ty)
    case Up
    with cook_event_Up(2) [OF _ assms(2), of u me u'] run show ?thesis
      by (simp add: new_effects_def)
  next
    case Down
    with cook_event_Down(2) [OF _ assms(2), of u me u'] run show ?thesis
      by (simp add: new_effects_def)
  next
    case Move
    with assms(1) select_event_not_Move show ?thesis by blast
  qed
qed

lemma move_pointer_emits:
  assumes "is_move mv" and "k < pointerCount mv" and "process_motion_event t mv = Inr t'"
  shows "\<exists>nd. Callback (cooked t mv Move k nd) \<in> set (new_effects t t')"
proof -
  let ?u = "loop_state t mv k" and ?u' = "loop_state t mv (Suc k)"
  from process_move_steps [OF assms(1,3)] obtain ndf where
    run: "move_steps t mv None [0..<pointerCount mv] = Inr (t', ndf)" by blast
  from assms(2) have k1: "Suc k \<le> pointerCount mv" by simp
  from loop_states [OF run _ k1, of k] obtain ndk ndm where
    pre: "move_steps t mv None [0..<k] = Inr (?u, ndk)"
    and one: "move_steps ?u mv ndk [k..<Suc k] = Inr (?u', ndm)"
    and post: "move_steps ?u' mv ndm [Suc k..<pointerCount mv] = Inr (t', ndf)" by auto
  note step = move_steps_single [OF one]
  from move_steps_frame(1,2) [OF pre]
  have dims: "mSurfWidth ?u = mSurfWidth t" "mSurfHeight ?u = mSurfHeight t" .
  have "\<exists>nd. Callback (cooked t mv Move k nd) \<in> set (new_effects ?u ?u')"
  proof (cases "find (\<lambda>el. fst el = pointer_id (pointers mv k)) (previous_positions ?u)")
    case None
    from cook_move_untracked(1) [OF step None]
    have "Callback (cooked t mv Move k ndk) \<in> set (new_effects ?u ?u')"
      by (simp add: new_effects_def cooked_dims [OF dims])
    then show ?thesis ..
  next
    case (Some el)
    from cook_move_tracked(1) [OF step Some]
    have "Callback (cooked t mv Move k
            (Some (ndelta (normalized t (pointers mv k)) (snd el))))
            \<in> set (new_effects ?u ?u')"
      by (simp add: new_effects_def cooked_dims [OF dims] normalized_dims [OF dims])
    then show ?thesis ..
  qed
  moreover
  from move_steps_frame(4) [OF pre] obtain a where a: "trace ?u = trace t @ a" by blast
  from cook_move_frame(4) [OF step] obtain n where n: "trace ?u' = trace ?u @ n" by blast
  from move_steps_frame(4) [OF post] obtain b where b: "trace t' = trace ?u' @ b" by blast
  from new_effects_within [OF a n b]
  have "set (new_effects ?u ?u') \<subseteq> set (new_effects t t')" .
  ultimately show ?thesis by blast
qed

lemma process_input_events_at:
  assumes "process_input_events s mes = Inr s'" and "me \<in> set mes"
  shows "\<exists>u u'. process_motion_event u me = Inr u' \<and>
           mSurfWidth u = mSurfWidth s \<and> mSurfHeight u = mSurfHeight s \<and>
           set (new_effects u u') \<subseteq> set (new_effects s s')"
  using assms
proof (induction mes arbitrary: s)
  case Nil
  then show ?case by simp
next
  case (Cons x xs)
  from Cons.prems(1) obtain s1 where
    step: "process_motion_event s x = Inr s1" and rest: "process_input_events s1 xs = Inr s'"
    by (auto split: sum.splits)
  note g1 = process_motion_event_grows [OF step]
  note g2 = process_input_events_grows [OF rest]
  show ?case
  proof (cases "me = x")
    case True
    have "trace s = trace s @ []" by simp
    from new_effects_within [OF this grows_trace [OF g1] grows_trace [OF g2]] step True
    show ?thesis by blast
  next
    case False
    with Cons.prems(2) have "me \<in> set xs" by simp
    from Cons.IH [OF rest this] obtain u u' where
      p: "process_motion_event u me = Inr u'"
      and d: "mSurfWidth u = mSurfWidth s1" "mSurfHeight u = mSurfHeight s1"
      and sub: "set (new_effects u u') \<subseteq> set (new_effects s1 s')" by blast
    have "trace s' = trace s' @ []" by simp
    from new_effects_within [OF grows_trace [OF g1] grows_trace [OF g2] this]
    have "set (new_effects s1 s') \<subseteq> set (new_effects s s')" .
    with sub have "set (new_effects u u') \<subseteq> set (new_effects s s')" by blast
    with p d grows_dims [OF g1] show ?thesis by auto
  qed
qed

lemma input_event_emits:
  assumes "process_input_events s mes = Inr s'" and "me \<in> set mes"
  shows "select_event me = Some (ty, k) \<Longrightarrow>
         k \<noteq> GAMEACTIVITY_MAX_NUM_POINTERS_IN_MOTION_EVENT \<Longrightarrow>
         Callback (cooked s me ty k None) \<in> set (new_effects s s')"
    and "is_move me \<Longrightarrow> k < pointerCount me \<Longrightarrow>
         \<exists>nd. Callback (cooked s me Move k nd) \<in> set (new_effects s s')"
proof -
  from process_input_events_at [OF assms] obtain u u' where
    p: "process_motion_event u me = Inr u'"
    and d: "mSurfWidth u = mSurfWidth s" "mSurfHeight u = mSurfHeight s"
    and sub: "set (new_effects u u') \<subseteq> set (new_effects s s')" by blast
  {
    assume "select_event me = Some (ty, k)"
      and "k \<noteq> GAMEACTIVITY_MAX_NUM_POINTERS_IN_MOTION_EVENT"
    from cook_event_emits [OF this p] sub
    show "Callback (cooked s me ty k None) \<in> set (new_effects s s')"
      by (auto simp: cooked_dims [OF d])
  }
  {
    assume "is_move me" and "k < pointerCount me"
    from move_pointer_emits [OF this p] sub
    show "\<exists>nd. Callback (cooked s me Move k nd) \<in> set (new_effects s s')"
      by (auto simp: cooked_dims [OF d])
  }
qed

lemma cooked_divides:
  "ev_pos (cooked s me ty k nd) =
     \<lparr>pos_x = axis_x (pointers me k), pos_y = axis_y (pointers me k)\<rparr>"
  "norm_pos (cooked s me ty k nd) =
     \<lparr>pos_x = fdiv (axis_x (pointers me k)) (float_of_int (mSurfWidth s)),
      pos_y = fdiv (axis_y (pointers me k)) (float_of_int (mSurfHeight s))\<rparr>"
  "mSurfWidth s = 0 \<Longrightarrow> mSurfHeight s = 0 \<Longrightarrow>
     \<not> in_unit_interval (pos_x (norm_pos (cooked s me ty k nd))) \<and>
     \<not> in_unit_interval (pos_y (norm_pos (cooked s me ty k nd)))"
  by (simp_all add: cooked_def Let_def float_of_int_def fdiv_zero_outside)

section \<open>Properties\<close>

text \<open>
  C1 (amended). A Down for an id that has no record stores the normalized down position for
  the id. Steps that are neither an Up of the id nor a Move with a pointer of the id (events
  of other ids, frames, commands) leave the stored position as it is, and until an Up of the
  id the id keeps a record. A Move batch reports, for each of its pointers whose id has a
  record, the delta of the pointer's new normalized position against the position stored
  when the loop reaches the pointer, and then stores the new normalized position; between
  two pointers of the batch only pointers of the same id change what is stored for an id.
  So the first Move after such a Down is reported against the Down position, not zero.
\<close>

theorem move_delta_against_stored_position:
  "(select_event dn = Some (Down, kd) \<and>
    kd \<noteq> GAMEACTIVITY_MAX_NUM_POINTERS_IN_MOTION_EVENT \<and>
    pointer_id (pointers dn kd) \<notin> set (tracked_ids s) \<and>
    process_motion_event s dn = Inr sd \<longrightarrow>
      stored (pointer_id (pointers dn kd)) sd = Some (normalized s (pointers dn kd))) \<and>
   (stored i u = Some pp \<and> untouched i mid \<and> run_steps u mid = Inr t \<longrightarrow>
      stored i t = Some pp) \<and>
   (stored i u \<noteq> None \<and> no_up i mid \<and> run_steps u mid = Inr t \<longrightarrow>
      stored i t \<noteq> None) \<and>
   (is_move mv \<and> process_motion_event t mv = Inr t' \<longrightarrow>
      loop_state t mv 0 = t \<and> loop_state t mv (pointerCount mv) = t' \<and>
      (\<forall>m n j. m \<le> n \<and> n \<le> pointerCount mv \<and> j \<notin> set (pointer_ids mv m n) \<longrightarrow>
         stored j (loop_state t mv n) = stored j (loop_state t mv m))) \<and>
   (is_move mv \<and> k < pointerCount mv \<and>
    stored (pointer_id (pointers mv k)) t \<noteq> None \<and>
    process_motion_event t mv = Inr t' \<longrightarrow>
      (\<exists>pp. stored (pointer_id (pointers mv k)) (loop_state t mv k) = Some pp \<and>
         new_effects (loop_state t mv k) (loop_state t mv (Suc k)) =
           [Callback (cooked t mv Move k
              (Some (ndelta (normalized t (pointers mv k)) pp)))] \<and>
         reported_against t t' mv k pp) \<and>
      stored (pointer_id (pointers mv k)) (loop_state t mv (Suc k)) =
        Some (normalized t (pointers mv k))) \<and>
   (select_event dn = Some (Down, kd) \<and>
    kd \<noteq> GAMEACTIVITY_MAX_NUM_POINTERS_IN_MOTION_EVENT \<and>
    pointer_id (pointers dn kd) \<notin> set (tracked_ids s) \<and>
    process_motion_event s dn = Inr sd \<and>
    untouched (pointer_id (pointers dn kd)) mid \<and> run_steps sd mid = Inr t \<and>
    is_move mv \<and> k < pointerCount mv \<and>
    pointer_id (pointers mv k) = pointer_id (pointers dn kd) \<and>
    pointer_id (pointers dn kd) \<notin> set (pointer_ids mv 0 k) \<and>
    process_motion_event t mv = Inr t' \<longrightarrow>
      reported_against t t' mv k (normalized s (pointers dn kd)) \<and>
      stored (pointer_id (pointers dn kd)) (loop_state t mv (Suc k)) =
        Some (normalized t (pointers mv k)))"
proof (intro conjI impI)
  assume "select_event dn = Some (Down, kd) \<and>
    kd \<noteq> GAMEACTIVITY_MAX_NUM_POINTERS_IN_MOTION_EVENT \<and>
    pointer_id (pointers dn kd) \<notin> set (tracked_ids s) \<and>
    process_motion_event s dn = Inr sd"
  then show "stored (pointer_id (pointers dn kd)) sd = Some (normalized s (pointers dn kd))"
    by (intro down_law) simp_all
next
  assume "stored i u = Some pp \<and> untouched i mid \<and> run_steps u mid = Inr t"
  then show "stored i t = Some pp" by (blast intro: run_keeps_stored)
next
  assume "stored i u \<noteq> None \<and> no_up i mid \<and> run_steps u mid = Inr t"
  then have "i \<in> set (tracked_ids u)" and "no_up i mid" and "run_steps u mid = Inr t"
    by (simp_all only: stored_tracked)
  from run_keeps_tracked [OF this(3,2,1)] show "stored i t \<noteq> None"
    by (simp only: stored_tracked)
next
  assume h: "is_move mv \<and> process_motion_event t mv = Inr t'"
  show "loop_state t mv 0 = t" by simp
  from h show "loop_state t mv (pointerCount mv) = t'" by (blast intro: batch_law(1))
  from h show "\<forall>m n j. m \<le> n \<and> n \<le> pointerCount mv \<and> j \<notin> set (pointer_ids mv m n) \<longrightarrow>
         stored j (loop_state t mv n) = stored j (loop_state t mv m)"
    by (blast intro: batch_law(2))
next
  assume h: "is_move mv \<and> k < pointerCount mv \<and>
    stored (pointer_id (pointers mv k)) t \<noteq> None \<and>
    process_motion_event t mv = Inr t'"
  then have a: "is_move mv" and b: "k < pointerCount mv"
    and c: "pointer_id (pointers mv k) \<in> set (tracked_ids t)"
    and d: "process_motion_event t mv = Inr t'" by (simp_all only: stored_tracked)
  from move_pointer_law(1) [OF a b c d]
  show "\<exists>pp. stored (pointer_id (pointers mv k)) (loop_state t mv k) = Some pp \<and>
         new_effects (loop_state t mv k) (loop_state t mv (Suc k)) =
           [Callback (cooked t mv Move k
              (Some (ndelta (normalized t (pointers mv k)) pp)))] \<and>
         reported_against t t' mv k pp" .
  from move_pointer_law(2) [OF a b c d]
  show "stored (pointer_id (pointers mv k)) (loop_state t mv (Suc k)) =
        Some (normalized t (pointers mv k))" .
next
  let ?i = "pointer_id (pointers dn kd)"
  assume h: "select_event dn = Some (Down, kd) \<and>
    kd \<noteq> GAMEACTIVITY_MAX_NUM_POINTERS_IN_MOTION_EVENT \<and>
    pointer_id (pointers dn kd) \<notin> set (tracked_ids s) \<and>
    process_motion_event s dn = Inr sd \<and>
    untouched (pointer_id (pointers dn kd)) mid \<and> run_steps sd mid = Inr t \<and>
    is_move mv \<and> k < pointerCount mv \<and>
    pointer_id (pointers mv k) = pointer_id (pointers dn kd) \<and>
    pointer_id (pointers dn kd) \<notin> set (pointer_ids mv 0 k) \<and>
    process_motion_event t mv = Inr t'"
  then have sel: "select_event dn = Some (Down, kd)"
    and kd: "kd \<noteq> GAMEACTIVITY_MAX_NUM_POINTERS_IN_MOTION_EVENT"
    and fresh: "?i \<notin> set (tracked_ids s)"
    and down: "process_motion_event s dn = Inr sd"
    and un: "untouched ?i mid" and run: "run_steps sd mid = Inr t"
    and mv: "is_move mv" and k: "k < pointerCount mv"
    and same: "pointer_id (pointers mv k) = ?i"
    and first: "?i \<notin> set (pointer_ids mv 0 k)"
    and move: "process_motion_event t mv = Inr t'" by blast+
  from down_law [OF sel kd fresh down]
  have "stored ?i sd = Some (normalized s (pointers dn kd))" .
  from run_keeps_stored [OF run un this]
  have st: "stored ?i t = Some (normalized s (pointers dn kd))" .
  then have "stored ?i t \<noteq> None" by simp
  then have tr: "pointer_id (pointers mv k) \<in> set (tracked_ids t)"
    by (simp only: stored_tracked same)
  from k have "k \<le> pointerCount mv" by simp
  from batch_law(2) [OF mv move _ this first] st
  have "stored ?i (loop_state t mv k) = Some (normalized s (pointers dn kd))" by simp
  with move_pointer_law(1) [OF mv k tr move] same
  show "reported_against t t' mv k (normalized s (pointers dn kd))" by auto
  from move_pointer_law(2) [OF mv k tr move] same
  show "stored ?i (loop_state t mv (Suc k)) = Some (normalized t (pointers mv k))" by simp
qed

theorem move_delta_against_stored_position_witness:
  "select_event touch_down_a = Some (Down, 0) \<and>
   pointer_id (pointers touch_down_a 0) \<notin> set (tracked_ids surface_100x200) \<and>
   process_motion_event surface_100x200 touch_down_a =
     Inr (state_after surface_100x200 [touch_down_a]) \<and>
   untouched (pointer_id (pointers touch_down_a 0))
     [Motion touch_pointer_down_1, Command True APP_CMD_GAINED_FOCUS, Frame platform_ok] \<and>
   run_steps (state_after surface_100x200 [touch_down_a])
       [Motion touch_pointer_down_1, Command True APP_CMD_GAINED_FOCUS, Frame platform_ok] =
     Inr (steps_after (state_after surface_100x200 [touch_down_a])
       [Motion touch_pointer_down_1, Command True APP_CMD_GAINED_FOCUS, Frame platform_ok]) \<and>
   is_move touch_move_two \<and> 0 < pointerCount touch_move_two \<and>
   pointer_id (pointers touch_move_two 0) = pointer_id (pointers touch_down_a 0) \<and>
   pointer_id (pointers touch_down_a 0) \<notin> set (pointer_ids touch_move_two 0 0) \<and>
   process_motion_event
       (steps_after (state_after surface_100x200 [touch_down_a])
          [Motion touch_pointer_down_1, Command True APP_CMD_GAINED_FOCUS, Frame platform_ok])
       touch_move_two =
     Inr (steps_after (state_after surface_100x200 [touch_down_a])
            [Motion touch_pointer_down_1, Command True APP_CMD_GAINED_FOCUS,
             Frame platform_ok, Motion touch_move_two]) \<and>
   normalized surface_100x200 (pointers touch_down_a 0) =
     \<lparr>pos_x = Finite (1 / 10), pos_y = Finite (1 / 10)\<rparr> \<and>
   reported_against
     (steps_after (state_after surface_100x200 [touch_down_a])
        [Motion touch_pointer_down_1, Command True APP_CMD_GAINED_FOCUS, Frame platform_ok])
     (steps_after (state_after surface_100x200 [touch_down_a])
        [Motion touch_pointer_down_1, Command True APP_CMD_GAINED_FOCUS,
         Frame platform_ok, Motion touch_move_two])
     touch_move_two 0 \<lparr>pos_x = Finite (1 / 10), pos_y = Finite (1 / 10)\<rparr> \<and>
   map_sum id emitted_of
     (run_steps surface_100x200
        [Motion touch_down_a, Motion touch_pointer_down_1, Command True APP_CMD_GAINED_FOCUS,
         Frame platform_ok, Motion touch_move_two]) =
     Inr [(Down, 0, None), (Down, 1, None),
          (Move, 0, Some \<lparr>pos_x = Finite (1 / 5), pos_y = Finite (1 / 10)\<rparr>),
          (Move, 1, Some \<lparr>pos_x = Finite 0, pos_y = Finite (1 / 20)\<rparr>)]"
proof -
  let ?s1 = "state_after surface_100x200 [touch_down_a]"
  let ?mid = "[Motion touch_pointer_down_1, Command True APP_CMD_GAINED_FOCUS,
               Frame platform_ok]"
  let ?t = "steps_after ?s1 ?mid"
  let ?t' = "steps_after ?s1 (?mid @ [Motion touch_move_two])"
  have h1: "select_event touch_down_a = Some (Down, 0)" by (simp add: eval_defs)
  have h2: "(0::nat) \<noteq> GAMEACTIVITY_MAX_NUM_POINTERS_IN_MOTION_EVENT" by simp
  have h3: "pointer_id (pointers touch_down_a 0) \<notin> set (tracked_ids surface_100x200)"
    by (simp add: eval_defs)
  have h4: "process_motion_event surface_100x200 touch_down_a = Inr ?s1"
    by (simp add: eval_defs)
  have h5: "untouched (pointer_id (pointers touch_down_a 0)) ?mid"
    by (simp add: eval_defs step_defs)
  have h6: "run_steps ?s1 ?mid = Inr ?t"
    by (simp add: eval_defs step_defs frame_only_defs)
  have h7: "is_move touch_move_two" and h8: "0 < pointerCount touch_move_two"
    by (simp_all add: eval_defs)
  have h9: "pointer_id (pointers touch_move_two 0) = pointer_id (pointers touch_down_a 0)"
    by (simp add: eval_defs)
  have h10: "pointer_id (pointers touch_down_a 0) \<notin> set (pointer_ids touch_move_two 0 0)"
    by (simp add: pointer_ids_def)
  have h11: "process_motion_event ?t touch_move_two = Inr ?t'"
    by (simp add: eval_defs step_defs frame_only_defs)
  have n: "normalized surface_100x200 (pointers touch_down_a 0) =
     \<lparr>pos_x = Finite (1 / 10), pos_y = Finite (1 / 10)\<rparr>" by (simp add: eval_defs)
  have e: "map_sum id emitted_of
     (run_steps surface_100x200
        [Motion touch_down_a, Motion touch_pointer_down_1, Command True APP_CMD_GAINED_FOCUS,
         Frame platform_ok, Motion touch_move_two]) =
     Inr [(Down, 0, None), (Down, 1, None),
          (Move, 0, Some \<lparr>pos_x = Finite (1 / 5), pos_y = Finite (1 / 10)\<rparr>),
          (Move, 1, Some \<lparr>pos_x = Finite 0, pos_y = Finite (1 / 20)\<rparr>)]"
    by (simp add: eval_defs step_defs frame_only_defs)
  note t = move_delta_against_stored_position
    [where dn = touch_down_a and kd = 0 and s = surface_100x200 and sd = ?s1
       and mid = ?mid and t = ?t and mv = touch_move_two and k = 0 and t' = ?t']
  from t h1 h2 h3 h4 h5 h6 h7 h8 h9 h10 h11
  have "reported_against ?t ?t' touch_move_two 0
          (normalized surface_100x200 (pointers touch_down_a 0))" by blast
  with n have r: "reported_against ?t ?t' touch_move_two 0
          \<lparr>pos_x = Finite (1 / 10), pos_y = Finite (1 / 10)\<rparr>" by (simp only:)
  from h1 h3 h4 h5 h6 h7 h8 h9 h10 h11 n r e show ?thesis by simp
qed

text \<open>
  C1 as stated fails when the id already has a record at the Down: \<open>push_back\<close> appends
  the new record behind the old one, \<open>find_if\<close> keeps finding the old one, and the
  first Move after the second Down is reported against the first Down's position.
\<close>

theorem first_move_after_second_down_counterexample:
  "process_input_events surface_100x200 [touch_down_a, touch_cancel] =
     Inr (state_after surface_100x200 [touch_down_a, touch_cancel]) \<and>
   select_event touch_down_b = Some (Down, 0) \<and>
   pointer_id (pointers touch_down_b 0)
     \<in> set (tracked_ids (state_after surface_100x200 [touch_down_a, touch_cancel])) \<and>
   process_motion_event (state_after surface_100x200 [touch_down_a, touch_cancel]) touch_down_b =
     Inr (state_after surface_100x200 [touch_down_a, touch_cancel, touch_down_b]) \<and>
   is_move touch_move_c \<and>
   pointer_id (pointers touch_move_c 0) = pointer_id (pointers touch_down_b 0) \<and>
   process_motion_event
       (state_after surface_100x200 [touch_down_a, touch_cancel, touch_down_b]) touch_move_c =
     Inr (state_after surface_100x200 [touch_down_a, touch_cancel, touch_down_b, touch_move_c]) \<and>
   \<not> reported_against
       (state_after surface_100x200 [touch_down_a, touch_cancel, touch_down_b])
       (state_after surface_100x200 [touch_down_a, touch_cancel, touch_down_b, touch_move_c])
       touch_move_c 0
       (normalized (state_after surface_100x200 [touch_down_a, touch_cancel])
          (pointers touch_down_b 0)) \<and>
   map_sum id emitted_of
       (process_input_events surface_100x200
          [touch_down_a, touch_cancel, touch_down_b, touch_move_c]) =
     Inr [(Down, 0, None), (Down, 0, None),
          (Move, 0, Some \<lparr>pos_x = Finite (3 / 5), pos_y = Finite (3 / 10)\<rparr>)]"
  by (simp add: eval_defs step_defs new_effects_def)

text \<open>
  C2. \<open>HandleEglError\<close> maps each error code to its repair: success changes nothing;
  context-lost and bad-context destroy and null the context handle only; bad-display
  leaves the three handles null; bad-surface destroys and nulls the surface handle only;
  any other code changes nothing and reports unhandled. The states are given in full, so
  every field that is not named is unchanged (killing the context also clears
  \<open>mHasGLObjects\<close>).
\<close>

theorem HandleEglError_repairs:
  "HandleEglError s EGL_SUCCESS = (True, s) \<and>
   HandleEglError s EGL_CONTEXT_LOST =
     (True, s\<lparr>mHasGLObjects := False, mEglContext := EGL_NO_CONTEXT,
              trace := trace s @
                EglMakeCurrent (mEglDisplay s) EGL_NO_SURFACE EGL_NO_SURFACE EGL_NO_CONTEXT #
                (if mEglContext s \<noteq> EGL_NO_CONTEXT
                 then [EglDestroyContext (mEglDisplay s) (mEglContext s)] else [])\<rparr>) \<and>
   HandleEglError s EGL_BAD_CONTEXT = HandleEglError s EGL_CONTEXT_LOST \<and>
   HandleEglError s EGL_BAD_DISPLAY =
     (True, s\<lparr>mHasGLObjects := False, mEglDisplay := EGL_NO_DISPLAY,
              mEglSurface := EGL_NO_SURFACE, mEglContext := EGL_NO_CONTEXT,
              trace := trace s @
                EglMakeCurrent (mEglDisplay s) EGL_NO_SURFACE EGL_NO_SURFACE EGL_NO_CONTEXT #
                (if mEglContext s \<noteq> EGL_NO_CONTEXT
                 then [EglDestroyContext (mEglDisplay s) (mEglContext s)] else []) @
                EglMakeCurrent (mEglDisplay s) EGL_NO_SURFACE EGL_NO_SURFACE EGL_NO_CONTEXT #
                (if mEglSurface s \<noteq> EGL_NO_SURFACE
                 then [EglDestroySurface (mEglDisplay s) (mEglSurface s)] else []) @
                (if mEglDisplay s \<noteq> EGL_NO_DISPLAY
                 then [EglTerminate (mEglDisplay s)] else [])\<rparr>) \<and>
   HandleEglError s EGL_BAD_SURFACE =
     (True, s\<lparr>mEglSurface := EGL_NO_SURFACE,
              trace := trace s @
                EglMakeCurrent (mEglDisplay s) EGL_NO_SURFACE EGL_NO_SURFACE EGL_NO_CONTEXT #
                (if mEglSurface s \<noteq> EGL_NO_SURFACE
                 then [EglDestroySurface (mEglDisplay s) (mEglSurface s)] else [])\<rparr>) \<and>
   (err \<notin> {EGL_SUCCESS, EGL_CONTEXT_LOST, EGL_BAD_CONTEXT, EGL_BAD_DISPLAY, EGL_BAD_SURFACE}
      \<longrightarrow> HandleEglError s err = (False, s))"
  by (simp add: HandleEglError_def KillContext_eq KillDisplay_eq KillSurface_eq)

theorem HandleEglError_repairs_witness:
  "(0x3001 :: EGLint) \<notin>
     {EGL_SUCCESS, EGL_CONTEXT_LOST, EGL_BAD_CONTEXT, EGL_BAD_DISPLAY, EGL_BAD_SURFACE} \<and>
   HandleEglError (frame_after NativeEngine_ctor platform_ok) 0x3001 =
     (False, frame_after NativeEngine_ctor platform_ok) \<and>
   handles (frame_after NativeEngine_ctor platform_ok) = (1, 2, 3) \<and>
   handles (snd (HandleEglError (frame_after NativeEngine_ctor platform_ok) EGL_CONTEXT_LOST)) =
     (1, 2, 0) \<and>
   handles (snd (HandleEglError (frame_after NativeEngine_ctor platform_ok) EGL_BAD_CONTEXT)) =
     (1, 2, 0) \<and>
   handles (snd (HandleEglError (frame_after NativeEngine_ctor platform_ok) EGL_BAD_DISPLAY)) =
     (0, 0, 0) \<and>
   handles (snd (HandleEglError (frame_after NativeEngine_ctor platform_ok) EGL_BAD_SURFACE)) =
     (1, 0, 3)"
proof -
  have h: "(0x3001 :: EGLint) \<notin>
     {EGL_SUCCESS, EGL_CONTEXT_LOST, EGL_BAD_CONTEXT, EGL_BAD_DISPLAY, EGL_BAD_SURFACE}"
    by simp
  have k: "handles (frame_after NativeEngine_ctor platform_ok) = (1, 2, 3)"
    by (simp add: frame_defs handles_def)
  note t = HandleEglError_repairs [of "frame_after NativeEngine_ctor platform_ok" "0x3001"]
  from t h have a: "HandleEglError (frame_after NativeEngine_ctor platform_ok) 0x3001 =
     (False, frame_after NativeEngine_ctor platform_ok)" by blast
  from t k have b: "handles (snd (HandleEglError (frame_after NativeEngine_ctor platform_ok)
     EGL_CONTEXT_LOST)) = (1, 2, 0)" by (simp add: handles_def)
  from t k have c: "handles (snd (HandleEglError (frame_after NativeEngine_ctor platform_ok)
     EGL_BAD_CONTEXT)) = (1, 2, 0)" by (simp add: handles_def)
  from t k have d: "handles (snd (HandleEglError (frame_after NativeEngine_ctor platform_ok)
     EGL_BAD_DISPLAY)) = (0, 0, 0)" by (simp add: handles_def)
  from t k have e: "handles (snd (HandleEglError (frame_after NativeEngine_ctor platform_ok)
     EGL_BAD_SURFACE)) = (1, 0, 3)" by (simp add: handles_def)
  from h a k b c d e show ?thesis by blast
qed

text \<open>
  C3 (amended). Starting from a tracker with at most one record per id, the tracker holds at
  most one record per id after every prefix of a run of pointer events in which no Down
  is processed for an id that is tracked at that moment. The code does not look for an
  existing record on Down.
\<close>

theorem one_record_per_id_without_redundant_down:
  assumes "distinct (tracked_ids s)" and "no_redundant_down s mes"
    and "process_input_events s (take n mes) = Inr s'"
  shows "distinct (tracked_ids s')"
  using assms by (rule process_input_events_distinct)

theorem one_record_per_id_without_redundant_down_witness:
  "distinct (tracked_ids NativeEngine_ctor) \<and>
   no_redundant_down NativeEngine_ctor [touch_down_a, touch_move_c, touch_up, touch_down_b] \<and>
   process_input_events NativeEngine_ctor
       (take 4 [touch_down_a, touch_move_c, touch_up, touch_down_b]) =
     Inr (state_after NativeEngine_ctor [touch_down_a, touch_move_c, touch_up, touch_down_b]) \<and>
   distinct (tracked_ids
     (state_after NativeEngine_ctor [touch_down_a, touch_move_c, touch_up, touch_down_b]))"
proof -
  have h1: "distinct (tracked_ids NativeEngine_ctor)" by (simp add: eval_defs)
  have h2: "no_redundant_down NativeEngine_ctor
              [touch_down_a, touch_move_c, touch_up, touch_down_b]"
    by (simp add: eval_defs)
  have h3: "process_input_events NativeEngine_ctor
       (take 4 [touch_down_a, touch_move_c, touch_up, touch_down_b]) =
     Inr (state_after NativeEngine_ctor [touch_down_a, touch_move_c, touch_up, touch_down_b])"
    by (simp add: eval_defs)
  from one_record_per_id_without_redundant_down [OF h1 h2 h3] h1 h2 h3
  show ?thesis by blast
qed

text \<open>
  C3 as stated fails: from the empty tracker of a new engine, a Down, a Cancel (which the
  code ignores) and the Down of the next gesture leave two records for id 0.
\<close>

theorem second_record_for_tracked_id_counterexample:
  "map_sum id tracked_ids
     (process_input_events NativeEngine_ctor [touch_down_a, touch_cancel, touch_down_b]) =
   Inr [0, 0] \<and>
   \<not> distinct [0 :: 32 word, 0]"
  by (simp add: eval_defs)

text \<open>
  C4 (amended). Processing an Up removes exactly the records whose id is the id of the
  event: at most one when the tracker holds at most one record per id, all of them
  otherwise. An Up whose id matches no record leaves the tracker unchanged and logs the
  miss. (With \<open>pointerIndex\<close> equal to the array bound, nothing is processed at all.)
\<close>

theorem up_removes_matching_records:
  assumes "select_event me = Some (Up, k)" and "process_motion_event s me = Inr s'"
  shows "(k = GAMEACTIVITY_MAX_NUM_POINTERS_IN_MOTION_EVENT \<longrightarrow> s' = s) \<and>
         (k \<noteq> GAMEACTIVITY_MAX_NUM_POINTERS_IN_MOTION_EVENT \<longrightarrow>
            previous_positions s' =
              filter (\<lambda>el. fst el \<noteq> pointer_id (pointers me k)) (previous_positions s) \<and>
            (distinct (tracked_ids s) \<longrightarrow>
               length (previous_positions s) \<le> Suc (length (previous_positions s'))) \<and>
            (pointer_id (pointers me k) \<notin> set (tracked_ids s) \<longrightarrow>
               previous_positions s' = previous_positions s \<and>
               LogE ''noooooooooooooo'' \<in> set (drop (length (trace s)) (trace s'))))"
proof -
  from assms have run: "cook_event s me Up k = Inr s'"
    by (simp add: select_event_process)
  show ?thesis
  proof (cases "k = GAMEACTIVITY_MAX_NUM_POINTERS_IN_MOTION_EVENT")
    case True
    with run show ?thesis by (simp add: cook_event_skip)
  next
    case False
    note up = cook_event_Up [OF run False]
    from up(1) have d: "distinct (tracked_ids s) \<Longrightarrow>
               length (previous_positions s) \<le> Suc (length (previous_positions s'))"
      by (simp add: tracked_ids_def length_filter_distinct)
    from up(1) have u: "pointer_id (pointers me k) \<notin> set (tracked_ids s) \<Longrightarrow>
               previous_positions s' = previous_positions s"
      by (simp add: tracked_ids_def filter_untracked)
    from up(2) have l: "pointer_id (pointers me k) \<notin> set (tracked_ids s) \<Longrightarrow>
               LogE ''noooooooooooooo'' \<in> set (drop (length (trace s)) (trace s'))"
      by simp
    from False up(1) d u l show ?thesis by blast
  qed
qed

theorem up_removes_matching_records_witness:
  "select_event touch_up = Some (Up, 0) \<and>
   process_motion_event (state_after surface_100x200 [touch_down_a]) touch_up =
     Inr (state_after surface_100x200 [touch_down_a, touch_up]) \<and>
   distinct (tracked_ids (state_after surface_100x200 [touch_down_a])) \<and>
   length (previous_positions (state_after surface_100x200 [touch_down_a])) = 1 \<and>
   previous_positions (state_after surface_100x200 [touch_down_a, touch_up]) = [] \<and>
   process_motion_event surface_100x200 touch_up = Inr (state_after surface_100x200 [touch_up]) \<and>
   pointer_id (pointers touch_up 0) \<notin> set (tracked_ids surface_100x200) \<and>
   previous_positions (state_after surface_100x200 [touch_up]) =
     previous_positions surface_100x200 \<and>
   LogE ''noooooooooooooo'' \<in> set (drop (length (trace surface_100x200))
                                      (trace (state_after surface_100x200 [touch_up])))"
proof -
  have h1: "select_event touch_up = Some (Up, 0)" by (simp add: eval_defs)
  have h2: "process_motion_event (state_after surface_100x200 [touch_down_a]) touch_up =
     Inr (state_after surface_100x200 [touch_down_a, touch_up])" by (simp add: eval_defs)
  have h3: "process_motion_event surface_100x200 touch_up =
     Inr (state_after surface_100x200 [touch_up])" by (simp add: eval_defs)
  have h4: "distinct (tracked_ids (state_after surface_100x200 [touch_down_a]))"
    by (simp add: eval_defs)
  have h5: "pointer_id (pointers touch_up 0) \<notin> set (tracked_ids surface_100x200)"
    by (simp add: eval_defs)
  have h6: "length (previous_positions (state_after surface_100x200 [touch_down_a])) = 1"
    by (simp add: eval_defs)
  have h7: "previous_positions (state_after surface_100x200 [touch_down_a, touch_up]) = []"
    by (simp add: eval_defs)
  have ne: "(0::nat) \<noteq> GAMEACTIVITY_MAX_NUM_POINTERS_IN_MOTION_EVENT" by simp
  from up_removes_matching_records [OF h1 h3] ne h5
  have "previous_positions (state_after surface_100x200 [touch_up]) =
          previous_positions surface_100x200 \<and>
        LogE ''noooooooooooooo'' \<in> set (drop (length (trace surface_100x200))
                                      (trace (state_after surface_100x200 [touch_up])))"
    by blast
  with h1 h2 h3 h4 h5 h6 h7 show ?thesis by blast
qed

text \<open>
  C4 as stated fails on a tracker that holds two records for the id: \<open>remove_if\<close> removes
  both.
\<close>

theorem up_removes_two_records_counterexample:
  "map_sum id tracked_ids
     (process_input_events surface_100x200 [touch_down_a, touch_cancel, touch_down_b]) =
   Inr [0, 0] \<and>
   select_event touch_up = Some (Up, 0) \<and>
   map_sum id tracked_ids
     (process_input_events surface_100x200
        [touch_down_a, touch_cancel, touch_down_b, touch_up]) =
   Inr []"
  by (simp add: eval_defs)

text \<open>
  C5. The code at an untracked pointer of a Move batch: the miss is logged, and the callback
  is called all the same, outside the \<open>else\<close> branch. With a record for id 0 only, the
  Move of the fingers 0 and 1 reaches the callback for both, finger 1 with the delta that
  was computed for finger 0, and the triangle offsets move twice. When the untracked
  pointer is the first of the batch, the callback reads a delta that was never written.
\<close>

theorem untracked_move_pointer_reaches_callback:
  "map_sum id emitted_of
     (process_input_events surface_100x200 [touch_down_a, touch_move_two]) =
   Inr [(Down, 0, None),
        (Move, 0, Some \<lparr>pos_x = Finite (1 / 5), pos_y = Finite (1 / 10)\<rparr>),
        (Move, 1, Some \<lparr>pos_x = Finite (1 / 5), pos_y = Finite (1 / 10)\<rparr>)] \<and>
   map_sum id tracked_ids
     (process_input_events surface_100x200 [touch_down_a, touch_move_two]) = Inr [0] \<and>
   map_sum id orig_x
     (process_input_events surface_100x200 [touch_down_a, touch_move_two]) =
   Inr [Finite (2 / 5), Finite (- 1 / 10), Finite (9 / 10)] \<and>
   process_input_events surface_100x200 [touch_move_c] = Inl IndeterminateRead"
  by (simp add: eval_defs)

text \<open>
  C6 (amended). When an Up is processed, the records of its id are removed first (and a
  miss is logged), and the event is given to the callback after that.
\<close>

theorem up_removes_then_emits:
  assumes "select_event me = Some (Up, k)"
    and "k \<noteq> GAMEACTIVITY_MAX_NUM_POINTERS_IN_MOTION_EVENT"
    and "process_motion_event s me = Inr s'"
  shows "trace s' = trace s @
           TrackerRemoveIf (pointer_id (pointers me k)) #
           (if pointer_id (pointers me k) \<in> set (tracked_ids s) then []
            else [LogE ''noooooooooooooo'']) @
           [Callback (cooked s me Up k None)] \<and>
         occurs_before is_remove_if is_up_callback (drop (length (trace s)) (trace s')) \<and>
         \<not> occurs_before is_up_callback is_remove_if (drop (length (trace s)) (trace s'))"
proof -
  from assms(1,3) have run: "cook_event s me Up k = Inr s'"
    by (simp add: select_event_process)
  from cook_event_Up(2) [OF run assms(2)] show ?thesis by simp
qed

theorem up_removes_then_emits_witness:
  "select_event touch_up = Some (Up, 0) \<and>
   process_motion_event (state_after surface_100x200 [touch_down_a]) touch_up =
     Inr (state_after surface_100x200 [touch_down_a, touch_up]) \<and>
   drop (length (trace (state_after surface_100x200 [touch_down_a])))
     (trace (state_after surface_100x200 [touch_down_a, touch_up])) =
   [TrackerRemoveIf 0,
    Callback (cooked (state_after surface_100x200 [touch_down_a]) touch_up Up 0 None)]"
proof -
  have h1: "select_event touch_up = Some (Up, 0)" by (simp add: eval_defs)
  have h2: "(0::nat) \<noteq> GAMEACTIVITY_MAX_NUM_POINTERS_IN_MOTION_EVENT" by simp
  have h3: "process_motion_event (state_after surface_100x200 [touch_down_a]) touch_up =
     Inr (state_after surface_100x200 [touch_down_a, touch_up])" by (simp add: eval_defs)
  have h4: "pointer_id (pointers touch_up 0) = 0" by (simp add: eval_defs)
  have h5: "0 \<in> set (tracked_ids (state_after surface_100x200 [touch_down_a]))"
    by (simp add: eval_defs)
  from up_removes_then_emits [OF h1 h2 h3] h4 h5
  have "drop (length (trace (state_after surface_100x200 [touch_down_a])))
     (trace (state_after surface_100x200 [touch_down_a, touch_up])) =
   [TrackerRemoveIf 0,
    Callback (cooked (state_after surface_100x200 [touch_down_a]) touch_up Up 0 None)]"
    by simp
  with h1 h3 show ?thesis by blast
qed

text \<open>
  C6 as stated fails: in the run of a Down and an Up on a new tracker, no Up event reaches
  the callback before \<open>remove_if\<close> is called; the removal comes first.
\<close>

theorem up_emitted_before_removal_counterexample:
  "map_sum id emit_then_remove
     (process_input_events surface_100x200 [touch_down_a, touch_up]) = Inr False \<and>
   map_sum id remove_then_emit
     (process_input_events surface_100x200 [touch_down_a, touch_up]) = Inr True \<and>
   map_sum id emitted_of
     (process_input_events surface_100x200 [touch_down_a, touch_up]) =
     Inr [(Down, 0, None), (Up, 0, None)]"
  by (simp add: eval_defs)

text \<open>
  C7. In a \<open>DoFrame\<close> whose preparation succeeds and whose queried width or height differs
  from the cached one, the cache takes the queried size, the viewport is resized, and the
  iteration issues neither \<open>glDrawArrays\<close> nor \<open>eglSwapBuffers\<close>. \<open>glDrawArrays\<close> is
  issued only in an iteration whose queried size equals the cached one, and then it is.
\<close>

theorem resize_frame_never_draws:
  assumes "DoFrame s pf = Inr s'"
  shows "(\<forall>s1 w h. PrepareToRender s pf = Inr (True, s1) \<and>
            eglQuerySurface_width pf = Some w \<and> eglQuerySurface_height pf = Some h \<and>
            (w \<noteq> mSurfWidth s \<or> h \<noteq> mSurfHeight s) \<longrightarrow>
            mSurfWidth s' = w \<and> mSurfHeight s' = h \<and>
            GlViewport 0 0 w h \<in> set (new_effects s s') \<and>
            GlDrawArrays \<notin> set (new_effects s s') \<and>
            (\<forall>d sf. EglSwapBuffers d sf \<notin> set (new_effects s s'))) \<and>
         (GlDrawArrays \<in> set (new_effects s s') \<longleftrightarrow>
            (\<exists>s1. PrepareToRender s pf = Inr (True, s1)) \<and>
            eglQuerySurface_width pf = Some (mSurfWidth s) \<and>
            eglQuerySurface_height pf = Some (mSurfHeight s))"
  using assms
proof (cases rule: DoFrame_cases)
  case (not_ready s1)
  from PrepareToRender_extends [OF not_ready(1)] not_ready(2)
  have "list_all quiet (new_effects s s')" by (simp add: extends_new_effects)
  from quiet_excludes(1) [OF this] not_ready(1) show ?thesis by simp
next
  case (resized s1 w h)
  note ext = PrepareToRender_extends [OF resized(1)]
  from new_effects_emit_update [OF ext] resized(5)
  have n: "new_effects s s' = new_effects s s1 @
             [EglQuerySurface (mEglDisplay s1) (mEglSurface s1),
              EglQuerySurface (mEglDisplay s1) (mEglSurface s1)] @ [GlViewport 0 0 w h]"
    by (simp only:)
  from ext have q: "list_all quiet (new_effects s s1)" by (rule extends_new_effects)
  from n quiet_excludes(1) [OF q] have nodraw: "GlDrawArrays \<notin> set (new_effects s s')"
    by simp
  from n quiet_excludes(2) [OF q] have noswap: "\<And>d sf. EglSwapBuffers d sf \<notin> set (new_effects s s')"
    by simp
  from n have vp: "GlViewport 0 0 w h \<in> set (new_effects s s')" by simp
  from resized(5) have dims: "mSurfWidth s' = w" "mSurfHeight s' = h" by simp_all
  from resized(1-4) nodraw noswap vp dims show ?thesis by auto
next
  case (rendered s1)
  let ?s2 = "emit [EglQuerySurface (mEglDisplay s1) (mEglSurface s1),
                   EglQuerySurface (mEglDisplay s1) (mEglSurface s1)] s1"
  from PrepareToRender_extends [OF rendered(1)]
  have "extends (\<lambda>e. True) s s1" by (rule extends_weaken)
  then have e2: "extends (\<lambda>e. True) s ?s2" by (simp add: extends_emit_after)
  from render_draws [of ?s2 pf] obtain s3 where
    a: "extends (\<lambda>e. True) ?s2 s3" and b: "GlDrawArrays \<in> set (new_effects ?s2 s3)"
    and c: "extends (\<lambda>e. True) s3 (render ?s2 pf)" by blast
  from b new_effects_trans [OF e2 a] have "GlDrawArrays \<in> set (new_effects s s3)" by simp
  from extends_mem [OF extends_trans [OF e2 a] c this] rendered(4)
  have "GlDrawArrays \<in> set (new_effects s s')" by simp
  with rendered(1-3) show ?thesis by simp
qed

theorem resize_frame_never_draws_witness:
  "DoFrame NativeEngine_ctor platform_ok = Inr (frame_after NativeEngine_ctor platform_ok) \<and>
   eglQuerySurface_width platform_ok = Some 100 \<and>
   eglQuerySurface_height platform_ok = Some 200 \<and>
   mSurfWidth NativeEngine_ctor = 0 \<and>
   mSurfWidth (frame_after NativeEngine_ctor platform_ok) = 100 \<and>
   mSurfHeight (frame_after NativeEngine_ctor platform_ok) = 200 \<and>
   GlViewport 0 0 100 200
     \<in> set (new_effects NativeEngine_ctor (frame_after NativeEngine_ctor platform_ok)) \<and>
   GlDrawArrays
     \<notin> set (new_effects NativeEngine_ctor (frame_after NativeEngine_ctor platform_ok)) \<and>
   EglSwapBuffers 1 2
     \<notin> set (new_effects NativeEngine_ctor (frame_after NativeEngine_ctor platform_ok)) \<and>
   DoFrame (frame_after NativeEngine_ctor platform_ok) platform_ok =
     Inr (frame_after (frame_after NativeEngine_ctor platform_ok) platform_ok) \<and>
   GlDrawArrays
     \<in> set (new_effects (frame_after NativeEngine_ctor platform_ok)
               (frame_after (frame_after NativeEngine_ctor platform_ok) platform_ok))"
proof -
  let ?s1 = "frame_after NativeEngine_ctor platform_ok"
  let ?s2 = "frame_after ?s1 platform_ok"
  have f1: "DoFrame NativeEngine_ctor platform_ok = Inr ?s1" by (simp add: frame_defs)
  have f2: "DoFrame ?s1 platform_ok = Inr ?s2" by (simp add: frame_defs)
  have w: "eglQuerySurface_width platform_ok = Some 100"
    and h: "eglQuerySurface_height platform_ok = Some 200"
    by (simp_all add: platform_ok_def)
  have c: "mSurfWidth NativeEngine_ctor = 0" by (simp add: NativeEngine_ctor_def)
  have p1: "\<exists>s1. PrepareToRender NativeEngine_ctor platform_ok = Inr (True, s1)"
    by (simp add: frame_defs)
  have p2: "\<exists>s1. PrepareToRender ?s1 platform_ok = Inr (True, s1)"
    by (simp add: frame_defs)
  have d: "mSurfWidth ?s1 = 100 \<and> mSurfHeight ?s1 = 200" by (simp add: frame_defs)
  from resize_frame_never_draws [OF f1] p1 w h c
  have r1: "mSurfWidth ?s1 = 100 \<and> mSurfHeight ?s1 = 200 \<and>
            GlViewport 0 0 100 200 \<in> set (new_effects NativeEngine_ctor ?s1) \<and>
            GlDrawArrays \<notin> set (new_effects NativeEngine_ctor ?s1) \<and>
            EglSwapBuffers 1 2 \<notin> set (new_effects NativeEngine_ctor ?s1)"
    by (metis zero_neq_numeral)
  from resize_frame_never_draws [OF f2] p2 w h d
  have r2: "GlDrawArrays \<in> set (new_effects ?s1 ?s2)" by simp
  from f1 f2 w h c r1 r2 show ?thesis by blast
qed

text \<open>
  C8. In every state that the operations of the engine reach from the state the
  constructor builds, the surface and context handles are null whenever the display
  handle is null. \<open>KillDisplay\<close> unbinds and destroys the context, then unbinds and
  destroys the surface, and terminates the display last.
\<close>

theorem surface_and_context_need_display:
  "(reachable s \<longrightarrow>
      (mEglDisplay s = EGL_NO_DISPLAY \<longrightarrow>
         mEglSurface s = EGL_NO_SURFACE \<and> mEglContext s = EGL_NO_CONTEXT)) \<and>
   new_effects s (KillDisplay s) =
     EglMakeCurrent (mEglDisplay s) EGL_NO_SURFACE EGL_NO_SURFACE EGL_NO_CONTEXT #
     (if mEglContext s \<noteq> EGL_NO_CONTEXT
      then [EglDestroyContext (mEglDisplay s) (mEglContext s)] else []) @
     EglMakeCurrent (mEglDisplay s) EGL_NO_SURFACE EGL_NO_SURFACE EGL_NO_CONTEXT #
     (if mEglSurface s \<noteq> EGL_NO_SURFACE
      then [EglDestroySurface (mEglDisplay s) (mEglSurface s)] else []) @
     (if mEglDisplay s \<noteq> EGL_NO_DISPLAY then [EglTerminate (mEglDisplay s)] else []) \<and>
   handles (KillDisplay s) = (EGL_NO_DISPLAY, EGL_NO_SURFACE, EGL_NO_CONTEXT)"
proof (intro conjI impI)
  assume "reachable s" and "mEglDisplay s = EGL_NO_DISPLAY"
  with reachable_inv [of s]
  show "mEglSurface s = EGL_NO_SURFACE" and "mEglContext s = EGL_NO_CONTEXT"
    by (simp_all add: egl_invariant_def)
next
  show "new_effects s (KillDisplay s) =
     EglMakeCurrent (mEglDisplay s) EGL_NO_SURFACE EGL_NO_SURFACE EGL_NO_CONTEXT #
     (if mEglContext s \<noteq> EGL_NO_CONTEXT
      then [EglDestroyContext (mEglDisplay s) (mEglContext s)] else []) @
     EglMakeCurrent (mEglDisplay s) EGL_NO_SURFACE EGL_NO_SURFACE EGL_NO_CONTEXT #
     (if mEglSurface s \<noteq> EGL_NO_SURFACE
      then [EglDestroySurface (mEglDisplay s) (mEglSurface s)] else []) @
     (if mEglDisplay s \<noteq> EGL_NO_DISPLAY then [EglTerminate (mEglDisplay s)] else [])"
    by (simp add: KillDisplay_eq new_effects_def)
next
  show "handles (KillDisplay s) = (EGL_NO_DISPLAY, EGL_NO_SURFACE, EGL_NO_CONTEXT)"
    by (simp add: KillDisplay_eq handles_def)
qed

theorem surface_and_context_need_display_witness:
  "reachable (HandleCommand (frame_after NativeEngine_ctor platform_ok) True APP_CMD_TERM_WINDOW) \<and>
   reachable (KillDisplay (frame_after NativeEngine_ctor platform_ok)) \<and>
   mEglDisplay (KillDisplay (frame_after NativeEngine_ctor platform_ok)) = EGL_NO_DISPLAY \<and>
   mEglSurface (KillDisplay (frame_after NativeEngine_ctor platform_ok)) = EGL_NO_SURFACE \<and>
   mEglContext (KillDisplay (frame_after NativeEngine_ctor platform_ok)) = EGL_NO_CONTEXT \<and>
   new_effects (frame_after NativeEngine_ctor platform_ok)
     (KillDisplay (frame_after NativeEngine_ctor platform_ok)) =
   [EglMakeCurrent 1 0 0 0, EglDestroyContext 1 3, EglMakeCurrent 1 0 0 0,
    EglDestroySurface 1 2, EglTerminate 1]"
proof -
  let ?s1 = "frame_after NativeEngine_ctor platform_ok"
  have f1: "DoFrame NativeEngine_ctor platform_ok = Inr ?s1" by (simp add: frame_defs)
  from reachable.frame [OF reachable.constructed f1] have r1: "reachable ?s1" .
  then have r2: "reachable (KillDisplay ?s1)" by (rule reachable.kill_display)
  from r1 have r3: "reachable (HandleCommand ?s1 True APP_CMD_TERM_WINDOW)"
    by (rule reachable.command)
  have k: "handles ?s1 = (1, 2, 3)" by (simp add: frame_defs handles_def)
  note t = surface_and_context_need_display
  from t [of ?s1] k have n: "new_effects ?s1 (KillDisplay ?s1) =
   [EglMakeCurrent 1 0 0 0, EglDestroyContext 1 3, EglMakeCurrent 1 0 0 0,
    EglDestroySurface 1 2, EglTerminate 1]" by (simp add: handles_def)
  from t [of ?s1] have d: "mEglDisplay (KillDisplay ?s1) = EGL_NO_DISPLAY"
    by (simp add: handles_def)
  from t [of "KillDisplay ?s1"] r2 d
  have "mEglSurface (KillDisplay ?s1) = EGL_NO_SURFACE \<and>
        mEglContext (KillDisplay ?s1) = EGL_NO_CONTEXT" by blast
  with r2 r3 d n show ?thesis by blast
qed

text \<open>
  C9. The cached surface size is zero in the state the constructor builds; handling
  commands or processing input leaves it as it is, and \<open>DoFrame\<close> changes it only in its
  resize check, to the size it queried. Every Down or Up with a pointer index inside the
  array and every pointer of a Move that is processed reaches the callback as an event
  whose normalized position is the raw axes of the pointer divided by the cached size,
  without a guard, and every event that reaches the callback is of that form. While the
  cached size is zero the two normalized coordinates are infinities or NaN, never numbers
  of [0,1]; so it is for all input processed after any commands in an engine that has not
  run a frame.
\<close>

theorem normalization_divides_by_zero_until_first_resize:
  "mSurfWidth NativeEngine_ctor = 0 \<and> mSurfHeight NativeEngine_ctor = 0 \<and>
   mSurfWidth (HandleCommand s window c) = mSurfWidth s \<and>
   mSurfHeight (HandleCommand s window c) = mSurfHeight s \<and>
   (process_input_events s mes = Inr s' \<longrightarrow>
      mSurfWidth s' = mSurfWidth s \<and> mSurfHeight s' = mSurfHeight s \<and>
      (\<forall>ev. Callback ev \<in> set (new_effects s s') \<longrightarrow>
         ev_max ev = \<lparr>pos_x = float_of_int (mSurfWidth s),
                       pos_y = float_of_int (mSurfHeight s)\<rparr> \<and>
         norm_pos ev = \<lparr>pos_x = fdiv (pos_x (ev_pos ev)) (float_of_int (mSurfWidth s)),
                         pos_y = fdiv (pos_y (ev_pos ev)) (float_of_int (mSurfHeight s))\<rparr> \<and>
         (mSurfWidth s = 0 \<and> mSurfHeight s = 0 \<longrightarrow>
            \<not> in_unit_interval (pos_x (norm_pos ev)) \<and>
            \<not> in_unit_interval (pos_y (norm_pos ev))))) \<and>
   (DoFrame s pf = Inr s'' \<and>
    (mSurfWidth s'' \<noteq> mSurfWidth s \<or> mSurfHeight s'' \<noteq> mSurfHeight s) \<longrightarrow>
      eglQuerySurface_width pf = Some (mSurfWidth s'') \<and>
      eglQuerySurface_height pf = Some (mSurfHeight s'') \<and>
      GlViewport 0 0 (mSurfWidth s'') (mSurfHeight s'') \<in> set (new_effects s s'')) \<and>
   mSurfWidth (handle_commands NativeEngine_ctor cmds) = 0 \<and>
   mSurfHeight (handle_commands NativeEngine_ctor cmds) = 0 \<and>
   (process_input_events (handle_commands NativeEngine_ctor cmds) mes = Inr t \<longrightarrow>
      (\<forall>ev. Callback ev \<in> set (trace t) \<longrightarrow>
         \<not> in_unit_interval (pos_x (norm_pos ev)) \<and>
         \<not> in_unit_interval (pos_y (norm_pos ev)))) \<and>
   (process_input_events s mes = Inr s' \<and> me \<in> set mes \<and>
    select_event me = Some (ty, k) \<and>
    k \<noteq> GAMEACTIVITY_MAX_NUM_POINTERS_IN_MOTION_EVENT \<longrightarrow>
      Callback (cooked s me ty k None) \<in> set (new_effects s s')) \<and>
   (process_input_events s mes = Inr s' \<and> me \<in> set mes \<and>
    is_move me \<and> k < pointerCount me \<longrightarrow>
      (\<exists>nd. Callback (cooked s me Move k nd) \<in> set (new_effects s s'))) \<and>
   ev_pos (cooked s me ty k nd) =
     \<lparr>pos_x = axis_x (pointers me k), pos_y = axis_y (pointers me k)\<rparr> \<and>
   norm_pos (cooked s me ty k nd) =
     \<lparr>pos_x = fdiv (axis_x (pointers me k)) (float_of_int (mSurfWidth s)),
      pos_y = fdiv (axis_y (pointers me k)) (float_of_int (mSurfHeight s))\<rparr> \<and>
   (mSurfWidth s = 0 \<and> mSurfHeight s = 0 \<longrightarrow>
      \<not> in_unit_interval (pos_x (norm_pos (cooked s me ty k nd))) \<and>
      \<not> in_unit_interval (pos_y (norm_pos (cooked s me ty k nd))))"
proof (intro conjI impI allI)
  show "mSurfWidth NativeEngine_ctor = 0" and "mSurfHeight NativeEngine_ctor = 0"
    by (simp_all add: NativeEngine_ctor_def)
next
  from extends_dims [OF HandleCommand_extends [of s window c]]
  show "mSurfWidth (HandleCommand s window c) = mSurfWidth s"
    and "mSurfHeight (HandleCommand s window c) = mSurfHeight s" by simp_all
next
  assume run: "process_input_events s mes = Inr s'"
  note ext = process_input_events_grows [OF run]
  from grows_dims [OF ext]
  show "mSurfWidth s' = mSurfWidth s" and "mSurfHeight s' = mSurfHeight s" by simp_all
  fix ev
  assume cb: "Callback ev \<in> set (new_effects s s')"
  from unsized_callbacks(1) [OF ext cb]
  show "ev_max ev = \<lparr>pos_x = float_of_int (mSurfWidth s),
                       pos_y = float_of_int (mSurfHeight s)\<rparr>" .
  from unsized_callbacks(2) [OF ext cb]
  show "norm_pos ev = \<lparr>pos_x = fdiv (pos_x (ev_pos ev)) (float_of_int (mSurfWidth s)),
                         pos_y = fdiv (pos_y (ev_pos ev)) (float_of_int (mSurfHeight s))\<rparr>" .
  assume z: "mSurfWidth s = 0 \<and> mSurfHeight s = 0"
  with unsized_callbacks(3) [OF ext cb]
  show "\<not> in_unit_interval (pos_x (norm_pos ev))"
    and "\<not> in_unit_interval (pos_y (norm_pos ev))" by simp_all
next
  assume "DoFrame s pf = Inr s'' \<and>
    (mSurfWidth s'' \<noteq> mSurfWidth s \<or> mSurfHeight s'' \<noteq> mSurfHeight s)"
  then have "eglQuerySurface_width pf = Some (mSurfWidth s'') \<and>
      eglQuerySurface_height pf = Some (mSurfHeight s'') \<and>
      GlViewport 0 0 (mSurfWidth s'') (mSurfHeight s'') \<in> set (new_effects s s'')"
    by (intro DoFrame_dims) simp_all
  then show "eglQuerySurface_width pf = Some (mSurfWidth s'')"
    and "eglQuerySurface_height pf = Some (mSurfHeight s'')"
    and "GlViewport 0 0 (mSurfWidth s'') (mSurfHeight s'') \<in> set (new_effects s s'')"
    by simp_all
next
  from extends_dims [OF handle_commands_extends [of NativeEngine_ctor cmds]]
  show "mSurfWidth (handle_commands NativeEngine_ctor cmds) = 0"
    and "mSurfHeight (handle_commands NativeEngine_ctor cmds) = 0"
    by (simp_all add: NativeEngine_ctor_def)
next
  fix ev
  assume run: "process_input_events (handle_commands NativeEngine_ctor cmds) mes = Inr t"
    and cb: "Callback ev \<in> set (trace t)"
  let ?s0 = "handle_commands NativeEngine_ctor cmds"
  note e0 = handle_commands_extends [of NativeEngine_ctor cmds]
  from extends_dims [OF e0] have z: "mSurfWidth ?s0 = 0" "mSurfHeight ?s0 = 0"
    by (simp_all add: NativeEngine_ctor_def)
  from extends_trace [OF e0] have t0: "trace ?s0 = new_effects NativeEngine_ctor ?s0"
    by (simp add: NativeEngine_ctor_def)
  from quiet_excludes(4) [OF extends_new_effects [OF e0]] t0
  have no: "Callback ev \<notin> set (trace ?s0)" by simp
  note ext = process_input_events_grows [OF run]
  from grows_trace [OF ext] cb no have "Callback ev \<in> set (new_effects ?s0 t)" by auto
  from unsized_callbacks(3) [OF ext this z]
  show "\<not> in_unit_interval (pos_x (norm_pos ev))"
    and "\<not> in_unit_interval (pos_y (norm_pos ev))" by simp_all
next
  assume "process_input_events s mes = Inr s' \<and> me \<in> set mes \<and>
    select_event me = Some (ty, k) \<and>
    k \<noteq> GAMEACTIVITY_MAX_NUM_POINTERS_IN_MOTION_EVENT"
  then show "Callback (cooked s me ty k None) \<in> set (new_effects s s')"
    by (blast intro: input_event_emits(1))
next
  assume "process_input_events s mes = Inr s' \<and> me \<in> set mes \<and>
    is_move me \<and> k < pointerCount me"
  then show "\<exists>nd. Callback (cooked s me Move k nd) \<in> set (new_effects s s')"
    by (blast intro: input_event_emits(2))
next
  show "ev_pos (cooked s me ty k nd) =
     \<lparr>pos_x = axis_x (pointers me k), pos_y = axis_y (pointers me k)\<rparr>"
    by (rule cooked_divides(1))
  show "norm_pos (cooked s me ty k nd) =
     \<lparr>pos_x = fdiv (axis_x (pointers me k)) (float_of_int (mSurfWidth s)),
      pos_y = fdiv (axis_y (pointers me k)) (float_of_int (mSurfHeight s))\<rparr>"
    by (rule cooked_divides(2))
next
  assume "mSurfWidth s = 0 \<and> mSurfHeight s = 0"
  with cooked_divides(3) [of s me ty k nd]
  show "\<not> in_unit_interval (pos_x (norm_pos (cooked s me ty k nd)))"
    and "\<not> in_unit_interval (pos_y (norm_pos (cooked s me ty k nd)))" by simp_all
qed

theorem normalization_divides_by_zero_until_first_resize_witness:
  "process_input_events (handle_commands NativeEngine_ctor [(True, APP_CMD_INIT_WINDOW)])
       [touch_down_a, touch_move_c, touch_up] =
     Inr (state_after (handle_commands NativeEngine_ctor [(True, APP_CMD_INIT_WINDOW)])
            [touch_down_a, touch_move_c, touch_up]) \<and>
   mSurfWidth (handle_commands NativeEngine_ctor [(True, APP_CMD_INIT_WINDOW)]) = 0 \<and>
   mSurfHeight (handle_commands NativeEngine_ctor [(True, APP_CMD_INIT_WINDOW)]) = 0 \<and>
   select_event touch_down_a = Some (Down, 0) \<and>
   Callback (cooked (handle_commands NativeEngine_ctor [(True, APP_CMD_INIT_WINDOW)])
               touch_down_a Down 0 None)
     \<in> set (new_effects (handle_commands NativeEngine_ctor [(True, APP_CMD_INIT_WINDOW)])
          (state_after (handle_commands NativeEngine_ctor [(True, APP_CMD_INIT_WINDOW)])
             [touch_down_a, touch_move_c, touch_up])) \<and>
   norm_pos (cooked (handle_commands NativeEngine_ctor [(True, APP_CMD_INIT_WINDOW)])
               touch_down_a Down 0 None) = \<lparr>pos_x = PInf, pos_y = PInf\<rparr> \<and>
   is_move touch_move_c \<and> 0 < pointerCount touch_move_c \<and>
   Callback (cooked (handle_commands NativeEngine_ctor [(True, APP_CMD_INIT_WINDOW)])
               touch_move_c Move 0 (Some \<lparr>pos_x = NaN, pos_y = NaN\<rparr>))
     \<in> set (new_effects (handle_commands NativeEngine_ctor [(True, APP_CMD_INIT_WINDOW)])
          (state_after (handle_commands NativeEngine_ctor [(True, APP_CMD_INIT_WINDOW)])
             [touch_down_a, touch_move_c, touch_up])) \<and>
   \<not> in_unit_interval (pos_x (norm_pos
       (cooked (handle_commands NativeEngine_ctor [(True, APP_CMD_INIT_WINDOW)])
          touch_move_c Move 0 (Some \<lparr>pos_x = NaN, pos_y = NaN\<rparr>)))) \<and>
   \<not> in_unit_interval (pos_y (norm_pos
       (cooked (handle_commands NativeEngine_ctor [(True, APP_CMD_INIT_WINDOW)])
          touch_move_c Move 0 (Some \<lparr>pos_x = NaN, pos_y = NaN\<rparr>)))) \<and>
   DoFrame NativeEngine_ctor platform_ok = Inr (frame_after NativeEngine_ctor platform_ok) \<and>
   mSurfWidth (frame_after NativeEngine_ctor platform_ok) \<noteq> mSurfWidth NativeEngine_ctor \<and>
   eglQuerySurface_width platform_ok =
     Some (mSurfWidth (frame_after NativeEngine_ctor platform_ok))"
proof -
  let ?s0 = "handle_commands NativeEngine_ctor [(True, APP_CMD_INIT_WINDOW)]"
  let ?mes = "[touch_down_a, touch_move_c, touch_up]"
  let ?s' = "state_after ?s0 ?mes"
  let ?dn = "cooked ?s0 touch_down_a Down 0 None"
  let ?mv = "cooked ?s0 touch_move_c Move 0 (Some \<lparr>pos_x = NaN, pos_y = NaN\<rparr>)"
  have run: "process_input_events ?s0 ?mes = Inr ?s'" by (simp add: eval_defs)
  have z: "mSurfWidth ?s0 = 0 \<and> mSurfHeight ?s0 = 0" by (simp add: eval_defs)
  have sel: "select_event touch_down_a = Some (Down, 0)" by (simp add: eval_defs)
  have ne: "(0::nat) \<noteq> GAMEACTIVITY_MAX_NUM_POINTERS_IN_MOTION_EVENT" by simp
  have m1: "touch_down_a \<in> set ?mes" and m2: "touch_move_c \<in> set ?mes" by simp_all
  have mv: "is_move touch_move_c" and pc: "0 < pointerCount touch_move_c"
    by (simp_all add: eval_defs)
  have n: "norm_pos ?dn = \<lparr>pos_x = PInf, pos_y = PInf\<rparr>" by (simp add: eval_defs)
  have cm: "Callback ?mv \<in> set (new_effects ?s0 ?s')"
    by (simp add: eval_defs new_effects_def)
  have f1: "DoFrame NativeEngine_ctor platform_ok = Inr (frame_after NativeEngine_ctor platform_ok)"
    by (simp add: frame_defs)
  have d: "mSurfWidth (frame_after NativeEngine_ctor platform_ok) \<noteq> mSurfWidth NativeEngine_ctor"
    by (simp add: frame_defs)
  note t1 = normalization_divides_by_zero_until_first_resize
    [where s = ?s0 and mes = ?mes and s' = ?s' and me = touch_down_a and ty = Down
       and k = 0]
  note t2 = normalization_divides_by_zero_until_first_resize
    [where s = ?s0 and mes = ?mes and s' = ?s' and ty = Move and me = touch_move_c
       and k = 0 and nd = "Some \<lparr>pos_x = NaN, pos_y = NaN\<rparr>"]
  note t3 = normalization_divides_by_zero_until_first_resize
    [where s = NativeEngine_ctor and pf = platform_ok
       and s'' = "frame_after NativeEngine_ctor platform_ok"]
  from t1 run m1 sel ne have cd: "Callback ?dn \<in> set (new_effects ?s0 ?s')" by blast
  from t2 z have u: "\<not> in_unit_interval (pos_x (norm_pos ?mv)) \<and>
                     \<not> in_unit_interval (pos_y (norm_pos ?mv))" by blast
  from t3 f1 d have q: "eglQuerySurface_width platform_ok =
     Some (mSurfWidth (frame_after NativeEngine_ctor platform_ok))" by blast
  from run z sel cd n mv pc cm u f1 d q show ?thesis by blast
qed

text \<open>
  C10. \<open>HandleCommand\<close> on \<open>APP_CMD_TERM_WINDOW\<close> unbinds the current rendering target,
  destroys the surface if there is one, nulls the surface handle and clears
  \<open>mHasWindow\<close>; every other field, among them the display and context handles and the
  flags \<open>mHasFocus\<close> and \<open>mIsVisible\<close>, is unchanged.
\<close>

theorem HandleCommand_TERM_WINDOW_kills_surface:
  "HandleCommand s window APP_CMD_TERM_WINDOW =
     s\<lparr>mHasWindow := False, mEglSurface := EGL_NO_SURFACE,
       trace := trace s @
         EglMakeCurrent (mEglDisplay s) EGL_NO_SURFACE EGL_NO_SURFACE EGL_NO_CONTEXT #
         (if mEglSurface s \<noteq> EGL_NO_SURFACE
          then [EglDestroySurface (mEglDisplay s) (mEglSurface s)] else [])\<rparr> \<and>
   mEglDisplay (HandleCommand s window APP_CMD_TERM_WINDOW) = mEglDisplay s \<and>
   mEglContext (HandleCommand s window APP_CMD_TERM_WINDOW) = mEglContext s \<and>
   mHasFocus (HandleCommand s window APP_CMD_TERM_WINDOW) = mHasFocus s \<and>
   mIsVisible (HandleCommand s window APP_CMD_TERM_WINDOW) = mIsVisible s \<and>
   mEglSurface (HandleCommand s window APP_CMD_TERM_WINDOW) = EGL_NO_SURFACE \<and>
   \<not> mHasWindow (HandleCommand s window APP_CMD_TERM_WINDOW)"
  by (simp add: KillSurface_eq)


end
